(* ===== verification/Go_Prelude.thy ===== *)
theory Go_Prelude
  imports Main
begin

text \<open>
  The shared base of the development: how a Go function that talks to the outside world is
  written in HOL.

  A Go function is a function from the state of the world (the cloud, the node, the clock)
  to an outcome and a new world. The outcome is \<open>Ret\<close> for a normal return, \<open>Panic\<close> for a
  run-time panic that unwinds the stack, and \<open>Exit\<close> for \<^verbatim>\<open>os.Exit\<close>, which ends the
  process. An \<^verbatim>\<open>error\<close> result is a value of the sum type, \<open>Inl\<close> the error message;
  a bare \<^verbatim>\<open>error\<close> result is an option, \<open>None\<close> for \<^verbatim>\<open>nil\<close>.

  The theory also holds the weakest-precondition calculus the component proofs use
  (collection \<open>wp\<close>), the 32- and 64-bit signed integers of Go, and the Go map with its
  unspecified iteration order.
\<close>

named_theorems wp \<open>weakest-precondition equations of Go computations\<close>
named_theorems go_defs \<open>combinators of Go computations\<close>

section \<open>Outcomes and computations\<close>

type_synonym error = string

datatype 'a outcome = Ret 'a | Panic string | Exit int

type_synonym ('w, 'a) go = "'w \<Rightarrow> 'a outcome \<times> 'w"

definition ret :: "'a \<Rightarrow> ('w, 'a) go" where
  "ret x = (\<lambda>w. (Ret x, w))"

definition panic :: "string \<Rightarrow> ('w, 'a) go" where
  "panic msg = (\<lambda>w. (Panic msg, w))"

definition os_Exit :: "int \<Rightarrow> ('w, 'a) go" where
  "os_Exit code = (\<lambda>w. (Exit code, w))"

text \<open>Sequencing: a panic or an exit of the first computation skips the second.\<close>

definition bnd :: "('w, 'a) go \<Rightarrow> ('a \<Rightarrow> ('w, 'b) go) \<Rightarrow> ('w, 'b) go" where
  "bnd m f = (\<lambda>w. case m w of
       (Ret x, w') \<Rightarrow> f x w'
     | (Panic msg, w') \<Rightarrow> (Panic msg, w')
     | (Exit c, w') \<Rightarrow> (Exit c, w'))"

text \<open>The idiom \<^verbatim>\<open>x, err := m(); if err != nil { return ..., err }\<close>.\<close>

definition tryE :: "('w, 'e + 'a) go \<Rightarrow> ('a \<Rightarrow> ('w, 'e + 'b) go) \<Rightarrow> ('w, 'e + 'b) go" where
  "tryE m f = bnd m (\<lambda>r. case r of Inl e \<Rightarrow> ret (Inl e) | Inr x \<Rightarrow> f x)"

text \<open>The idiom \<^verbatim>\<open>err := m(); if err != nil { return err }\<close>.\<close>

definition tryO :: "('w, 'e option) go \<Rightarrow> ('w, 'e option) go \<Rightarrow> ('w, 'e option) go" where
  "tryO m k = bnd m (\<lambda>r. case r of Some e \<Rightarrow> ret (Some e) | None \<Rightarrow> k)"

text \<open>A call that only changes the world, such as \<^verbatim>\<open>time.Sleep\<close>.\<close>

definition effect :: "('w \<Rightarrow> 'w) \<Rightarrow> ('w, unit) go" where
  "effect f = (\<lambda>w. (Ret (), f w))"

text \<open>A call that always returns, given as a function on the world.\<close>

definition call :: "('w \<Rightarrow> 'a \<times> 'w) \<Rightarrow> ('w, 'a) go" where
  "call f = (\<lambda>w. case f w of (x, w') \<Rightarrow> (Ret x, w'))"

lemmas [go_defs] = ret_def panic_def os_Exit_def bnd_def tryE_def tryO_def effect_def call_def

lemma bnd_ret [simp]: "bnd (ret x) f = f x"
  by (simp add: go_defs)

lemma bnd_panic [simp]: "bnd (panic msg) f = panic msg"
  by (simp add: go_defs)

lemma bnd_os_Exit [simp]: "bnd (os_Exit c) f = os_Exit c"
  by (simp add: go_defs)

lemma ret_right [simp]: "bnd m ret = m"
  by (auto simp: go_defs fun_eq_iff split: prod.splits outcome.splits)

lemma bnd_assoc: "bnd (bnd m f) g = bnd m (\<lambda>x. bnd (f x) g)"
  by (auto simp: go_defs fun_eq_iff split: prod.splits outcome.splits)

lemma tryE_ret [simp]: "tryE (ret (Inr x)) f = f x" "tryE (ret (Inl e)) f = ret (Inl e)"
  by (simp_all add: tryE_def)

lemma tryO_ret [simp]: "tryO (ret None) k = k" "tryO (ret (Some e)) k = ret (Some e)"
  by (simp_all add: tryO_def)

section \<open>Weakest preconditions\<close>

text \<open>
  \<open>wp m Q w\<close>: running \<open>m\<close> in the world \<open>w\<close> ends in an outcome and a world that
  satisfy \<open>Q\<close>. Computations are total functions, so this is total correctness; the
  outcome says whether the run returned.
\<close>

definition wp :: "('w, 'a) go \<Rightarrow> ('a outcome \<Rightarrow> 'w \<Rightarrow> bool) \<Rightarrow> 'w \<Rightarrow> bool" where
  "wp m Q w \<longleftrightarrow> (case m w of (r, w') \<Rightarrow> Q r w')"

lemma wp_ret [wp]: "wp (ret x) Q w \<longleftrightarrow> Q (Ret x) w"
  by (simp add: wp_def go_defs)

lemma wp_panic [wp]: "wp (panic msg) Q w \<longleftrightarrow> Q (Panic msg) w"
  by (simp add: wp_def go_defs)

lemma wp_os_Exit [wp]: "wp (os_Exit c) Q w \<longleftrightarrow> Q (Exit c) w"
  by (simp add: wp_def go_defs)

lemma wp_effect [wp]: "wp (effect f) Q w \<longleftrightarrow> Q (Ret ()) (f w)"
  by (simp add: wp_def go_defs)

lemma wp_call [wp]: "wp (call f) Q w \<longleftrightarrow> Q (Ret (fst (f w))) (snd (f w))"
  by (simp add: wp_def go_defs split: prod.splits)

lemma wp_bnd [wp]:
  "wp (bnd m f) Q w \<longleftrightarrow>
     wp m (\<lambda>r w'. case r of Ret x \<Rightarrow> wp (f x) Q w' | Panic msg \<Rightarrow> Q (Panic msg) w'
                           | Exit c \<Rightarrow> Q (Exit c) w') w"
  by (simp add: wp_def go_defs split: prod.splits outcome.splits)

lemma wp_if [wp]: "wp (if b then m else n) Q w \<longleftrightarrow> (if b then wp m Q w else wp n Q w)"
  by simp

lemma wp_mono: "wp m P w \<Longrightarrow> (\<And>r w'. P r w' \<Longrightarrow> Q r w') \<Longrightarrow> wp m Q w"
  by (auto simp: wp_def split: prod.splits)

lemma wp_tryE [wp]:
  "wp (tryE m f) Q w \<longleftrightarrow>
     wp m (\<lambda>r w'. case r of Ret (Inr x) \<Rightarrow> wp (f x) Q w' | Ret (Inl e) \<Rightarrow> Q (Ret (Inl e)) w'
                           | Panic msg \<Rightarrow> Q (Panic msg) w' | Exit c \<Rightarrow> Q (Exit c) w') w"
  by (auto simp: tryE_def wp_def go_defs split: prod.splits outcome.splits sum.splits)

lemma wp_tryO [wp]:
  "wp (tryO m k) Q w \<longleftrightarrow>
     wp m (\<lambda>r w'. case r of Ret None \<Rightarrow> wp k Q w' | Ret (Some e) \<Rightarrow> Q (Ret (Some e)) w'
                           | Panic msg \<Rightarrow> Q (Panic msg) w' | Exit c \<Rightarrow> Q (Exit c) w') w"
  by (auto simp: tryO_def wp_def go_defs split: prod.splits outcome.splits option.splits)

text \<open>From a run to its precondition and back.\<close>

lemma wpI: "(\<And>r w'. m w = (r, w') \<Longrightarrow> Q r w') \<Longrightarrow> wp m Q w"
  by (auto simp: wp_def)

lemma wpD: "wp m Q w \<Longrightarrow> m w = (r, w') \<Longrightarrow> Q r w'"
  by (simp add: wp_def)

text \<open>
  Case analysis of a run of a sequence that returned: the first part returned, and the rest
  ran from its result. These rules take the runs of the components apart.
\<close>

lemma bnd_RetE [elim!]:
  assumes "bnd m f w = (Ret y, w'')"
  obtains x w' where "m w = (Ret x, w')" and "f x w' = (Ret y, w'')"
  using assms by (auto simp: bnd_def split: prod.splits outcome.splits)

lemma tryE_InrE [elim!]:
  assumes "tryE m f w = (Ret (Inr y), w'')"
  obtains x w' where "m w = (Ret (Inr x), w')" and "f x w' = (Ret (Inr y), w'')"
  using assms by (auto simp: tryE_def ret_def split: sum.splits)

lemma tryO_NoneE [elim!]:
  assumes "tryO m k w = (Ret None, w'')"
  obtains w' where "m w = (Ret None, w')" and "k w' = (Ret None, w'')"
  using assms by (auto simp: tryO_def ret_def split: option.splits)

lemma bnd_Ret: "m w = (Ret x, w') \<Longrightarrow> bnd m f w = f x w'"
  by (simp add: bnd_def)

lemma tryE_Inr: "m w = (Ret (Inr x), w') \<Longrightarrow> tryE m f w = f x w'"
  by (simp add: tryE_def bnd_def)

lemma tryE_Inl: "m w = (Ret (Inl e), w') \<Longrightarrow> tryE m f w = (Ret (Inl e), w')"
  by (simp add: tryE_def bnd_def ret_def)

lemma tryO_None: "m w = (Ret None, w') \<Longrightarrow> tryO m k w = k w'"
  by (simp add: tryO_def bnd_def)

lemma tryO_Some: "m w = (Ret (Some e), w') \<Longrightarrow> tryO m k w = (Ret (Some e), w')"
  by (simp add: tryO_def bnd_def ret_def)

lemmas run_simps = bnd_Ret tryE_Inr tryE_Inl tryO_None tryO_Some

lemma call_eq [simp]: "call f w = (Ret x, w') \<longleftrightarrow> f w = (x, w')"
  by (auto simp: call_def split: prod.splits)

lemma call_not [simp]: "call f w \<noteq> (Panic msg, w')" "call f w \<noteq> (Exit c, w')"
  by (auto simp: call_def split: prod.splits)

lemma ret_eq [simp]: "ret x w = (r, w') \<longleftrightarrow> r = Ret x \<and> w' = w"
  by (auto simp: ret_def)

lemma panic_eq [simp]: "panic msg w = (r, w') \<longleftrightarrow> r = Panic msg \<and> w' = w"
  by (auto simp: panic_def)

lemma os_Exit_eq [simp]: "os_Exit c w = (r, w') \<longleftrightarrow> r = Exit c \<and> w' = w"
  by (auto simp: os_Exit_def)

lemma effect_eq [simp]: "effect f w = (r, w') \<longleftrightarrow> r = Ret () \<and> w' = f w"
  by (auto simp: effect_def)

section \<open>A world with a local state\<close>

text \<open>
  An object whose methods change its fields runs in a world with a second component: its own
  state. A computation of the world alone is lifted.
\<close>

definition lift_world :: "('w, 'a) go \<Rightarrow> ('w \<times> 's, 'a) go" where
  "lift_world m = (\<lambda>(w, s). case m w of (r, w') \<Rightarrow> (r, (w', s)))"

definition modify :: "('s \<Rightarrow> 's) \<Rightarrow> ('w \<times> 's, unit) go" where
  "modify f = effect (\<lambda>(w, s). (w, f s))"

definition gets :: "('s \<Rightarrow> 'a) \<Rightarrow> ('w \<times> 's, 'a) go" where
  "gets f = call (\<lambda>(w, s). (f s, (w, s)))"

lemma lift_world_eq [simp]: "lift_world m (w, s) = (r, (w', s')) \<longleftrightarrow> m w = (r, w') \<and> s' = s"
  by (auto simp: lift_world_def split: prod.splits)

lemma modify_eq [simp]: "modify f (w, s) = (r, (w', s')) \<longleftrightarrow> r = Ret () \<and> w' = w \<and> s' = f s"
  by (auto simp: modify_def)

lemma gets_eq [simp]: "gets f (w, s) = (r, (w', s')) \<longleftrightarrow> r = Ret (f s) \<and> w' = w \<and> s' = s"
  by (auto simp: gets_def call_def)

section \<open>Keeping a property of the world\<close>

text \<open>
  \<open>keeps I m\<close>: whatever the outcome, a run of \<open>m\<close> from a world with \<open>I\<close> ends in a world
  with \<open>I\<close>. The rules build it along the structure of a computation.
\<close>

definition keeps :: "('w \<Rightarrow> bool) \<Rightarrow> ('w, 'a) go \<Rightarrow> bool" where
  "keeps I m \<longleftrightarrow> (\<forall>w. I w \<longrightarrow> I (snd (m w)))"

named_theorems keeps_intros \<open>structural rules for \<open>keeps\<close>\<close>

lemma keepsI: "(\<And>w r w'. I w \<Longrightarrow> m w = (r, w') \<Longrightarrow> I w') \<Longrightarrow> keeps I m"
  unfolding keeps_def by (metis prod.collapse)

lemma keepsD: "keeps I m \<Longrightarrow> I w \<Longrightarrow> m w = (r, w') \<Longrightarrow> I w'"
  unfolding keeps_def by (metis snd_conv)

lemma keeps_ret [keeps_intros]: "keeps I (ret x)"
  by (simp add: keeps_def ret_def)

lemma keeps_panic [keeps_intros]: "keeps I (panic msg)"
  by (simp add: keeps_def panic_def)

lemma keeps_os_Exit [keeps_intros]: "keeps I (os_Exit c)"
  by (simp add: keeps_def os_Exit_def)

lemma keeps_call: "(\<And>w. I w \<Longrightarrow> I (snd (f w))) \<Longrightarrow> keeps I (call f)"
  by (simp add: keeps_def call_def split_beta)

lemma keeps_effect: "(\<And>w. I w \<Longrightarrow> I (f w)) \<Longrightarrow> keeps I (effect f)"
  by (simp add: keeps_def effect_def)

lemma keeps_bnd [keeps_intros]: "keeps I m \<Longrightarrow> (\<And>x. keeps I (f x)) \<Longrightarrow> keeps I (bnd m f)"
  by (rule keepsI) (auto simp: bnd_def split: prod.splits outcome.splits dest: keepsD)

lemma keeps_tryE [keeps_intros]: "keeps I m \<Longrightarrow> (\<And>x. keeps I (f x)) \<Longrightarrow> keeps I (tryE m f)"
  unfolding tryE_def by (auto intro!: keeps_intros split: sum.splits)

lemma keeps_tryO [keeps_intros]: "keeps I m \<Longrightarrow> keeps I k \<Longrightarrow> keeps I (tryO m k)"
  unfolding tryO_def by (auto intro!: keeps_intros split: option.splits)

section \<open>Returning\<close>

text \<open>
  \<open>returns P m\<close>: from every world \<open>m\<close> returns, without a panic and without ending the
  process, and its result satisfies \<open>P\<close>.
\<close>

definition returns :: "('a \<Rightarrow> bool) \<Rightarrow> ('w, 'a) go \<Rightarrow> bool" where
  "returns P m \<longleftrightarrow> (\<forall>w. \<exists>x w'. m w = (Ret x, w') \<and> P x)"

named_theorems returns_intros \<open>structural rules for \<open>returns\<close>\<close>

lemma returns_ret [returns_intros]: "P x \<Longrightarrow> returns P (ret x)"
  by (simp add: returns_def)

lemma returns_call: "(\<And>w. P (fst (f w))) \<Longrightarrow> returns P (call f)"
  by (simp add: returns_def call_def split_beta)

lemma returns_effect [returns_intros]: "returns (\<lambda>_. True) (effect f)"
  by (simp add: returns_def)

lemma returns_bnd: "returns Q m \<Longrightarrow> (\<And>x. Q x \<Longrightarrow> returns P (f x)) \<Longrightarrow> returns P (bnd m f)"
  unfolding returns_def
proof
  fix w
  assume m: "\<forall>w. \<exists>x w'. m w = (Ret x, w') \<and> Q x" and f: "\<And>x. Q x \<Longrightarrow> \<forall>w. \<exists>y w'. f x w = (Ret y, w') \<and> P y"
  from m obtain x w1 where "m w = (Ret x, w1)" "Q x" by blast
  moreover from f [OF this(2)] obtain y w2 where "f x w1 = (Ret y, w2)" "P y" by blast
  ultimately show "\<exists>y w'. bnd m f w = (Ret y, w') \<and> P y" by (simp add: bnd_def)
qed

lemma returns_any: "returns P m \<Longrightarrow> returns (\<lambda>_. True) m"
  unfolding returns_def by blast

lemma returns_bnd_any [returns_intros]:
  "returns (\<lambda>_. True) m \<Longrightarrow> (\<And>x. returns P (f x)) \<Longrightarrow> returns P (bnd m f)"
  by (rule returns_bnd)

lemma returns_call_any [returns_intros]: "returns (\<lambda>_. True) (call f)"
  by (rule returns_call) simp

lemma returns_tryE [returns_intros]:
  "returns (\<lambda>_. True) m \<Longrightarrow> (\<And>x. returns (\<lambda>_. True) (f x)) \<Longrightarrow> returns (\<lambda>_. True) (tryE m f)"
  unfolding tryE_def by (auto intro!: returns_intros split: sum.splits)

lemma returnsD: "returns P m \<Longrightarrow> \<exists>x w'. m w = (Ret x, w') \<and> P x"
  by (simp add: returns_def)

section \<open>Fixed-width integers\<close>

text \<open>
  Go's \<^verbatim>\<open>int\<close> and \<^verbatim>\<open>int64\<close> have 64 bits on the supported platforms and
  \<^verbatim>\<open>int32\<close> has 32; both are two's complement. A value is an \<^typ>\<open>int\<close>, a conversion
  keeps the low bits (\<open>to_int32\<close>, \<open>to_int64\<close>), and arithmetic is followed by the conversion.
\<close>

definition to_int32 :: "int \<Rightarrow> int" where
  "to_int32 x = signed_take_bit 31 x"

definition to_int64 :: "int \<Rightarrow> int" where
  "to_int64 x = signed_take_bit 63 x"

definition is_int32 :: "int \<Rightarrow> bool" where
  "is_int32 x \<longleftrightarrow> - (2 ^ 31) \<le> x \<and> x < 2 ^ 31"

definition is_int64 :: "int \<Rightarrow> bool" where
  "is_int64 x \<longleftrightarrow> - (2 ^ 63) \<le> x \<and> x < 2 ^ 63"

lemma to_int32_id [simp]: "is_int32 x \<Longrightarrow> to_int32 x = x"
  unfolding is_int32_def to_int32_def by (rule signed_take_bit_int_eq_self) auto

lemma to_int64_id [simp]: "is_int64 x \<Longrightarrow> to_int64 x = x"
  unfolding is_int64_def to_int64_def by (rule signed_take_bit_int_eq_self) auto

lemma is_int32_to_int32 [simp]: "is_int32 (to_int32 x)"
  unfolding is_int32_def to_int32_def
  using signed_take_bit_int_greater_eq_minus_exp [of 31 x] signed_take_bit_int_less_exp [of 31 x]
  by auto

lemma is_int64_to_int64 [simp]: "is_int64 (to_int64 x)"
  unfolding is_int64_def to_int64_def
  using signed_take_bit_int_greater_eq_minus_exp [of 63 x] signed_take_bit_int_less_exp [of 63 x]
  by auto

lemma is_int32_int64: "is_int32 x \<Longrightarrow> is_int64 x"
  by (simp add: is_int32_def is_int64_def)

end
