(* ===== verification/Go_Strings.thy ===== *)
theory Go_Strings
  imports Go_Prelude
begin

text \<open>
  The functions of Go's \<^verbatim>\<open>strings\<close>, \<^verbatim>\<open>strconv\<close>, \<^verbatim>\<open>path\<close> and
  \<^verbatim>\<open>fmt\<close> packages that the program calls, on strings as lists of bytes, and their
  laws: decimal printing and parsing are inverse to each other, a printed number has no
  separator in it, replacement of a prefix, the last element of a path.
\<close>

section \<open>strings.ToLower, strings.Replace, strings.Split\<close>

text \<open>\<^verbatim>\<open>strings.ToLower\<close> on the bytes of the ASCII range.\<close>

definition lower_char :: "char \<Rightarrow> char" where
  "lower_char c = (if 65 \<le> (of_char c :: nat) \<and> (of_char c :: nat) \<le> 90
                   then char_of ((of_char c :: nat) + 32) else c)"

definition ToLower :: "string \<Rightarrow> string" where
  "ToLower s = map lower_char s"

text \<open>\<open>strip_prefix p s\<close> is the rest of \<open>s\<close> after the prefix \<open>p\<close>, if it has it.\<close>

fun strip_prefix :: "string \<Rightarrow> string \<Rightarrow> string option" where
  "strip_prefix [] s = Some s"
| "strip_prefix (p # ps) [] = None"
| "strip_prefix (p # ps) (c # cs) = (if p = c then strip_prefix ps cs else None)"

text \<open>\<^verbatim>\<open>strings.Replace(s, old, new, 1)\<close> for a non-empty \<open>old\<close>.\<close>

fun Replace1 :: "string \<Rightarrow> string \<Rightarrow> string \<Rightarrow> string" where
  "Replace1 [] old new = []"
| "Replace1 (c # cs) old new =
     (case strip_prefix old (c # cs) of
        Some rest \<Rightarrow> new @ rest
      | None \<Rightarrow> c # Replace1 cs old new)"

text \<open>\<^verbatim>\<open>strings.Replace(s, c, "", -1)\<close> for a single byte \<open>c\<close>.\<close>

definition RemoveAll :: "string \<Rightarrow> char \<Rightarrow> string" where
  "RemoveAll s c = filter (\<lambda>x. x \<noteq> c) s"

text \<open>\<^verbatim>\<open>strings.Split(s, c)\<close> for a single byte \<open>c\<close>.\<close>

fun Split :: "string \<Rightarrow> char \<Rightarrow> string list" where
  "Split [] c = [[]]"
| "Split (x # xs) c =
     (if x = c then [] # Split xs c
      else (case Split xs c of [] \<Rightarrow> [[x]] | f # fs \<Rightarrow> (x # f) # fs))"

lemma strip_prefix_append [simp]: "strip_prefix p (p @ s) = Some s"
  by (induction p) auto

lemma strip_prefix_Some: "strip_prefix p s = Some t \<longleftrightarrow> s = p @ t"
  by (induction p s rule: strip_prefix.induct) auto

lemma strip_prefix_None: "strip_prefix p s = None \<longleftrightarrow> (\<forall>t. s \<noteq> p @ t)"
  by (induction p s rule: strip_prefix.induct) auto

lemma Replace1_prefix [simp]: "old \<noteq> [] \<Longrightarrow> Replace1 (old @ s) old new = new @ s"
  by (cases old) auto

lemma Replace1_absent:
  "(\<forall>u v. s \<noteq> u @ old @ v) \<Longrightarrow> Replace1 s old new = s"
proof (induction s)
  case Nil
  then show ?case by simp
next
  case (Cons c cs)
  have "strip_prefix old (c # cs) = None"
    unfolding strip_prefix_None using Cons.prems [rule_format, of "[]"] by auto
  moreover have "\<forall>u v. cs \<noteq> u @ old @ v"
    using Cons.prems by (metis append_Cons)
  ultimately show ?case using Cons.IH by simp
qed

lemma Split_nonempty [simp]: "Split s c \<noteq> []"
  by (cases s) (auto split: list.splits)

text \<open>Splitting loses nothing: joining the parts with the separator gives the string back.\<close>

fun join :: "string list \<Rightarrow> char \<Rightarrow> string" where
  "join [] c = []"
| "join [f] c = f"
| "join (f # fs) c = f @ c # join fs c"

lemma join_Cons: "fs \<noteq> [] \<Longrightarrow> join (f # fs) c = f @ c # join fs c"
  by (cases fs) auto

lemma join_extend: "join ((x # f) # fs) c = x # join (f # fs) c"
  by (cases fs) auto

lemma join_Split: "join (Split s c) c = s"
proof (induction s)
  case Nil
  then show ?case by simp
next
  case (Cons x xs)
  obtain f fs where f: "Split xs c = f # fs"
    by (cases "Split xs c") auto
  with Cons.IH have j: "join (f # fs) c = xs" by simp
  show ?case
  proof (cases "x = c")
    case True
    then show ?thesis using Cons.IH by (simp add: join_Cons)
  next
    case False
    then show ?thesis using f j by (simp only: Split.simps if_False list.case join_extend)
  qed
qed

lemma Split_no_sep: "\<forall>f \<in> set (Split s c). c \<notin> set f"
  by (induction s) (auto split: list.splits)

section \<open>Decimal numbers: strconv.Itoa, strconv.Atoi, the verb \%d\<close>

definition digit_char :: "nat \<Rightarrow> char" where
  "digit_char d = char_of (48 + d :: nat)"

definition digit_val :: "char \<Rightarrow> nat option" where
  "digit_val c = (let n = of_char c :: nat in if 48 \<le> n \<and> n \<le> 57 then Some (n - 48) else None)"

fun show_nat :: "nat \<Rightarrow> string" where
  "show_nat n = (if n < 10 then [digit_char n] else show_nat (n div 10) @ [digit_char (n mod 10)])"

declare show_nat.simps [simp del]

definition Itoa :: "int \<Rightarrow> string" where
  "Itoa i = (if i < 0 then CHR ''-'' # show_nat (nat (- i)) else show_nat (nat i))"

text \<open>The digits of an unsigned decimal number; \<open>None\<close> on a byte that is no digit.\<close>

fun digits_val :: "nat \<Rightarrow> string \<Rightarrow> nat option" where
  "digits_val acc [] = Some acc"
| "digits_val acc (c # cs) =
     (case digit_val c of None \<Rightarrow> None | Some d \<Rightarrow> digits_val (10 * acc + d) cs)"

datatype num_error = ErrSyntax | ErrRange

text \<open>
  \<^verbatim>\<open>strconv.Atoi\<close>: an optional sign, then at least one digit, and a value that fits
  64 bits. A number above the 64-bit range, or a value above the signed range, is
  \<^verbatim>\<open>ErrRange\<close>; a syntax error wins over it.
\<close>

definition Atoi_nat :: "bool \<Rightarrow> string \<Rightarrow> num_error + int" where
  "Atoi_nat neg s =
     (if s = [] then Inl ErrSyntax
      else case digits_val 0 s of
        None \<Rightarrow> Inl ErrSyntax
      | Some n \<Rightarrow> if neg then (if n \<le> 2 ^ 63 then Inr (- int n) else Inl ErrRange)
                        else (if n < 2 ^ 63 then Inr (int n) else Inl ErrRange))"

definition Atoi :: "string \<Rightarrow> num_error + int" where
  "Atoi s = (case s of
       [] \<Rightarrow> Inl ErrSyntax
     | c # cs \<Rightarrow> if c = CHR ''-'' then Atoi_nat True cs
                 else if c = CHR ''+'' then Atoi_nat False cs
                 else Atoi_nat False s)"

lemma digit_val_char [simp]: "d < 10 \<Longrightarrow> digit_val (digit_char d) = Some d"
  by (simp add: digit_val_def digit_char_def Let_def)

lemma digits_val_append:
  "digits_val acc (xs @ ys) = (case digits_val acc xs of None \<Rightarrow> None | Some a \<Rightarrow> digits_val a ys)"
  by (induction acc xs rule: digits_val.induct) (auto split: option.splits)

lemma digits_val_show_nat: "digits_val 0 (show_nat n) = Some n"
proof (induction n rule: show_nat.induct)
  case (1 n)
  show ?case
  proof (cases "n < 10")
    case True
    then show ?thesis by (subst show_nat.simps) simp
  next
    case False
    with "1" have "digits_val 0 (show_nat (n div 10)) = Some (n div 10)" by simp
    with False show ?thesis by (subst show_nat.simps) (simp add: digits_val_append)
  qed
qed

lemma show_nat_nonempty [simp]: "show_nat n \<noteq> []"
  by (subst show_nat.simps) simp

lemma show_nat_digits: "c \<in> set (show_nat n) \<Longrightarrow> digit_val c \<noteq> None"
proof (induction n rule: show_nat.induct)
  case (1 n)
  then show ?case
    by (subst (asm) show_nat.simps) (auto split: if_splits)
qed

lemma sign_no_digit [simp]:
  "digit_val CHR ''-'' = None" "digit_val CHR ''+'' = None" "digit_val CHR ''|'' = None"
  by (simp_all add: digit_val_def)

lemma show_nat_hd: "\<exists>c cs. show_nat n = c # cs \<and> c \<noteq> CHR ''-'' \<and> c \<noteq> CHR ''+''"
proof (cases "show_nat n")
  case Nil
  then show ?thesis by simp
next
  case (Cons c cs)
  then have "c \<in> set (show_nat n)" by simp
  then have "digit_val c \<noteq> None" by (rule show_nat_digits)
  then have "c \<noteq> CHR ''-''" "c \<noteq> CHR ''+''" by (metis sign_no_digit)+
  with Cons show ?thesis by blast
qed

lemma Atoi_nat_show:
  "Atoi_nat neg (show_nat n) =
     (if neg then (if n \<le> 2 ^ 63 then Inr (- int n) else Inl ErrRange)
      else (if n < 2 ^ 63 then Inr (int n) else Inl ErrRange))"
  by (simp add: Atoi_nat_def digits_val_show_nat)

lemma Atoi_show_nat: "Atoi (show_nat n) = Atoi_nat False (show_nat n)"
  using show_nat_hd [of n] by (auto simp: Atoi_def)

text \<open>Every 64-bit integer survives printing and parsing.\<close>

lemma Atoi_Itoa: "is_int64 i \<Longrightarrow> Atoi (Itoa i) = Inr i"
proof (cases "i < 0")
  case True
  assume "is_int64 i"
  with True have "nat (- i) \<le> 2 ^ 63" by (simp add: is_int64_def)
  with True show ?thesis by (simp add: Itoa_def Atoi_def Atoi_nat_show)
next
  case False
  assume "is_int64 i"
  with False have "nat i < 2 ^ 63" by (simp add: is_int64_def nat_less_iff)
  with False show ?thesis by (simp add: Itoa_def Atoi_show_nat Atoi_nat_show)
qed

lemma show_nat_inj: "show_nat m = show_nat n \<Longrightarrow> m = n"
  by (metis digits_val_show_nat option.inject)

lemma minus_show_nat: "CHR ''-'' # show_nat n \<noteq> show_nat m"
  using show_nat_hd [of m] by auto

lemma Itoa_inj:
  assumes "Itoa i = Itoa j"
  shows "i = j"
proof (cases "i < 0"; cases "j < 0")
  assume "i < 0" "j < 0"
  with assms have "nat (- i) = nat (- j)" by (auto simp: Itoa_def intro: show_nat_inj)
  with \<open>i < 0\<close> \<open>j < 0\<close> show ?thesis by simp
next
  assume "\<not> i < 0" "\<not> j < 0"
  with assms have "nat i = nat j" by (auto simp: Itoa_def intro: show_nat_inj)
  with \<open>\<not> i < 0\<close> \<open>\<not> j < 0\<close> show ?thesis by simp
qed (use assms minus_show_nat minus_show_nat [THEN not_sym] in \<open>auto simp: Itoa_def\<close>)

lemma Itoa_no_bar: "CHR ''|'' \<notin> set (Itoa i)"
proof -
  have "CHR ''|'' \<notin> set (show_nat n)" for n
    using show_nat_digits [of "CHR ''|''" n] by auto
  then show ?thesis by (simp add: Itoa_def)
qed

section \<open>strconv.ParseBool, strconv.FormatBool\<close>

definition FormatBool :: "bool \<Rightarrow> string" where
  "FormatBool b = (if b then ''true'' else ''false'')"

definition ParseBool :: "string \<Rightarrow> num_error + bool" where
  "ParseBool s =
     (if s \<in> set [''1'', ''t'', ''T'', ''true'', ''TRUE'', ''True''] then Inr True
      else if s \<in> set [''0'', ''f'', ''F'', ''false'', ''FALSE'', ''False''] then Inr False
      else Inl ErrSyntax)"

lemma ParseBool_FormatBool [simp]: "ParseBool (FormatBool b) = Inr b"
  by (simp add: ParseBool_def FormatBool_def)

section \<open>path.Base\<close>

text \<open>
  \<^verbatim>\<open>path.Base\<close>: the empty path gives a dot; trailing slashes are dropped, then
  everything up to the last slash; a path of slashes only gives one slash.
\<close>

definition path_Base :: "string \<Rightarrow> string" where
  "path_Base s =
     (if s = [] then ''.''
      else let t = rev (dropWhile (\<lambda>c. c = CHR ''/'') (rev s));
               b = rev (takeWhile (\<lambda>c. c \<noteq> CHR ''/'') (rev t))
           in if b = [] then ''/'' else b)"

lemma dropWhile_hd: "xs \<noteq> [] \<Longrightarrow> \<not> P (hd xs) \<Longrightarrow> dropWhile P (xs @ ys) = xs @ ys"
  by (cases xs) auto

lemma takeWhile_sep: "\<forall>x \<in> set xs. P x \<Longrightarrow> \<not> P y \<Longrightarrow> takeWhile P (xs @ y # ys) = xs"
  by (induction xs) auto

lemma last_no_slash: "s \<noteq> [] \<Longrightarrow> CHR ''/'' \<notin> set s \<Longrightarrow> hd (rev s) \<noteq> CHR ''/''"
  by (metis hd_rev last_in_set)

lemma path_Base_no_slash:
  assumes "s \<noteq> []" and "CHR ''/'' \<notin> set s"
  shows "path_Base s = s"
proof -
  have d: "dropWhile (\<lambda>c. c = CHR ''/'') (rev s) = rev s"
    using dropWhile_hd [of "rev s" "\<lambda>c. c = CHR ''/''" "[]"] last_no_slash [OF assms] assms(1)
    by simp
  have t: "takeWhile (\<lambda>c. c \<noteq> CHR ''/'') (rev s) = rev s"
    using assms(2) by (auto simp: takeWhile_eq_all_conv)
  show ?thesis
    unfolding path_Base_def d rev_rev_ident t Let_def using assms(1) by simp
qed

lemma path_Base_dir:
  assumes "s \<noteq> []" and "CHR ''/'' \<notin> set s"
  shows "path_Base (d @ CHR ''/'' # s) = s"
proof -
  have r: "rev (d @ CHR ''/'' # s) = rev s @ CHR ''/'' # rev d" by simp
  have d: "dropWhile (\<lambda>c. c = CHR ''/'') (rev s @ CHR ''/'' # rev d) = rev s @ CHR ''/'' # rev d"
    using assms(1) last_no_slash [OF assms] by (intro dropWhile_hd) auto
  have t: "takeWhile (\<lambda>c. c \<noteq> CHR ''/'') (rev s @ CHR ''/'' # rev d) = rev s"
    using assms(2) by (intro takeWhile_sep) auto
  show ?thesis
    unfolding path_Base_def r d rev_rev_ident t Let_def using assms(1) by simp
qed

section \<open>fmt.Sprintf\<close>

text \<open>
  \<^verbatim>\<open>fmt.Sprintf(format, args...)\<close> with arguments already rendered as the default
  verb renders them. Flags, widths and precisions of a verb are skipped, as the program
  uses only the \<^verbatim>\<open>+\<close> flag on arguments it has no effect on; explicit argument
  indexes and star widths are outside the model.
\<close>

definition is_flag :: "char \<Rightarrow> bool" where
  "is_flag c \<longleftrightarrow> c \<in> set ''+-# .0123456789''"

fun sprintf :: "string \<Rightarrow> string list \<Rightarrow> string"
and sprintf_verb :: "string \<Rightarrow> string list \<Rightarrow> string" where
  "sprintf [] args = []"
| "sprintf (c # cs) args = (if c = CHR ''%'' then sprintf_verb cs args else c # sprintf cs args)"
| "sprintf_verb [] args = ''%!(NOVERB)''"
| "sprintf_verb (c # cs) args =
     (if is_flag c then sprintf_verb cs args
      else if c = CHR ''%'' then CHR ''%'' # sprintf cs args
      else case args of
        [] \<Rightarrow> ''%!'' @ c # ''(MISSING)'' @ sprintf cs []
      | a # as \<Rightarrow> a @ sprintf cs as)"

text \<open>\<^verbatim>\<open>strconv.Quote\<close>, which prints an argument of the verb q, for printable characters.\<close>

definition Quote :: "string \<Rightarrow> string" where
  "Quote s = [CHR 0x22] @ concat (map (\<lambda>c. if c = CHR 0x22 \<or> c = CHR 0x5C then [CHR 0x5C, c] else [c]) s) @ [CHR 0x22]"

text \<open>A format without a percent sign is printed as it is.\<close>

lemma sprintf_plain: "CHR ''%'' \<notin> set s \<Longrightarrow> sprintf s args = s"
  by (induction s) auto

end
