(* ===== verification/Aliyun_Client.thy ===== *)
theory Aliyun_Client
  imports Go_Strings
begin

text \<open>
  The boundary of the program: the records the Aliyun client library exchanges with the
  cloud, the environment the provider runs in, and the client methods the provider calls,
  from \<^verbatim>\<open>vendor/github.com/denverdino/aliyungo\<close>.

  The cloud itself is not part of the program. One field of the record \<open>env\<close> stands for
  each remote action (\<^verbatim>\<open>Client.Invoke(action, args, response)\<close>: the signed HTTP request
  and the decoding of its answer), and likewise for the clock, the random strings, the
  node's file system and mount tools, the metadata service, and the order in which a
  \<^verbatim>\<open>range\<close> over a map visits the keys. The state \<open>'w\<close> of the world is a type
  variable: nothing is known of it but what these operations return.

  Of every struct the fields are kept that the provider writes or reads; the other fields
  of an argument struct have their zero value, which the client library does not send.
\<close>

section \<open>Data exchanged with the cloud\<close>

record Pagination =
  PageNumber :: int
  PageSize :: int

record PaginationResult =
  TotalCount :: int
  Result_PageNumber :: int
  Result_PageSize :: int

record InstanceAttributesType =
  InstanceId :: string
  HostName :: string
  PrivateIpAddress :: "string list" \<comment> \<open>\<^verbatim>\<open>VpcAttributes.PrivateIpAddress.IpAddress\<close>\<close>

record DescribeInstancesArgs =
  DescribeInstances_RegionId :: string
  DescribeInstances_VpcId :: string
  DescribeInstances_Pagination :: Pagination

record DiskItemType =
  DiskId :: string
  Disk_Status :: string
  Disk_InstanceId :: string
  Device :: string

record DescribeDisksArgs =
  DescribeDisks_RegionId :: string
  DescribeDisks_DiskIds :: "string list"
  DescribeDisks_InstanceId :: string
  DescribeDisks_Pagination :: Pagination

record CreateDiskArgs =
  CreateDisk_RegionId :: string
  CreateDisk_ZoneId :: string
  CreateDisk_DiskCategory :: string
  CreateDisk_DiskName :: string
  CreateDisk_Size :: int

record AttachDiskArgs =
  AttachDisk_InstanceId :: string
  AttachDisk_DiskId :: string
  DeleteWithInstance :: bool

record DetachDiskArgs =
  DetachDisk_InstanceId :: string
  DetachDisk_DiskId :: string

record RouteEntrySetType =
  DestinationCidrBlock :: string
  NextHopType :: string
  RouteEntry_InstanceId :: string

record RouteTableSetType =
  RouteEntry :: "RouteEntrySetType list"

record DescribeRouteTablesArgs =
  DescribeRouteTables_VRouterId :: string
  DescribeRouteTables_RouteTableId :: string
  DescribeRouteTables_Pagination :: Pagination

record RouteEntryArgs = \<comment> \<open>\<^verbatim>\<open>CreateRouteEntryArgs\<close> and \<^verbatim>\<open>DeleteRouteEntryArgs\<close>\<close>
  Args_RouteTableId :: string
  Args_DestinationCidrBlock :: string
  NextHopId :: string

record VSwitchSetType =
  ZoneId :: string

record DescribeVSwitchesArgs =
  DescribeVSwitches_VpcId :: string
  DescribeVSwitches_VSwitchId :: string
  DescribeVSwitches_Pagination :: Pagination

record ListenerPortAndProtocolType =
  ListenerPort :: int
  ListenerProtocol :: string

record BackendServerType =
  ServerId :: string
  Weight :: int

record LoadBalancerType =
  LoadBalancerId :: string
  LoadBalancerName :: string
  Address :: string
  ListenerPortsAndProtocol :: "ListenerPortAndProtocolType list"
  BackendServers :: "BackendServerType list"

record CreateLoadBalancerArgs =
  CreateLoadBalancer_RegionId :: string
  CreateLoadBalancer_Name :: string
  AddressType :: string
  CreateLoadBalancer_InternetChargeType :: string
  CreateLoadBalancer_Bandwidth :: int
  ClientToken :: string

record CreateListenerArgs = \<comment> \<open>\<^verbatim>\<open>CreateLoadBalancerTCPListenerArgs\<close>, \<^verbatim>\<open>CreateLoadBalancerUDPListenerArgs\<close>\<close>
  Listener_LoadBalancerId :: string
  Listener_Port :: int
  Listener_BackendServerPort :: int
  Listener_Bandwidth :: int
  HealthCheckType :: string
  HealthCheckConnectPort :: int
  Listener_HealthyThreshold :: int
  Listener_UnhealthyThreshold :: int
  Listener_HealthCheckConnectTimeout :: int
  Listener_HealthCheckInterval :: int

record ListenerAttributeResponse =
  BackendServerPort :: int
  ListenerStatus :: string

section \<open>The environment\<close>

record 'w env =
  invoke_DescribeInstances ::
    "DescribeInstancesArgs \<Rightarrow> 'w \<Rightarrow> (error + InstanceAttributesType list \<times> PaginationResult) \<times> 'w"
  invoke_DescribeDisks ::
    "DescribeDisksArgs \<Rightarrow> 'w \<Rightarrow> (error + DiskItemType list \<times> PaginationResult) \<times> 'w"
  invoke_CreateDisk :: "CreateDiskArgs \<Rightarrow> 'w \<Rightarrow> (error + string) \<times> 'w"
  invoke_DeleteDisk :: "string \<Rightarrow> 'w \<Rightarrow> error option \<times> 'w"
  invoke_AttachDisk :: "AttachDiskArgs \<Rightarrow> 'w \<Rightarrow> error option \<times> 'w"
  invoke_DetachDisk :: "DetachDiskArgs \<Rightarrow> 'w \<Rightarrow> error option \<times> 'w"
  invoke_DescribeRouteTables ::
    "DescribeRouteTablesArgs \<Rightarrow> 'w \<Rightarrow> (error + RouteTableSetType list \<times> PaginationResult) \<times> 'w"
  invoke_CreateRouteEntry :: "RouteEntryArgs \<Rightarrow> 'w \<Rightarrow> error option \<times> 'w"
  invoke_DeleteRouteEntry :: "RouteEntryArgs \<Rightarrow> 'w \<Rightarrow> error option \<times> 'w"
  invoke_DescribeVSwitches ::
    "DescribeVSwitchesArgs \<Rightarrow> 'w \<Rightarrow> (error + VSwitchSetType list \<times> PaginationResult) \<times> 'w"
  invoke_DescribeLoadBalancers :: "string \<Rightarrow> 'w \<Rightarrow> (error + LoadBalancerType list) \<times> 'w"
  invoke_DescribeLoadBalancerAttribute :: "string \<Rightarrow> 'w \<Rightarrow> (error + LoadBalancerType) \<times> 'w"
  invoke_CreateLoadBalancer :: "CreateLoadBalancerArgs \<Rightarrow> 'w \<Rightarrow> error option \<times> 'w"
  invoke_DeleteLoadBalancer :: "string \<Rightarrow> 'w \<Rightarrow> error option \<times> 'w"
  invoke_DescribeTCPListenerAttribute ::
    "string \<Rightarrow> int \<Rightarrow> 'w \<Rightarrow> (error + ListenerAttributeResponse) \<times> 'w"
  invoke_DescribeUDPListenerAttribute ::
    "string \<Rightarrow> int \<Rightarrow> 'w \<Rightarrow> (error + ListenerAttributeResponse) \<times> 'w"
  invoke_CreateTCPListener :: "CreateListenerArgs \<Rightarrow> 'w \<Rightarrow> error option \<times> 'w"
  invoke_CreateUDPListener :: "CreateListenerArgs \<Rightarrow> 'w \<Rightarrow> error option \<times> 'w"
  invoke_StartListener :: "string \<Rightarrow> int \<Rightarrow> 'w \<Rightarrow> error option \<times> 'w"
  invoke_DeleteListener :: "string \<Rightarrow> int \<Rightarrow> 'w \<Rightarrow> error option \<times> 'w"
  invoke_AddBackendServers :: "string \<Rightarrow> BackendServerType list \<Rightarrow> 'w \<Rightarrow> error option \<times> 'w"
  invoke_RemoveBackendServers :: "string \<Rightarrow> string list \<Rightarrow> 'w \<Rightarrow> error option \<times> 'w"
  env_Sleep :: "int \<Rightarrow> 'w \<Rightarrow> 'w"
  env_CreateRandomString :: "'w \<Rightarrow> string \<times> 'w"
  env_range_order :: "'w \<Rightarrow> string list \<Rightarrow> string list"
  env_Metadata :: "string \<Rightarrow> 'w \<Rightarrow> (error + string) \<times> 'w"
  env_PathMissing :: "string \<Rightarrow> 'w \<Rightarrow> bool \<times> 'w"
  env_MkdirAll :: "string \<Rightarrow> 'w \<Rightarrow> error option \<times> 'w"
  env_FormatAndMount :: "string \<Rightarrow> string \<Rightarrow> string \<Rightarrow> string list \<Rightarrow> 'w \<Rightarrow> error option \<times> 'w"
  env_Unmount :: "string \<Rightarrow> 'w \<Rightarrow> error option \<times> 'w"

section \<open>Pagination\<close>

text \<open>\<^verbatim>\<open>Pagination.Validate\<close>: a negative page number becomes 1, a page size is kept in 0..50.\<close>

definition Validate :: "Pagination \<Rightarrow> Pagination" where
  "Validate p =
     (let p1 = (if PageNumber p < 0 then p\<lparr>PageNumber := 1\<rparr> else p)
      in if PageSize p1 < 0 then p1\<lparr>PageSize := 10\<rparr>
         else if PageSize p1 > 50 then p1\<lparr>PageSize := 50\<rparr>
         else p1)"

text \<open>\<^verbatim>\<open>PaginationResult.NextPage\<close>; the product and the sum are of 64 bits.\<close>

definition NextPage :: "PaginationResult \<Rightarrow> Pagination option" where
  "NextPage r =
     (if to_int64 (Result_PageNumber r * Result_PageSize r) \<ge> TotalCount r then None
      else Some \<lparr>PageNumber = to_int64 (Result_PageNumber r + 1), PageSize = Result_PageSize r\<rparr>)"

lemma Validate_bounds: "0 \<le> PageNumber (Validate p) \<and> 0 \<le> PageSize (Validate p) \<and> PageSize (Validate p) \<le> 50"
  by (simp add: Validate_def Let_def)

lemma Validate_idem: "Validate (Validate p) = Validate p"
  using Validate_bounds [of p] by (simp add: Validate_def [of "Validate p"] Let_def)

section \<open>Client methods of the ECS package\<close>

text \<open>\<^verbatim>\<open>common.GetClientErrorFromString\<close> followed by \<^verbatim>\<open>Error()\<close>.\<close>

definition GetClientErrorFromString :: "string \<Rightarrow> error" where
  "GetClientErrorFromString s =
     sprintf ''Aliyun API Error: RequestId: %s Status Code: %d Code: %s Message: %s''
       ['''', Itoa (-1), ''AliyunGoClientFailure'', s]"

definition DescribeInstances ::
  "'w env \<Rightarrow> DescribeInstancesArgs \<Rightarrow> ('w, error + InstanceAttributesType list \<times> PaginationResult) go" where
  "DescribeInstances E args =
     call (invoke_DescribeInstances E
       (args\<lparr>DescribeInstances_Pagination := Validate (DescribeInstances_Pagination args)\<rparr>))"

definition DescribeDisks ::
  "'w env \<Rightarrow> DescribeDisksArgs \<Rightarrow> ('w, error + DiskItemType list \<times> PaginationResult) go" where
  "DescribeDisks E args = call (invoke_DescribeDisks E args)"

definition CreateDisk :: "'w env \<Rightarrow> CreateDiskArgs \<Rightarrow> ('w, error + string) go" where
  "CreateDisk E args = call (invoke_CreateDisk E args)"

definition DeleteDisk :: "'w env \<Rightarrow> string \<Rightarrow> ('w, error option) go" where
  "DeleteDisk E diskId = call (invoke_DeleteDisk E diskId)"

definition AttachDisk :: "'w env \<Rightarrow> AttachDiskArgs \<Rightarrow> ('w, error option) go" where
  "AttachDisk E args = call (invoke_AttachDisk E args)"

definition DetachDisk :: "'w env \<Rightarrow> string \<Rightarrow> string \<Rightarrow> ('w, error option) go" where
  "DetachDisk E instanceId diskId =
     call (invoke_DetachDisk E \<lparr>DetachDisk_InstanceId = instanceId, DetachDisk_DiskId = diskId\<rparr>)"

definition DefaultWaitForInterval :: int where "DefaultWaitForInterval = 5"
definition DefaultTimeout :: int where "DefaultTimeout = 60"

definition no_pagination :: Pagination where
  "no_pagination = \<lparr>PageNumber = 0, PageSize = 0\<rparr>"

text \<open>The polling loop of \<^verbatim>\<open>Client.WaitForDisk\<close>; each round uses up an interval of the timeout.\<close>

function WaitForDisk_loop ::
  "'w env \<Rightarrow> DescribeDisksArgs \<Rightarrow> string \<Rightarrow> int \<Rightarrow> ('w, error option) go" where
  "WaitForDisk_loop E args status timeout =
     bnd (DescribeDisks E args) (\<lambda>r. case r of
       Inl err \<Rightarrow> ret (Some err)
     | Inr (disks, _) \<Rightarrow> (case disks of
         [] \<Rightarrow> ret (Some (GetClientErrorFromString ''Not found''))
       | d # _ \<Rightarrow>
           if Disk_Status d = status then ret None
           else if timeout - DefaultWaitForInterval \<le> 0
           then ret (Some (GetClientErrorFromString ''Timeout''))
           else bnd (effect (env_Sleep E DefaultWaitForInterval)) (\<lambda>_.
                WaitForDisk_loop E args status (timeout - DefaultWaitForInterval))))"
  by pat_completeness auto
termination
  by (relation "measure (\<lambda>(E, args, status, timeout). nat timeout)")
     (auto simp: DefaultWaitForInterval_def)

declare WaitForDisk_loop.simps [simp del]

definition WaitForDisk ::
  "'w env \<Rightarrow> string \<Rightarrow> string \<Rightarrow> string \<Rightarrow> int \<Rightarrow> ('w, error option) go" where
  "WaitForDisk E regionId diskId status timeout =
     WaitForDisk_loop E
       \<lparr>DescribeDisks_RegionId = regionId, DescribeDisks_DiskIds = [diskId],
        DescribeDisks_InstanceId = '''', DescribeDisks_Pagination = no_pagination\<rparr>
       status (if timeout \<le> 0 then DefaultTimeout else timeout)"

definition DescribeRouteTables ::
  "'w env \<Rightarrow> DescribeRouteTablesArgs \<Rightarrow> ('w, error + RouteTableSetType list \<times> PaginationResult) go" where
  "DescribeRouteTables E args =
     call (invoke_DescribeRouteTables E
       (args\<lparr>DescribeRouteTables_Pagination := Validate (DescribeRouteTables_Pagination args)\<rparr>))"

definition CreateRouteEntry :: "'w env \<Rightarrow> RouteEntryArgs \<Rightarrow> ('w, error option) go" where
  "CreateRouteEntry E args = call (invoke_CreateRouteEntry E args)"

definition DeleteRouteEntry :: "'w env \<Rightarrow> RouteEntryArgs \<Rightarrow> ('w, error option) go" where
  "DeleteRouteEntry E args = call (invoke_DeleteRouteEntry E args)"

definition DescribeVSwitches ::
  "'w env \<Rightarrow> DescribeVSwitchesArgs \<Rightarrow> ('w, error + VSwitchSetType list \<times> PaginationResult) go" where
  "DescribeVSwitches E args =
     call (invoke_DescribeVSwitches E
       (args\<lparr>DescribeVSwitches_Pagination := Validate (DescribeVSwitches_Pagination args)\<rparr>))"

section \<open>Client methods of the SLB package\<close>

definition DescribeLoadBalancers :: "'w env \<Rightarrow> string \<Rightarrow> ('w, error + LoadBalancerType list) go" where
  "DescribeLoadBalancers E regionId = call (invoke_DescribeLoadBalancers E regionId)"

definition DescribeLoadBalancerAttribute :: "'w env \<Rightarrow> string \<Rightarrow> ('w, error + LoadBalancerType) go" where
  "DescribeLoadBalancerAttribute E loadBalancerId =
     call (invoke_DescribeLoadBalancerAttribute E loadBalancerId)"

definition CreateLoadBalancer :: "'w env \<Rightarrow> CreateLoadBalancerArgs \<Rightarrow> ('w, error option) go" where
  "CreateLoadBalancer E args = call (invoke_CreateLoadBalancer E args)"

definition DeleteLoadBalancer :: "'w env \<Rightarrow> string \<Rightarrow> ('w, error option) go" where
  "DeleteLoadBalancer E loadBalancerId = call (invoke_DeleteLoadBalancer E loadBalancerId)"

text \<open>
  The two listener queries return a pointer and an error: on an error the pointer is
  \<^verbatim>\<open>nil\<close>, here \<open>None\<close>. The pair is kept because the caller reads both.
\<close>

definition DescribeLoadBalancerTCPListenerAttribute ::
  "'w env \<Rightarrow> string \<Rightarrow> int \<Rightarrow> ('w, ListenerAttributeResponse option \<times> error option) go" where
  "DescribeLoadBalancerTCPListenerAttribute E loadBalancerId port =
     bnd (call (invoke_DescribeTCPListenerAttribute E loadBalancerId port)) (\<lambda>r. case r of
       Inl err \<Rightarrow> ret (None, Some err)
     | Inr response \<Rightarrow> ret (Some response, None))"

definition DescribeLoadBalancerUDPListenerAttribute ::
  "'w env \<Rightarrow> string \<Rightarrow> int \<Rightarrow> ('w, ListenerAttributeResponse option \<times> error option) go" where
  "DescribeLoadBalancerUDPListenerAttribute E loadBalancerId port =
     bnd (call (invoke_DescribeUDPListenerAttribute E loadBalancerId port)) (\<lambda>r. case r of
       Inl err \<Rightarrow> ret (None, Some err)
     | Inr response \<Rightarrow> ret (Some response, None))"

definition CreateLoadBalancerTCPListener :: "'w env \<Rightarrow> CreateListenerArgs \<Rightarrow> ('w, error option) go" where
  "CreateLoadBalancerTCPListener E args = call (invoke_CreateTCPListener E args)"

definition CreateLoadBalancerUDPListener :: "'w env \<Rightarrow> CreateListenerArgs \<Rightarrow> ('w, error option) go" where
  "CreateLoadBalancerUDPListener E args = call (invoke_CreateUDPListener E args)"

definition StartLoadBalancerListener :: "'w env \<Rightarrow> string \<Rightarrow> int \<Rightarrow> ('w, error option) go" where
  "StartLoadBalancerListener E loadBalancerId port = call (invoke_StartListener E loadBalancerId port)"

definition DeleteLoadBalancerListener :: "'w env \<Rightarrow> string \<Rightarrow> int \<Rightarrow> ('w, error option) go" where
  "DeleteLoadBalancerListener E loadBalancerId port = call (invoke_DeleteListener E loadBalancerId port)"

definition AddBackendServers :: "'w env \<Rightarrow> string \<Rightarrow> BackendServerType list \<Rightarrow> ('w, error option) go" where
  "AddBackendServers E loadBalancerId backendServers =
     call (invoke_AddBackendServers E loadBalancerId backendServers)"

definition RemoveBackendServers :: "'w env \<Rightarrow> string \<Rightarrow> string list \<Rightarrow> ('w, error option) go" where
  "RemoveBackendServers E loadBalancerId backendServers =
     call (invoke_RemoveBackendServers E loadBalancerId backendServers)"

lemmas client_defs =
  DescribeInstances_def DescribeDisks_def CreateDisk_def DeleteDisk_def AttachDisk_def
  DetachDisk_def DescribeRouteTables_def CreateRouteEntry_def DeleteRouteEntry_def
  DescribeVSwitches_def DescribeLoadBalancers_def DescribeLoadBalancerAttribute_def
  CreateLoadBalancer_def DeleteLoadBalancer_def DescribeLoadBalancerTCPListenerAttribute_def
  DescribeLoadBalancerUDPListenerAttribute_def CreateLoadBalancerTCPListener_def
  CreateLoadBalancerUDPListener_def StartLoadBalancerListener_def
  DeleteLoadBalancerListener_def AddBackendServers_def RemoveBackendServers_def

section \<open>Polling\<close>

text \<open>
  \<open>WaitForDisk\<close> returns (it never panics), and when it reports success the last answer of
  the cloud showed the wanted status.
\<close>

lemma WaitForDisk_loop_returns: "\<exists>r w'. WaitForDisk_loop E args status timeout w = (Ret r, w')"
proof (induction E args status timeout arbitrary: w rule: WaitForDisk_loop.induct)
  case (1 E args status timeout)
  obtain r w1 where c: "invoke_DescribeDisks E args w = (r, w1)" by fastforce
  show ?case
  proof (cases r)
    case (Inl e)
    with c show ?thesis
      by (subst WaitForDisk_loop.simps) (simp add: client_defs bnd_def call_def ret_def)
  next
    case (Inr p)
    obtain ds pg where p: "p = (ds, pg)" by fastforce
    show ?thesis
    proof (cases ds)
      case Nil
      with c Inr p show ?thesis
        by (subst WaitForDisk_loop.simps) (simp add: client_defs bnd_def call_def ret_def)
    next
      case (Cons d ds')
      with c Inr p "1.IH" show ?thesis
        by (subst WaitForDisk_loop.simps)
           (simp add: client_defs bnd_def call_def ret_def effect_def)
    qed
  qed
qed

lemma WaitForDisk_returns [returns_intros]: "returns (\<lambda>_. True) (WaitForDisk E regionId diskId status timeout)"
  unfolding returns_def WaitForDisk_def simp_thms by (intro allI WaitForDisk_loop_returns)

text \<open>Polling keeps what the query and the waiting keep.\<close>

lemma WaitForDisk_loop_keeps:
  assumes d: "\<And>args. keeps I (DescribeDisks E args)" and s: "\<And>t. keeps I (effect (env_Sleep E t))"
  shows "keeps I (WaitForDisk_loop E args status timeout)"
proof (induction "nat timeout" arbitrary: timeout rule: less_induct)
  case less
  have IH: "keeps I (WaitForDisk_loop E args status (timeout - DefaultWaitForInterval))"
    if "\<not> timeout - DefaultWaitForInterval \<le> 0"
    using that by (intro less) (simp add: DefaultWaitForInterval_def)
  show ?case
    by (subst WaitForDisk_loop.simps)
       (auto intro!: keeps_intros d s IH split: sum.split prod.split list.split)
qed

lemma WaitForDisk_keeps:
  assumes "\<And>args. keeps I (DescribeDisks E args)" and "\<And>t. keeps I (effect (env_Sleep E t))"
  shows "keeps I (WaitForDisk E regionId diskId status timeout)"
  unfolding WaitForDisk_def by (rule WaitForDisk_loop_keeps [OF assms])

end
