(* ===== verification/Provider.thy ===== *)
theory Provider
  imports Aliyun_Client
begin

text \<open>
  The provider object and how it comes to be: \<^verbatim>\<open>pkg/cloudprovider/provider.go\<close> (the
  registry of provider factories) and \<^verbatim>\<open>pkg/cloudprovider/providers/aliyun/aliyun.go\<close>
  (the provider's fields, read from the environment variables and completed from the
  metadata service).
\<close>

section \<open>The registry\<close>

type_synonym ('w, 'p) registry = "string \<rightharpoonup> ('w, 'p) go"

definition providers :: "('w, 'p) registry" where
  "providers = Map.empty"

definition RegisterProvider :: "string \<Rightarrow> ('w, 'p) go \<Rightarrow> ('w, 'p) registry \<Rightarrow> ('w, 'p) registry" where
  "RegisterProvider name p reg = reg(name \<mapsto> p)"

definition GetProvider :: "('w, 'p) registry \<Rightarrow> string \<Rightarrow> ('w, error + 'p) go" where
  "GetProvider reg name =
     (case reg name of
        Some p \<Rightarrow> bnd p (\<lambda>x. ret (Inr x))
      | None \<Rightarrow> ret (Inl (''No such provider: '' @ name)))"

section \<open>The provider\<close>

definition AliyunAnnotationPrefix :: string where
  "AliyunAnnotationPrefix = ''aliyun.archon.kubeup.com/''"

definition ProviderName :: string where "ProviderName = ''aliyun''"

definition NodeNameTypePrivateIP :: string where "NodeNameTypePrivateIP = ''private-ip''"
definition NodeNameTypeHostname :: string where "NodeNameTypeHostname = ''hostname''"

record AliyunProvider =
  p_accessKey :: string
  p_accessKeySecret :: string
  p_region :: string
  p_zone :: string
  p_vpcID :: string
  p_vrouterID :: string
  p_vswitch :: string
  p_routeTable :: string
  p_loadbalancer :: string
  p_instance :: string
  p_hostname :: string
  p_nodeNameType :: string

definition select_nodeNameType :: "string \<Rightarrow> string" where
  "select_nodeNameType s =
     (if s = NodeNameTypePrivateIP then NodeNameTypePrivateIP
      else if s = NodeNameTypeHostname then NodeNameTypeHostname
      else NodeNameTypePrivateIP)"

text \<open>The region, and whether the metadata service failed to give it.\<close>

definition or_region :: "'w env \<Rightarrow> string \<Rightarrow> ('w, string \<times> bool) go" where
  "or_region E region =
     (if region = ''''
      then bnd (call (env_Metadata E ''region-id'')) (\<lambda>r. case r of
             Inl _ \<Rightarrow> ret ('''', True)
           | Inr s \<Rightarrow> ret (s, False))
      else ret (region, False))"

text \<open>A field that is empty is asked of the metadata service; an error leaves it empty.\<close>

definition or_metadata :: "'w env \<Rightarrow> bool \<Rightarrow> string \<Rightarrow> string \<Rightarrow> ('w, string) go" where
  "or_metadata E metaFailed value key =
     (if value = '''' \<and> \<not> metaFailed
      then bnd (call (env_Metadata E key)) (\<lambda>r. case r of Inl _ \<Rightarrow> ret '''' | Inr s \<Rightarrow> ret s)
      else ret value)"

definition NewProvider :: "'w env \<Rightarrow> (string \<Rightarrow> string) \<Rightarrow> string \<Rightarrow> ('w, AliyunProvider) go" where
  "NewProvider E getenv hostname =
     (let p = \<lparr>p_accessKey = getenv ''ALIYUN_ACCESS_KEY'',
               p_accessKeySecret = getenv ''ALIYUN_ACCESS_KEY_SECRET'',
               p_region = getenv ''ALIYUN_REGION'',
               p_zone = getenv ''ALIYUN_ZONE'',
               p_vpcID = getenv ''ALIYUN_VPC'',
               p_vrouterID = getenv ''ALIYUN_ROUTER'',
               p_vswitch = getenv ''ALIYUN_VSWITCH'',
               p_routeTable = getenv ''ALIYUN_ROUTE_TABLE'',
               p_loadbalancer = '''',
               p_instance = getenv ''ALIYUN_INSTANCE'',
               p_hostname = hostname,
               p_nodeNameType = select_nodeNameType (getenv ''ALIYUN_NODE_NAME_TYPE'')\<rparr>
      in bnd (or_region E (p_region p)) (\<lambda>(region, metaFailed).
         bnd (or_metadata E metaFailed (p_instance p) ''instance-id'') (\<lambda>instanceId.
         bnd (or_metadata E metaFailed (p_vpcID p) ''vpc-id'') (\<lambda>vpcID.
         bnd (or_metadata E metaFailed (p_vswitch p) ''vswitch-id'') (\<lambda>vswitch.
         ret (p\<lparr>p_region := region, p_vpcID := vpcID, p_vswitch := vswitch,
                p_instance := instanceId\<rparr>))))))"

text \<open>\<^verbatim>\<open>init()\<close> of the package: what the registry holds when \<^verbatim>\<open>main\<close> starts.\<close>

definition registered :: "'w env \<Rightarrow> (string \<Rightarrow> string) \<Rightarrow> string \<Rightarrow> ('w, AliyunProvider) registry" where
  "registered E getenv hostname = RegisterProvider ''aliyun'' (NewProvider E getenv hostname) providers"

text \<open>
  The capability methods: which of the interfaces of the cloud-provider package the
  provider implements. \<open>Some p\<close> is \<^verbatim>\<open>p, true\<close>, \<open>None\<close> is \<^verbatim>\<open>nil, false\<close>.
\<close>

definition Clusters :: "AliyunProvider \<Rightarrow> AliyunProvider option" where "Clusters p = None"
definition Zones :: "AliyunProvider \<Rightarrow> AliyunProvider option" where "Zones p = Some p"
definition Instances :: "AliyunProvider \<Rightarrow> AliyunProvider option" where "Instances p = None"
definition Routes :: "AliyunProvider \<Rightarrow> AliyunProvider option" where "Routes p = Some p"
definition LoadBalancer :: "AliyunProvider \<Rightarrow> AliyunProvider option" where "LoadBalancer p = Some p"
definition Volume :: "AliyunProvider \<Rightarrow> AliyunProvider option" where "Volume p = Some p"

definition ScrubDNS :: "string list \<Rightarrow> string list \<Rightarrow> string list \<times> string list" where
  "ScrubDNS nameservers searches = ([], [])"

section \<open>What the registry and the constructor guarantee\<close>

lemma GetProvider_registered:
  "GetProvider (registered E getenv hostname) ''aliyun'' =
     bnd (NewProvider E getenv hostname) (\<lambda>p. ret (Inr p))"
  by (simp add: GetProvider_def registered_def RegisterProvider_def)

lemma GetProvider_unknown:
  "name \<noteq> ''aliyun'' \<Longrightarrow>
   GetProvider (registered E getenv hostname) name w = (Ret (Inl (''No such provider: '' @ name)), w)"
  by (simp add: GetProvider_def registered_def RegisterProvider_def providers_def ret_def)

lemma select_nodeNameType_cases:
  "select_nodeNameType s \<in> {NodeNameTypePrivateIP, NodeNameTypeHostname}"
  by (simp add: select_nodeNameType_def)

text \<open>The well-formedness of a provider: its node-name type is one of the two known ones.\<close>

definition wf_provider :: "AliyunProvider \<Rightarrow> bool" where
  "wf_provider p \<longleftrightarrow> p_nodeNameType p = NodeNameTypePrivateIP \<or> p_nodeNameType p = NodeNameTypeHostname"

lemma or_metadata_returns: "\<exists>s w'. or_metadata E b v k w = (Ret s, w')"
  by (cases "env_Metadata E k w") (auto simp: or_metadata_def bnd_def call_def ret_def split: sum.splits)

lemma or_region_returns: "\<exists>s b w'. or_region E r w = (Ret (s, b), w')"
  by (cases "env_Metadata E ''region-id'' w") (auto simp: or_region_def bnd_def call_def ret_def split: sum.splits)

lemma or_metadata_set [simp]: "v \<noteq> '''' \<Longrightarrow> or_metadata E b v k = ret v"
  by (simp add: or_metadata_def)

lemma or_metadata_failed [simp]: "or_metadata E True v k = ret v"
  by (simp add: or_metadata_def)

text \<open>
  The provider that \<^verbatim>\<open>NewProvider\<close> makes: a variable of the environment that is set decides
  its field; the metadata service is asked for the others, and not any more once it failed.
\<close>

lemma NewProvider_result:
  obtains p w' where "NewProvider E getenv hostname w = (Ret p, w')" and "wf_provider p"
    and "p_accessKey p = getenv ''ALIYUN_ACCESS_KEY''" and "p_accessKeySecret p = getenv ''ALIYUN_ACCESS_KEY_SECRET''"
    and "p_vrouterID p = getenv ''ALIYUN_ROUTER''" and "p_routeTable p = getenv ''ALIYUN_ROUTE_TABLE''"
    and "p_zone p = getenv ''ALIYUN_ZONE''" and "p_hostname p = hostname"
    and "getenv ''ALIYUN_REGION'' \<noteq> '''' \<Longrightarrow> p_region p = getenv ''ALIYUN_REGION''"
    and "getenv ''ALIYUN_INSTANCE'' \<noteq> '''' \<Longrightarrow> p_instance p = getenv ''ALIYUN_INSTANCE''"
    and "getenv ''ALIYUN_VPC'' \<noteq> '''' \<Longrightarrow> p_vpcID p = getenv ''ALIYUN_VPC''"
    and "getenv ''ALIYUN_VSWITCH'' \<noteq> '''' \<Longrightarrow> p_vswitch p = getenv ''ALIYUN_VSWITCH''"
proof -
  let ?env = "\<lambda>x. getenv (''ALIYUN_'' @ x)"
  obtain region failed w1 where r: "or_region E (?env ''REGION'') w = (Ret (region, failed), w1)"
    using or_region_returns [of E] by fastforce
  obtain i w2 where i: "or_metadata E failed (?env ''INSTANCE'') ''instance-id'' w1 = (Ret i, w2)"
    using or_metadata_returns [of E] by fastforce
  obtain v w3 where v: "or_metadata E failed (?env ''VPC'') ''vpc-id'' w2 = (Ret v, w3)"
    using or_metadata_returns [of E] by fastforce
  obtain s w4 where s: "or_metadata E failed (?env ''VSWITCH'') ''vswitch-id'' w3 = (Ret s, w4)"
    using or_metadata_returns [of E] by fastforce
  have set: "x \<noteq> '''' \<Longrightarrow> or_metadata E b x k u = (Ret y, u') \<Longrightarrow> y = x" for b x k u y u'
    by (simp add: ret_def)
  have "x \<noteq> '''' \<Longrightarrow> or_region E x u = (Ret (y, b), u') \<Longrightarrow> y = x" for x b u y u'
    by (simp add: or_region_def ret_def)
  from this [OF _ r] set [OF _ i] set [OF _ v] set [OF _ s]
    select_nodeNameType_cases [of "?env ''NODE_NAME_TYPE''"] r i v s
  show thesis
    by (intro that) (auto simp: NewProvider_def Let_def bnd_def ret_def wf_provider_def)
qed

lemma NewProvider_no_metadata:
  assumes "getenv ''ALIYUN_REGION'' = ''''" and "env_Metadata E ''region-id'' w = (Inl err, w')"
  shows "\<exists>p. NewProvider E getenv hostname w = (Ret p, w') \<and> p_region p = '''' \<and>
    p_instance p = getenv ''ALIYUN_INSTANCE'' \<and> p_vpcID p = getenv ''ALIYUN_VPC'' \<and> p_vswitch p = getenv ''ALIYUN_VSWITCH''"
  using assms by (simp add: NewProvider_def or_region_def Let_def bnd_def call_def ret_def)

lemma NewProvider_wf [returns_intros]: "returns wf_provider (NewProvider E getenv hostname)"
  unfolding returns_def using NewProvider_result by metis

end
