(* ===== verification/Instances.thy ===== *)
theory Instances
  imports Provider
begin

text \<open>
  Finding the cloud instance behind a Kubernetes node:
  \<^verbatim>\<open>pkg/cloudprovider/providers/aliyun/utils.go\<close> and \<^verbatim>\<open>pkg/util/node.go\<close>.
\<close>

section \<open>Nodes\<close>

record NodeAddress =
  Addr_Type :: string
  Addr_Address :: string

record Node =
  Node_Name :: string
  Node_Addresses :: "NodeAddress list"

definition NodeInternalIP :: string where "NodeInternalIP = ''InternalIP''"

text \<open>\<^verbatim>\<open>GetNodePrivateIPs\<close>; the argument is a pointer that may be \<^verbatim>\<open>nil\<close>.\<close>

fun collect_private_ips :: "NodeAddress list \<Rightarrow> string list \<Rightarrow> string list" where
  "collect_private_ips [] ips = ips"
| "collect_private_ips (addr # addrs) ips =
     (if Addr_Type addr = NodeInternalIP then collect_private_ips addrs (ips @ [Addr_Address addr])
      else collect_private_ips addrs ips)"

definition GetNodePrivateIPs :: "Node option \<Rightarrow> string list" where
  "GetNodePrivateIPs n = (case n of None \<Rightarrow> [] | Some n \<Rightarrow> collect_private_ips (Node_Addresses n) [])"

section \<open>Instances\<close>

definition authorized :: "AliyunProvider \<Rightarrow> bool" where
  "authorized p \<longleftrightarrow> p_accessKey p \<noteq> '''' \<and> p_accessKeySecret p \<noteq> ''''"

definition isLocal :: "AliyunProvider \<Rightarrow> string \<Rightarrow> bool" where
  "isLocal p node \<longleftrightarrow> node = ''localhost'' \<or> node = p_hostname p"

definition getInstances :: "'w env \<Rightarrow> AliyunProvider \<Rightarrow> ('w, error + InstanceAttributesType list) go" where
  "getInstances E p =
     tryE (DescribeInstances E \<lparr>DescribeInstances_RegionId = p_region p,
                                DescribeInstances_VpcId = p_vpcID p,
                                DescribeInstances_Pagination = no_pagination\<rparr>)
       (\<lambda>(instances, _). ret (Inr instances))"

definition mapInstanceToNodeName :: "AliyunProvider \<Rightarrow> InstanceAttributesType \<Rightarrow> ('w, string) go" where
  "mapInstanceToNodeName p i =
     (if p_nodeNameType p = NodeNameTypePrivateIP
      then (case PrivateIpAddress i of
              [] \<Rightarrow> panic ''runtime error: index out of range''
            | ip # _ \<Rightarrow> ret ip)
      else if p_nodeNameType p = NodeNameTypeHostname then ret (HostName i)
      else ret (HostName i))"

fun filter_instances ::
  "InstanceAttributesType list \<Rightarrow> (InstanceAttributesType \<Rightarrow> bool) \<Rightarrow> InstanceAttributesType list" where
  "filter_instances [] f = []"
| "filter_instances (i # is) f = (if f i then i # filter_instances is f else filter_instances is f)"

definition byHostname :: "string \<Rightarrow> InstanceAttributesType \<Rightarrow> bool" where
  "byHostname hostname i \<longleftrightarrow> HostName i = hostname"

fun any_ip :: "string \<Rightarrow> string list \<Rightarrow> bool" where
  "any_ip ip [] = False"
| "any_ip ip (s # ss) = (if s = ip then True else any_ip ip ss)"

definition byPrivateIP :: "string \<Rightarrow> InstanceAttributesType \<Rightarrow> bool" where
  "byPrivateIP ip i \<longleftrightarrow> any_ip ip (PrivateIpAddress i)"

definition byInstanceId :: "string \<Rightarrow> InstanceAttributesType \<Rightarrow> bool" where
  "byInstanceId iid i \<longleftrightarrow> InstanceId i = iid"

definition byEmpty :: "string \<Rightarrow> InstanceAttributesType \<Rightarrow> bool" where
  "byEmpty s i \<longleftrightarrow> False"

definition getInstanceByNodeName ::
  "'w env \<Rightarrow> AliyunProvider \<Rightarrow> string \<Rightarrow> ('w, error + InstanceAttributesType) go" where
  "getInstanceByNodeName E p nodeName =
     tryE (getInstances E p) (\<lambda>all.
       let instances =
             (if p_nodeNameType p = NodeNameTypePrivateIP then filter_instances all (byPrivateIP nodeName)
              else if p_nodeNameType p = NodeNameTypeHostname then filter_instances all (byHostname nodeName)
              else [])
       in case instances of
            [] \<Rightarrow> ret (Inl (''Unable to get instance of node:'' @ nodeName))
          | [i] \<Rightarrow> ret (Inr i)
          | _ \<Rightarrow> ret (Inl (''Multiple instance with the same node name:'' @ nodeName)))"

text \<open>
  The loop of \<^verbatim>\<open>getInstancesByNodeNames\<close>. As in the source, the filtered list replaces
  the list of all instances and the next name is looked up in it.
\<close>

fun pick_instances ::
  "(string \<Rightarrow> InstanceAttributesType \<Rightarrow> bool) \<Rightarrow> InstanceAttributesType list \<Rightarrow> string list \<Rightarrow>
   InstanceAttributesType list \<Rightarrow> error + InstanceAttributesType list" where
  "pick_instances pred instances [] results = Inr results"
| "pick_instances pred instances (nodeName # nodeNames) results =
     (let instances' = filter_instances instances (pred nodeName)
      in case instances' of
           [] \<Rightarrow> Inl (''Unable to get instance of node:'' @ nodeName)
         | [i] \<Rightarrow> pick_instances pred instances' nodeNames (results @ [i])
         | _ \<Rightarrow> Inl (''Multiple instance with the same node name:'' @ nodeName))"

definition by_node_name :: "AliyunProvider \<Rightarrow> string \<Rightarrow> InstanceAttributesType \<Rightarrow> bool" where
  "by_node_name p =
     (if p_nodeNameType p = NodeNameTypePrivateIP then byPrivateIP
      else if p_nodeNameType p = NodeNameTypeHostname then byHostname
      else byEmpty)"

definition getInstancesByNodeNames ::
  "'w env \<Rightarrow> AliyunProvider \<Rightarrow> string list \<Rightarrow> ('w, error + InstanceAttributesType list) go" where
  "getInstancesByNodeNames E p nodeNames =
     tryE (getInstances E p) (\<lambda>instances. ret (pick_instances (by_node_name p) instances nodeNames []))"

definition getInstancesByNodes ::
  "'w env \<Rightarrow> AliyunProvider \<Rightarrow> Node list \<Rightarrow> ('w, error + InstanceAttributesType list) go" where
  "getInstancesByNodes E p nodes = getInstancesByNodeNames E p (map Node_Name nodes)"

section \<open>Laws\<close>

lemma filter_instances_filter [simp]: "filter_instances is f = filter f is"
  by (induction "is") auto

lemma any_ip_iff [simp]: "any_ip ip ss \<longleftrightarrow> ip \<in> set ss"
  by (induction ss) auto

lemma collect_private_ips_eq:
  "collect_private_ips addrs ips = ips @ map Addr_Address (filter (\<lambda>a. Addr_Type a = NodeInternalIP) addrs)"
  by (induction addrs arbitrary: ips) auto

lemma NodeNameTypes_distinct [simp]: "NodeNameTypeHostname \<noteq> NodeNameTypePrivateIP"
  by (simp add: NodeNameTypeHostname_def NodeNameTypePrivateIP_def)

text \<open>
  A lookup is one query and a search for the only match; for both forms of node names the
  search is \<open>filter (by_node_name p nodeName)\<close>, and so is the empty search of an unknown form.
\<close>

definition the_match :: "(InstanceAttributesType \<Rightarrow> bool) \<Rightarrow> string \<Rightarrow> InstanceAttributesType list \<Rightarrow>
  error + InstanceAttributesType" where
  "the_match f nodeName all =
     (case filter f all of
        [] \<Rightarrow> Inl (''Unable to get instance of node:'' @ nodeName)
      | [i] \<Rightarrow> Inr i
      | _ \<Rightarrow> Inl (''Multiple instance with the same node name:'' @ nodeName))"

lemma getInstanceByNodeName_eq:
  "getInstanceByNodeName E p nodeName =
     tryE (getInstances E p) (\<lambda>all. ret (the_match (by_node_name p nodeName) nodeName all))"
  unfolding getInstanceByNodeName_def the_match_def by_node_name_def byEmpty_def Let_def
  by (intro arg_cong [where f = "tryE _"] ext) (auto split: list.splits)

lemma the_match_Inr: "the_match f n all = Inr i \<longleftrightarrow> filter f all = [i]"
  by (auto simp: the_match_def split: list.splits)

lemma getInstances_returns: "\<exists>r w'. getInstances E p w = (Ret r, w')"
  by (auto simp: getInstances_def client_defs go_defs split: prod.splits sum.splits)

lemma getInstanceByNodeName_returns: "\<exists>r w'. getInstanceByNodeName E p n w = (Ret r, w')"
  using getInstances_returns [of E p w]
  by (auto simp: getInstanceByNodeName_eq go_defs split: prod.splits sum.splits)

section \<open>Node names\<close>

text \<open>
  The contract between the two directions of the naming scheme: a node that is named after
  an instance is found by that name. The private-address and the host-name scheme both
  provide it.
\<close>

locale node_naming =
  fixes name_of :: "InstanceAttributesType \<Rightarrow> string option"
    and matches :: "string \<Rightarrow> InstanceAttributesType \<Rightarrow> bool"
  assumes name_matches: "name_of i = Some n \<Longrightarrow> matches n i"
begin

lemma named_found:
  assumes "i \<in> set all" and "name_of i = Some n"
    and "distinct all" and "\<forall>j \<in> set all. matches n j \<longrightarrow> j = i"
  shows "the_match (matches n) n all = Inr i"
proof -
  have m: "matches n i" using assms(2) by (rule name_matches)
  from assms(3,4) have "length (filter (matches n) all) \<le> 1"
    by (auto simp: distinct_card [symmetric] intro!: card_le_Suc0_iff_eq [THEN iffD2])
  moreover have "i \<in> set (filter (matches n) all)" using assms(1) m by simp
  ultimately have "filter (matches n) all = [i]"
    by (cases "filter (matches n) all") auto
  then show ?thesis by (simp add: the_match_Inr)
qed

lemma named_not_missing:
  assumes "i \<in> set all" and "name_of i = Some n"
  shows "the_match (matches n) n all \<noteq> Inl (''Unable to get instance of node:'' @ n)"
proof -
  have "i \<in> set (filter (matches n) all)" using assms name_matches by simp
  then obtain x xs where "filter (matches n) all = x # xs"
    by (cases "filter (matches n) all") auto
  then show ?thesis by (cases xs) (simp_all add: the_match_def)
qed

end

definition name_by_ip :: "InstanceAttributesType \<Rightarrow> string option" where
  "name_by_ip i = (case PrivateIpAddress i of [] \<Rightarrow> None | ip # _ \<Rightarrow> Some ip)"

definition name_by_host :: "InstanceAttributesType \<Rightarrow> string option" where
  "name_by_host i = Some (HostName i)"

definition node_name_of :: "AliyunProvider \<Rightarrow> InstanceAttributesType \<Rightarrow> string option" where
  "node_name_of p = (if p_nodeNameType p = NodeNameTypePrivateIP then name_by_ip else name_by_host)"

interpretation by_ip: node_naming name_by_ip byPrivateIP
  by unfold_locales (auto simp: name_by_ip_def byPrivateIP_def split: list.splits)

interpretation by_host: node_naming name_by_host byHostname
  by unfold_locales (auto simp: name_by_host_def byHostname_def)

lemma mapInstanceToNodeName_eq:
  "mapInstanceToNodeName p i =
     (case node_name_of p i of
        None \<Rightarrow> panic ''runtime error: index out of range''
      | Some n \<Rightarrow> ret n)"
  by (auto simp: mapInstanceToNodeName_def node_name_of_def name_by_ip_def name_by_host_def
           split: list.splits)

lemma node_name_found:
  assumes "wf_provider p" and "i \<in> set all" and "node_name_of p i = Some n"
    and "distinct all" and "\<forall>j \<in> set all. by_node_name p n j \<longrightarrow> j = i"
  shows "the_match (by_node_name p n) n all = Inr i"
  using assms by_ip.named_found by_host.named_found
  by (auto simp: wf_provider_def by_node_name_def node_name_of_def)

section \<open>Several nodes at once\<close>

text \<open>
  What the loop computes: since every round searches the survivors of the round before,
  all names must belong to the one instance the first name selects.
\<close>

lemma pick_instances_Inr:
  "pick_instances pred all ns results = Inr rs \<Longrightarrow> length all = 1 \<Longrightarrow>
   rs = results @ replicate (length ns) (hd all) \<and> (\<forall>n \<in> set ns. pred n (hd all))"
proof (induction pred all ns results rule: pick_instances.induct)
  case (1 pred instances results)
  then show ?case by simp
next
  case (2 pred instances n ns results)
  then obtain i where i: "instances = [i]"
    by (auto simp: length_Suc_conv)
  with "2.prems" have b: "pred n i" by (auto split: if_splits)
  with i "2.prems"(1) have "pick_instances pred [i] ns (results @ [i]) = Inr rs" by (simp add: Let_def)
  with "2.IH" i b show ?case by (auto simp: replicate_app_Cons_same)
qed

lemma pick_instances_first:
  assumes "pick_instances pred all (n # ns) [] = Inr rs"
  shows "\<exists>i. filter (pred n) all = [i] \<and> rs = replicate (Suc (length ns)) i \<and> (\<forall>m \<in> set (n # ns). pred m i)"
proof -
  from assms obtain i where i: "filter (pred n) all = [i]"
    and r: "pick_instances pred [i] ns [i] = Inr rs"
    by (auto simp: Let_def split: list.splits)
  have "pred n i" using i by (metis filter_eq_ConsD list.set_intros(1) mem_Collect_eq set_filter)
  with i pick_instances_Inr [OF r] show ?thesis by auto
qed

lemma pick_instances_no_names [simp]: "pick_instances pred all [] [] = Inr []"
  by simp

text \<open>For at most one name the loop is the single lookup.\<close>

lemma pick_instances_one:
  "pick_instances pred all [n] [] = (case the_match (pred n) n all of Inl e \<Rightarrow> Inl e | Inr i \<Rightarrow> Inr [i])"
  by (auto simp: the_match_def split: list.splits)

end
