(* ===== verification/Vpc_Routes.thy ===== *)
theory Vpc_Routes
  imports Instances
begin

text \<open>
  VPC routes and the zone: \<^verbatim>\<open>routes.go\<close> and \<^verbatim>\<open>zones.go\<close> of the provider. A route sends
  the pods' addresses of a node to the node's instance. The \<^verbatim>\<open>Name\<close> of a route is neither
  read nor set by the provider, so the record leaves it out.
\<close>

record Route =
  TargetNode :: string
  DestinationCIDR :: string

record Zone =
  FailureDomain :: string
  Region :: string

definition NextHopInstance :: string where "NextHopInstance = ''Instance''"

text \<open>
  The inner loop of \<^verbatim>\<open>ListRoutes\<close>. The node name of an instance may panic, so the loop is
  a computation.
\<close>

fun list_entries ::
  "AliyunProvider \<Rightarrow> InstanceAttributesType list \<Rightarrow> RouteEntrySetType list \<Rightarrow> Route list \<Rightarrow> ('w, Route list) go" where
  "list_entries p instances [] routes = ret routes"
| "list_entries p instances (r # rs) routes =
     (if NextHopType r \<noteq> NextHopInstance then list_entries p instances rs routes
      else (case filter_instances instances (byInstanceId (RouteEntry_InstanceId r)) of
              [i] \<Rightarrow> bnd (mapInstanceToNodeName p i) (\<lambda>node.
                       list_entries p instances rs
                         (routes @ [\<lparr>TargetNode = node, DestinationCIDR = DestinationCidrBlock r\<rparr>]))
            | _ \<Rightarrow> list_entries p instances rs routes))"

fun list_tables ::
  "AliyunProvider \<Rightarrow> InstanceAttributesType list \<Rightarrow> RouteTableSetType list \<Rightarrow> Route list \<Rightarrow> ('w, Route list) go" where
  "list_tables p instances [] routes = ret routes"
| "list_tables p instances (t # ts) routes =
     bnd (list_entries p instances (RouteEntry t) routes) (list_tables p instances ts)"

definition ListRoutes :: "'w env \<Rightarrow> AliyunProvider \<Rightarrow> string \<Rightarrow> ('w, error + Route list) go" where
  "ListRoutes E p clusterName =
     tryE (getInstances E p) (\<lambda>instances.
     bnd (DescribeRouteTables E \<lparr>DescribeRouteTables_VRouterId = p_vrouterID p,
                                 DescribeRouteTables_RouteTableId = p_routeTable p,
                                 DescribeRouteTables_Pagination = \<lparr>PageNumber = 0, PageSize = 10\<rparr>\<rparr>) (\<lambda>r. case r of
       Inl err \<Rightarrow> ret (Inl (''Unable list routes:'' @ err))
     | Inr (tables, _) \<Rightarrow> bnd (list_tables p instances tables []) (\<lambda>routes. ret (Inr routes))))"

definition route_args :: "AliyunProvider \<Rightarrow> Route \<Rightarrow> InstanceAttributesType \<Rightarrow> RouteEntryArgs" where
  "route_args p route i =
     \<lparr>Args_RouteTableId = p_routeTable p, Args_DestinationCidrBlock = DestinationCIDR route,
      NextHopId = InstanceId i\<rparr>"

definition DeleteRoute :: "'w env \<Rightarrow> AliyunProvider \<Rightarrow> string \<Rightarrow> Route \<Rightarrow> ('w, error option) go" where
  "DeleteRoute E p clusterName route =
     bnd (getInstanceByNodeName E p (TargetNode route)) (\<lambda>r. case r of
       Inl err \<Rightarrow> ret (Some err)
     | Inr i \<Rightarrow> DeleteRouteEntry E (route_args p route i))"

definition CreateRoute :: "'w env \<Rightarrow> AliyunProvider \<Rightarrow> string \<Rightarrow> string \<Rightarrow> Route \<Rightarrow> ('w, error option) go" where
  "CreateRoute E p clusterName nameHint route =
     bnd (getInstanceByNodeName E p (TargetNode route)) (\<lambda>r. case r of
       Inl err \<Rightarrow> ret (Some err)
     | Inr i \<Rightarrow> CreateRouteEntry E (route_args p route i))"

text \<open>
  \<^verbatim>\<open>GetZone\<close>; a missing switch is reported with the nil error printed.
\<close>

definition GetZone :: "'w env \<Rightarrow> AliyunProvider \<Rightarrow> ('w, error + Zone) go" where
  "GetZone E p =
     bnd (DescribeVSwitches E \<lparr>DescribeVSwitches_VpcId = p_vpcID p, DescribeVSwitches_VSwitchId = p_vswitch p,
                               DescribeVSwitches_Pagination = \<lparr>PageNumber = 0, PageSize = 10\<rparr>\<rparr>) (\<lambda>r. case r of
       Inl err \<Rightarrow> ret (Inl (sprintf ''Unable to get zone: %v'' [err]))
     | Inr (vswitches, _) \<Rightarrow> (case vswitches of
         [] \<Rightarrow> ret (Inl (sprintf ''Unable to get zone: %v'' [''<nil>'']))
       | vs # _ \<Rightarrow> ret (Inr \<lparr>FailureDomain = ZoneId vs, Region = p_region p\<rparr>)))"

end
