(* ===== verification/Route_Sync.thy ===== *)
theory Route_Sync
  imports Vpc_Routes
begin

text \<open>
  The routes as an abstract store. The locale \<open>routes_provider\<close> is the interface
  \<^verbatim>\<open>cloudprovider.Routes\<close> with its contract: a set of routes that can be listed, and to
  which a route can be added and from which one can be removed. The provider implements it
  on a cloud with the documented behaviour (\<open>route_contract\<close>), as long as the instances of
  the network have distinct identifiers and one node name each.
\<close>

section \<open>The interface\<close>

locale routes_provider =
  fixes invar :: "'w \<Rightarrow> bool"
    and routes_of :: "'w \<Rightarrow> Route set"
    and list_routes :: "('w, error + Route list) go"
    and create_route :: "string \<Rightarrow> Route \<Rightarrow> ('w, error option) go"
    and delete_route :: "Route \<Rightarrow> ('w, error option) go"
  assumes list_law: "invar w \<Longrightarrow> list_routes w = (listed, w') \<Longrightarrow>
      invar w' \<and> routes_of w' = routes_of w \<and> (\<exists>x. listed = Ret x) \<and> (\<forall>rs. listed = Ret (Inr rs) \<longrightarrow> set rs = routes_of w)"
    and create_law: "invar w \<Longrightarrow> create_route hint route w = (r, w') \<Longrightarrow>
      invar w' \<and> ((\<exists>e. r = Ret (Some e)) \<and> routes_of w' = routes_of w \<or>
                  r = Ret None \<and> routes_of w' = insert route (routes_of w))"
    and delete_law: "invar w \<Longrightarrow> delete_route route w = (r, w') \<Longrightarrow>
      invar w' \<and> ((\<exists>e. r = Ret (Some e)) \<and> routes_of w' = routes_of w \<or>
                  r = Ret None \<and> routes_of w' = routes_of w - {route})"
begin

lemma create_then_list:
  assumes "invar w" and "create_route hint route w = (Ret None, wi)" and "list_routes wi = (Ret (Inr rs), w')"
  shows "set rs = insert route (routes_of w)"
  using create_law [OF assms(1,2)] list_law [OF _ assms(3)] by auto

lemma delete_then_list:
  assumes "invar w" and "delete_route route w = (Ret None, wi)" and "list_routes wi = (Ret (Inr rs), w')"
  shows "set rs = routes_of w - {route}"
  using delete_law [OF assms(1,2)] list_law [OF _ assms(3)] by auto

end

section \<open>The cloud side\<close>

type_synonym 'w entries_view = "'w \<Rightarrow> RouteEntrySetType list"
type_synonym 'w inventory_view = "'w \<Rightarrow> InstanceAttributesType list"

definition describes_inventory :: "'w env \<Rightarrow> 'w entries_view \<Rightarrow> 'w inventory_view \<Rightarrow> bool" where
  "describes_inventory E rts ins \<longleftrightarrow>
     (\<forall>args w r w'. invoke_DescribeInstances E args w = (r, w') \<longrightarrow>
        rts w' = rts w \<and> ins w' = ins w \<and> (\<forall>is pg. r = Inr (is, pg) \<longrightarrow> is = ins w))"

definition describes_routes :: "'w env \<Rightarrow> 'w entries_view \<Rightarrow> 'w inventory_view \<Rightarrow> bool" where
  "describes_routes E rts ins \<longleftrightarrow>
     (\<forall>args w r w'. invoke_DescribeRouteTables E args w = (r, w') \<longrightarrow>
        rts w' = rts w \<and> ins w' = ins w \<and> (\<forall>ts pg. r = Inr (ts, pg) \<longrightarrow> concat (map RouteEntry ts) = rts w))"

definition changes_routes :: "'w env \<Rightarrow> 'w entries_view \<Rightarrow> 'w inventory_view \<Rightarrow> bool" where
  "changes_routes E rts ins \<longleftrightarrow>
     (\<forall>args w r w'. invoke_CreateRouteEntry E args w = (r, w') \<longrightarrow>
        ins w' = ins w \<and>
        rts w' = (case r of
           Some _ \<Rightarrow> rts w
         | None \<Rightarrow> rts w @ [\<lparr>DestinationCidrBlock = Args_DestinationCidrBlock args, NextHopType = NextHopInstance,
                               RouteEntry_InstanceId = NextHopId args\<rparr>])) \<and>
     (\<forall>args w r w'. invoke_DeleteRouteEntry E args w = (r, w') \<longrightarrow>
        ins w' = ins w \<and>
        rts w' = (case r of
           Some _ \<Rightarrow> rts w
         | None \<Rightarrow> filter (\<lambda>e. \<not> (DestinationCidrBlock e = Args_DestinationCidrBlock args \<and>
                                  RouteEntry_InstanceId e = NextHopId args)) (rts w)))"

definition route_contract :: "'w env \<Rightarrow> 'w entries_view \<Rightarrow> 'w inventory_view \<Rightarrow> bool" where
  "route_contract E rts ins \<longleftrightarrow>
     describes_inventory E rts ins \<and> describes_routes E rts ins \<and> changes_routes E rts ins"

text \<open>Every instance has one identifier of its own and answers to one node name.\<close>

definition wf_inventory :: "AliyunProvider \<Rightarrow> InstanceAttributesType list \<Rightarrow> bool" where
  "wf_inventory p all \<longleftrightarrow>
     distinct (map InstanceId all) \<and>
     (\<forall>i \<in> set all. node_name_of p i \<noteq> None \<and> (\<forall>n. by_node_name p n i \<longrightarrow> node_name_of p i = Some n))"

text \<open>The route an entry of the table stands for.\<close>

definition route_of :: "AliyunProvider \<Rightarrow> InstanceAttributesType list \<Rightarrow> RouteEntrySetType \<Rightarrow> Route option" where
  "route_of p all e =
     (if NextHopType e \<noteq> NextHopInstance then None
      else (case filter (\<lambda>i. InstanceId i = RouteEntry_InstanceId e) all of
              [i] \<Rightarrow> map_option (\<lambda>n. \<lparr>TargetNode = n, DestinationCIDR = DestinationCidrBlock e\<rparr>) (node_name_of p i)
            | _ \<Rightarrow> None))"

definition routes_at :: "AliyunProvider \<Rightarrow> 'w entries_view \<Rightarrow> 'w inventory_view \<Rightarrow> 'w \<Rightarrow> Route set" where
  "routes_at p rts ins w = {route. \<exists>e \<in> set (rts w). route_of p (ins w) e = Some route}"

definition route_invar :: "'w env \<Rightarrow> AliyunProvider \<Rightarrow> 'w entries_view \<Rightarrow> 'w inventory_view \<Rightarrow> 'w \<Rightarrow> bool" where
  "route_invar E p rts ins w \<longleftrightarrow> route_contract E rts ins \<and> wf_provider p \<and> wf_inventory p (ins w)"

section \<open>Listing\<close>

lemma list_entries_named:
  assumes "\<forall>i \<in> set all. node_name_of p i \<noteq> None"
  shows "list_entries p all es routes = ret (routes @ List.map_filter (route_of p all) es)"
proof (induction es arbitrary: routes)
  case Nil
  then show ?case by (simp add: List.map_filter_simps)
next
  case (Cons e es)
  let ?f = "filter (\<lambda>i. InstanceId i = RouteEntry_InstanceId e) all"
  have sel: "filter (byInstanceId (RouteEntry_InstanceId e)) all = ?f"
    by (simp add: byInstanceId_def [abs_def])
  consider (one) i where "?f = [i]" | (other) "\<And>i. ?f \<noteq> [i]" by blast
  then show ?case
  proof cases
    case (one i)
    then have "i \<in> set ?f" by simp
    then have "i \<in> set all" by simp
    with assms obtain n where "node_name_of p i = Some n" by blast
    with one sel Cons show ?thesis
      by (simp add: route_of_def mapInstanceToNodeName_eq List.map_filter_simps)
  next
    case other
    then have none: "route_of p all e = None"
      and step: "list_entries p all (e # es) routes = list_entries p all es routes"
      using sel by (auto simp: route_of_def split: list.split)
    show ?thesis unfolding step Cons by (simp add: List.map_filter_simps none)
  qed
qed

lemma list_tables_named:
  assumes "\<forall>i \<in> set all. node_name_of p i \<noteq> None"
  shows "list_tables p all ts routes = ret (routes @ List.map_filter (route_of p all) (concat (map RouteEntry ts)))"
  by (induction ts arbitrary: routes)
     (simp_all add: list_entries_named [OF assms] List.map_filter_def)

lemma set_map_filter: "set (List.map_filter f xs) = {y. \<exists>x \<in> set xs. f x = Some y}"
  by (induction xs) (auto simp: List.map_filter_simps split: option.splits)

lemma getInstances_inventory:
  assumes "describes_inventory E rts ins" and "getInstances E p w = (r, w')"
  shows "rts w' = rts w \<and> ins w' = ins w \<and> (\<exists>x. r = Ret x) \<and> (\<forall>is. r = Ret (Inr is) \<longrightarrow> is = ins w)"
proof -
  let ?args = "\<lparr>DescribeInstances_RegionId = p_region p, DescribeInstances_VpcId = p_vpcID p,
    DescribeInstances_Pagination = Validate no_pagination\<rparr>"
  obtain x w1 where c: "invoke_DescribeInstances E ?args w = (x, w1)" by fastforce
  with assms(1) have v: "rts w1 = rts w" "ins w1 = ins w" "\<forall>is pg. x = Inr (is, pg) \<longrightarrow> is = ins w"
    unfolding describes_inventory_def by blast+
  from assms(2) c have "w' = w1" and "r = Ret (case x of Inl e \<Rightarrow> Inl e | Inr (is, pg) \<Rightarrow> Inr is)"
    by (auto simp: getInstances_def client_defs go_defs split: sum.splits)
  with v show ?thesis by (auto split: sum.splits)
qed

lemma ListRoutes_law:
  assumes inv: "route_invar E p rts ins w" and run: "ListRoutes E p c w = (r, w')"
  shows "route_invar E p rts ins w' \<and> routes_at p rts ins w' = routes_at p rts ins w \<and>
    (\<exists>x. r = Ret x) \<and> (\<forall>rs. r = Ret (Inr rs) \<longrightarrow> set rs = routes_at p rts ins w)"
proof -
  from inv have di: "describes_inventory E rts ins" and dr: "describes_routes E rts ins"
    and wfi: "wf_inventory p (ins w)"
    by (simp_all add: route_invar_def route_contract_def)
  obtain ri w1 where g: "getInstances E p w = (Ret ri, w1)" using getInstances_returns [of E p w] by blast
  note gi = getInstances_inventory [OF di g]
  show ?thesis
  proof (cases ri)
    case (Inl e)
    with g run gi inv show ?thesis
      by (auto simp: ListRoutes_def tryE_Inl route_invar_def routes_at_def)
  next
    case (Inr all)
    with gi have all: "all = ins w" by simp
    let ?args = "\<lparr>DescribeRouteTables_VRouterId = p_vrouterID p, DescribeRouteTables_RouteTableId = p_routeTable p,
      DescribeRouteTables_Pagination = Validate \<lparr>PageNumber = 0, PageSize = 10\<rparr>\<rparr>"
    obtain x w2 where t: "invoke_DescribeRouteTables E ?args w1 = (x, w2)" by fastforce
    with dr have v: "rts w2 = rts w1" "ins w2 = ins w1" "\<forall>ts pg. x = Inr (ts, pg) \<longrightarrow> concat (map RouteEntry ts) = rts w1"
      unfolding describes_routes_def by blast+
    have named: "\<forall>i \<in> set all. node_name_of p i \<noteq> None" using wfi all by (simp add: wf_inventory_def)
    have "w' = w2" and "r = Ret (case x of Inl e \<Rightarrow> Inl (''Unable list routes:'' @ e)
        | Inr (ts, pg) \<Rightarrow> Inr (List.map_filter (route_of p all) (concat (map RouteEntry ts))))"
      using run g Inr t
      by (auto simp: ListRoutes_def tryE_Inr client_defs bnd_def call_def ret_def
          list_tables_named [OF named] split: sum.splits)
    with v gi all inv show ?thesis
      by (auto simp: route_invar_def routes_at_def set_map_filter split: sum.splits)
  qed
qed

section \<open>Changing\<close>

lemma route_of_entry:
  assumes wfi: "wf_inventory p all" and "i \<in> set all" and "node_name_of p i = Some n"
  shows "route_of p all \<lparr>DestinationCidrBlock = cidr, NextHopType = NextHopInstance,
      RouteEntry_InstanceId = InstanceId i\<rparr> = Some \<lparr>TargetNode = n, DestinationCIDR = cidr\<rparr>"
proof -
  have "distinct (map InstanceId all)" using wfi by (simp add: wf_inventory_def)
  with assms(2) have "filter (\<lambda>j. InstanceId j = InstanceId i) all = [i]"
    by (induction all) (auto simp: filter_empty_conv rev_image_eqI)
  with assms(3) show ?thesis by (simp add: route_of_def)
qed

lemma named_instance:
  assumes wfi: "wf_inventory p all" and "filter (by_node_name p n) all = [i]"
  shows "i \<in> set all" and "node_name_of p i = Some n"
proof -
  have "i \<in> set (filter (by_node_name p n) all)" using assms(2) by simp
  with wfi show "i \<in> set all" and "node_name_of p i = Some n" by (auto simp: wf_inventory_def)
qed

lemma named_matches:
  assumes "wf_provider p" and "node_name_of p i = Some n"
  shows "by_node_name p n i"
  using assms by_ip.name_matches by_host.name_matches
  by (auto simp: wf_provider_def node_name_of_def by_node_name_def)

text \<open>The entries that list as a given route are those with its block on its instance.\<close>

lemma route_of_eq:
  assumes wfp: "wf_provider p" and wfi: "wf_inventory p all"
    and i: "filter (by_node_name p (TargetNode route)) all = [i]"
  shows "route_of p all e = Some route \<longleftrightarrow>
    NextHopType e = NextHopInstance \<and> DestinationCidrBlock e = DestinationCIDR route \<and>
    RouteEntry_InstanceId e = InstanceId i"
proof
  assume r: "route_of p all e = Some route"
  then obtain j n where j: "filter (\<lambda>k. InstanceId k = RouteEntry_InstanceId e) all = [j]"
    and n: "node_name_of p j = Some n" "route = \<lparr>TargetNode = n, DestinationCIDR = DestinationCidrBlock e\<rparr>"
    and t: "NextHopType e = NextHopInstance"
    by (auto simp: route_of_def split: if_splits list.splits)
  have "j \<in> set (filter (\<lambda>k. InstanceId k = RouteEntry_InstanceId e) all)" using j by simp
  then have jj: "j \<in> set all" "InstanceId j = RouteEntry_InstanceId e" by simp_all
  then have "j \<in> set (filter (by_node_name p (TargetNode route)) all)"
    using named_matches [OF wfp n(1)] n(2) by simp
  with i have "j = i" by simp
  with jj t n(2) show "NextHopType e = NextHopInstance \<and> DestinationCidrBlock e = DestinationCIDR route \<and>
    RouteEntry_InstanceId e = InstanceId i" by simp
next
  assume e: "NextHopType e = NextHopInstance \<and> DestinationCidrBlock e = DestinationCIDR route \<and>
    RouteEntry_InstanceId e = InstanceId i"
  then have "e = \<lparr>DestinationCidrBlock = DestinationCIDR route, NextHopType = NextHopInstance,
      RouteEntry_InstanceId = InstanceId i\<rparr>" by simp
  with route_of_entry [OF wfi named_instance [OF wfi i]] show "route_of p all e = Some route" by simp
qed

text \<open>Both changes look the instance up and make one request.\<close>

lemma by_node_name_request:
  assumes di: "describes_inventory E rts ins"
    and run: "bnd (getInstanceByNodeName E p n) (\<lambda>r. case r of Inl err \<Rightarrow> ret (Some err) | Inr i \<Rightarrow> call (f i)) w = (r, w')"
  shows "(\<exists>e. r = Ret (Some e)) \<and> rts w' = rts w \<and> ins w' = ins w \<or>
    (\<exists>i wi x. filter (by_node_name p n) (ins w) = [i] \<and> rts wi = rts w \<and> ins wi = ins w \<and>
       f i wi = (x, w') \<and> r = Ret x)"
proof -
  obtain ri w1 where g: "getInstances E p w = (Ret ri, w1)" using getInstances_returns [of E p w] by blast
  note gi = getInstances_inventory [OF di g]
  show ?thesis
  proof (cases ri)
    case (Inl e)
    with g run gi show ?thesis by (simp add: getInstanceByNodeName_eq bnd_def tryE_Inl)
  next
    case (Inr all)
    with gi have all: "all = ins w" by simp
    show ?thesis
    proof (cases "the_match (by_node_name p n) n all")
      case (Inl e)
      with Inr g run gi show ?thesis by (auto simp: getInstanceByNodeName_eq bnd_def tryE_Inr ret_def)
    next
      case m: (Inr i)
      obtain x w2 where c: "f i w1 = (x, w2)" by fastforce
      have "r = Ret x" "w' = w2"
        using m Inr g run c by (auto simp: getInstanceByNodeName_eq bnd_def tryE_Inr ret_def call_def)
      with m c gi all show ?thesis by (auto simp: the_match_Inr)
    qed
  qed
qed

lemma changes_routesD:
  assumes "changes_routes E rts ins"
  shows "invoke_CreateRouteEntry E args w = (r, w') \<Longrightarrow> ins w' = ins w"
    and "invoke_CreateRouteEntry E args w = (r, w') \<Longrightarrow> rts w' = (case r of Some _ \<Rightarrow> rts w
      | None \<Rightarrow> rts w @ [\<lparr>DestinationCidrBlock = Args_DestinationCidrBlock args, NextHopType = NextHopInstance,
                            RouteEntry_InstanceId = NextHopId args\<rparr>])"
    and "invoke_DeleteRouteEntry E args w = (r, w') \<Longrightarrow> ins w' = ins w"
    and "invoke_DeleteRouteEntry E args w = (r, w') \<Longrightarrow> rts w' = (case r of Some _ \<Rightarrow> rts w
      | None \<Rightarrow> filter (\<lambda>e. \<not> (DestinationCidrBlock e = Args_DestinationCidrBlock args \<and>
                               RouteEntry_InstanceId e = NextHopId args)) (rts w))"
  using assms unfolding changes_routes_def by blast+

lemma CreateRoute_law:
  assumes inv: "route_invar E p rts ins w" and run: "CreateRoute E p c hint route w = (r, w')"
  shows "route_invar E p rts ins w' \<and>
    ((\<exists>e. r = Ret (Some e)) \<and> routes_at p rts ins w' = routes_at p rts ins w \<or>
     r = Ret None \<and> routes_at p rts ins w' = insert route (routes_at p rts ins w))"
proof -
  from inv have di: "describes_inventory E rts ins" and ch: "changes_routes E rts ins"
    and wfi: "wf_inventory p (ins w)"
    by (simp_all add: route_invar_def route_contract_def)
  from by_node_name_request [OF di run [unfolded CreateRoute_def CreateRouteEntry_def]]
  consider (failed) "\<exists>e. r = Ret (Some e)" "rts w' = rts w" "ins w' = ins w"
    | (asked) i wi x where "filter (by_node_name p (TargetNode route)) (ins w) = [i]" "rts wi = rts w" "ins wi = ins w"
        "invoke_CreateRouteEntry E (route_args p route i) wi = (x, w')" "r = Ret x" by blast
  then show ?thesis
  proof cases
    case failed
    with inv show ?thesis by (simp add: route_invar_def routes_at_def)
  next
    case asked
    from ch asked(4) have v: "ins w' = ins wi" "rts w' = (case x of Some _ \<Rightarrow> rts wi
        | None \<Rightarrow> rts wi @ [\<lparr>DestinationCidrBlock = DestinationCIDR route, NextHopType = NextHopInstance,
                               RouteEntry_InstanceId = InstanceId i\<rparr>])"
      by (auto simp: changes_routesD route_args_def split: option.split)
    from route_of_entry [OF wfi named_instance [OF wfi asked(1)], of "DestinationCIDR route"]
    show ?thesis using v asked inv
      by (cases x) (auto simp: route_invar_def routes_at_def)
  qed
qed

lemma DeleteRoute_law:
  assumes inv: "route_invar E p rts ins w" and run: "DeleteRoute E p c route w = (r, w')"
  shows "route_invar E p rts ins w' \<and>
    ((\<exists>e. r = Ret (Some e)) \<and> routes_at p rts ins w' = routes_at p rts ins w \<or>
     r = Ret None \<and> routes_at p rts ins w' = routes_at p rts ins w - {route})"
proof -
  from inv have di: "describes_inventory E rts ins" and ch: "changes_routes E rts ins"
    and wfp: "wf_provider p" and wfi: "wf_inventory p (ins w)"
    by (simp_all add: route_invar_def route_contract_def)
  from by_node_name_request [OF di run [unfolded DeleteRoute_def DeleteRouteEntry_def]]
  consider (failed) "\<exists>e. r = Ret (Some e)" "rts w' = rts w" "ins w' = ins w"
    | (asked) i wi x where "filter (by_node_name p (TargetNode route)) (ins w) = [i]" "rts wi = rts w" "ins wi = ins w"
        "invoke_DeleteRouteEntry E (route_args p route i) wi = (x, w')" "r = Ret x" by blast
  then show ?thesis
  proof cases
    case failed
    with inv show ?thesis by (simp add: route_invar_def routes_at_def)
  next
    case asked
    from ch asked(4) have v: "ins w' = ins wi" "rts w' = (case x of Some _ \<Rightarrow> rts wi
        | None \<Rightarrow> filter (\<lambda>e. \<not> (DestinationCidrBlock e = DestinationCIDR route \<and>
                                 RouteEntry_InstanceId e = InstanceId i)) (rts wi))"
      by (auto simp: changes_routesD route_args_def split: option.split)
    have keep: "DestinationCidrBlock e = DestinationCIDR route \<and> RouteEntry_InstanceId e = InstanceId i \<longleftrightarrow> rt = route"
      if rt: "route_of p (ins w) e = Some rt" for e rt
    proof -
      from rt have "NextHopType e = NextHopInstance" by (simp add: route_of_def split: if_splits)
      with route_of_eq [OF wfp wfi asked(1), of e] rt show ?thesis by auto
    qed
    show ?thesis
    proof (cases x)
      case None
      then have "rts w' = filter (\<lambda>e. \<not> (DestinationCidrBlock e = DestinationCIDR route \<and>
          RouteEntry_InstanceId e = InstanceId i)) (rts w)" using v(2) asked(2) by simp
      then have "routes_at p rts ins w' = routes_at p rts ins w - {route}"
        unfolding routes_at_def v(1) asked(3) using keep by fastforce
      with None v(1) asked inv show ?thesis by (simp add: route_invar_def)
    next
      case (Some e)
      with v asked inv show ?thesis by (simp add: route_invar_def routes_at_def)
    qed
  qed
qed

interpretation al: routes_provider "route_invar E p rts ins" "routes_at p rts ins" "ListRoutes E p c"
  "CreateRoute E p c" "DeleteRoute E p c" for E p rts ins c
  by (unfold_locales) (blast dest: ListRoutes_law CreateRoute_law DeleteRoute_law)+

end
