(* ===== verification/Map_Utils.thy ===== *)
theory Map_Utils
  imports Go_Strings
begin

text \<open>
  The reflective helpers of \<^verbatim>\<open>pkg/util/map_utils.go\<close>: filling a struct from a map of
  strings (service annotations, storage-class parameters), the way back, and copying and
  comparing maps.

  A struct seen through reflection is the list of its fields, each with its name, its
  \<^verbatim>\<open>k8s\<close> tag (empty when there is none), whether it is exported, whether its type is
  the predeclared type of its kind, and its value. Floating-point numbers are an
  uninterpreted type \<open>'f\<close>; \<^verbatim>\<open>strconv.ParseFloat\<close> and the printing of a float are
  parameters, as no struct of the program has such a field.
\<close>

section \<open>Structs through reflection\<close>

datatype kind = KInt | KBool | KFloat32 | KFloat64 | KString | KOther

datatype 'f go_value = VInt int | VBool bool | VFloat32 'f | VFloat64 'f | VString string | VOther

fun kind_of :: "'f go_value \<Rightarrow> kind" where
  "kind_of (VInt _) = KInt"
| "kind_of (VBool _) = KBool"
| "kind_of (VFloat32 _) = KFloat32"
| "kind_of (VFloat64 _) = KFloat64"
| "kind_of (VString _) = KString"
| "kind_of VOther = KOther"

record 'f field =
  F_Name :: string
  F_Tag :: string
  F_Exported :: bool
  F_Predeclared :: bool
  F_Value :: "'f go_value"

datatype 'f iface =
    NilIface
  | IStruct "'f field list"
  | IPtr "'f field list"     \<comment> \<open>a pointer to a struct\<close>
  | INilPtr                  \<comment> \<open>a nil pointer to a struct\<close>
  | IPtrOther                \<comment> \<open>a pointer to something else\<close>
  | IOther

datatype map_error =
    NilMap
  | NotAStruct
  | UnmatchType string "num_error option" \<comment> \<open>field name; \<open>None\<close> for an unsupported kind\<close>
  | DstNil
  | TypesDontMatch
  | Recovered                             \<comment> \<open>a panic turned into an error by \<^verbatim>\<open>recover()\<close>\<close>

section \<open>MapToStruct\<close>

text \<open>The \<^verbatim>\<open>switch fieldType.Type.Kind()\<close> of the loop.\<close>

definition map_num :: "('a \<Rightarrow> 'b) \<Rightarrow> num_error + 'a \<Rightarrow> num_error option + 'b" where
  "map_num f r = (case r of Inl e \<Rightarrow> Inl (Some e) | Inr x \<Rightarrow> Inr (f x))"

fun convert_value ::
  "(nat \<Rightarrow> string \<Rightarrow> num_error + 'f) \<Rightarrow> kind \<Rightarrow> string \<Rightarrow> num_error option + 'f go_value" where
  "convert_value ParseFloat KInt s = map_num VInt (Atoi s)"
| "convert_value ParseFloat KBool s = map_num VBool (ParseBool s)"
| "convert_value ParseFloat KFloat32 s = map_num VFloat32 (ParseFloat 32 s)"
| "convert_value ParseFloat KFloat64 s = map_num VFloat64 (ParseFloat 64 s)"
| "convert_value ParseFloat KString s = Inr (VString s)"
| "convert_value ParseFloat KOther s = Inl None"

text \<open>
  The loop over the fields. It stops at the first error; the fields set before stay set.
  \<^verbatim>\<open>fieldValue.Set\<close> panics on an unexported field and on a field of a named type; the
  deferred \<^verbatim>\<open>recover\<close> makes that an error.
\<close>

fun set_fields ::
  "(nat \<Rightarrow> string \<Rightarrow> num_error + 'f) \<Rightarrow> (string \<rightharpoonup> string) \<Rightarrow> string \<Rightarrow> 'f field list \<Rightarrow>
   'f field list \<times> map_error option" where
  "set_fields pf m keyPrefix [] = ([], None)"
| "set_fields pf m keyPrefix (f # fs) =
     (if F_Tag f = '''' then (case set_fields pf m keyPrefix fs of (fs', e) \<Rightarrow> (f # fs', e))
      else case m (keyPrefix @ F_Tag f) of
        None \<Rightarrow> (case set_fields pf m keyPrefix fs of (fs', e) \<Rightarrow> (f # fs', e))
      | Some valueString \<Rightarrow> (case convert_value pf (kind_of (F_Value f)) valueString of
          Inl e \<Rightarrow> (f # fs, Some (UnmatchType (F_Name f) e))
        | Inr v \<Rightarrow>
            if F_Exported f \<and> F_Predeclared f
            then (case set_fields pf m keyPrefix fs of (fs', e) \<Rightarrow> (f\<lparr>F_Value := v\<rparr> # fs', e))
            else (f # fs, Some Recovered)))"

definition MapToStruct ::
  "(nat \<Rightarrow> string \<Rightarrow> num_error + 'f) \<Rightarrow> (string \<rightharpoonup> string) option \<Rightarrow> 'f iface \<Rightarrow> string \<Rightarrow>
   'f iface \<times> map_error option" where
  "MapToStruct pf src out keyPrefix =
     (case src of
        None \<Rightarrow> (out, Some NilMap)
      | Some m \<Rightarrow> (case out of
          NilIface \<Rightarrow> (out, Some Recovered)
        | INilPtr \<Rightarrow> (out, Some Recovered)
        | IPtr fs \<Rightarrow> (case set_fields pf m keyPrefix fs of (fs', e) \<Rightarrow> (IPtr fs', e))
        | _ \<Rightarrow> (out, Some NotAStruct)))"

section \<open>StructToMap\<close>

text \<open>\<^verbatim>\<open>fmt.Sprintf("%v", fieldValue.Interface())\<close>.\<close>

fun render_value :: "('f \<Rightarrow> string) \<Rightarrow> 'f go_value \<Rightarrow> string" where
  "render_value ff (VInt i) = Itoa i"
| "render_value ff (VBool b) = FormatBool b"
| "render_value ff (VFloat32 x) = ff x"
| "render_value ff (VFloat64 x) = ff x"
| "render_value ff (VString s) = s"
| "render_value ff VOther = ''''"

fun store_fields ::
  "('f \<Rightarrow> string) \<Rightarrow> string \<Rightarrow> 'f field list \<Rightarrow> (string \<rightharpoonup> string) \<Rightarrow> (string \<rightharpoonup> string) \<times> map_error option" where
  "store_fields ff prefix [] out = (out, None)"
| "store_fields ff prefix (f # fs) out =
     (if F_Tag f = '''' then store_fields ff prefix fs out
      else if \<not> F_Exported f then (out, Some Recovered)
      else store_fields ff prefix fs (out(prefix @ F_Tag f \<mapsto> render_value ff (F_Value f))))"

definition StructToMap ::
  "('f \<Rightarrow> string) \<Rightarrow> 'f iface \<Rightarrow> (string \<rightharpoonup> string) option \<Rightarrow> string \<Rightarrow>
   (string \<rightharpoonup> string) option \<times> map_error option" where
  "StructToMap ff src out prefix =
     (case out of
        None \<Rightarrow> (None, Some NilMap)
      | Some m \<Rightarrow> (case src of
          NilIface \<Rightarrow> (out, Some Recovered)
        | INilPtr \<Rightarrow> (out, Some Recovered)
        | IStruct fs \<Rightarrow> (case store_fields ff prefix fs m of (m', e) \<Rightarrow> (Some m', e))
        | IPtr fs \<Rightarrow> (case store_fields ff prefix fs m of (m', e) \<Rightarrow> (Some m', e))
        | _ \<Rightarrow> (out, Some NotAStruct)))"

section \<open>MapCopy and MapEqual\<close>

text \<open>
  A map behind an interface value: the kinds and the names of its key and element types
  and, unless it is a nil map, its entries in the order \<^verbatim>\<open>MapKeys\<close> lists them.
\<close>

record ('k, 'v) map_value =
  M_KeyKind :: kind
  M_ElemKind :: kind
  M_Type :: string
  M_Entries :: "('k \<times> 'v) list option"

datatype ('k, 'v) map_iface = MNilIface | MNotMap | MMap "('k, 'v) map_value"

definition entries_of :: "('k, 'v) map_value \<Rightarrow> ('k \<times> 'v) list" where
  "entries_of m = (case M_Entries m of None \<Rightarrow> [] | Some es \<Rightarrow> es)"

definition same_kinds :: "('k, 'v) map_value \<Rightarrow> ('k, 'v) map_value \<Rightarrow> bool" where
  "same_kinds a b \<longleftrightarrow> M_KeyKind a = M_KeyKind b \<and> M_ElemKind a = M_ElemKind b"

fun set_entry :: "('k \<times> 'v) list \<Rightarrow> 'k \<Rightarrow> 'v \<Rightarrow> ('k \<times> 'v) list" where
  "set_entry [] k v = [(k, v)]"
| "set_entry ((k', v') # es) k v = (if k' = k then (k, v) # es else (k', v') # set_entry es k v)"

fun copy_entries :: "('k \<times> 'v) list \<Rightarrow> ('k \<times> 'v) list \<Rightarrow> ('k \<times> 'v) list" where
  "copy_entries dst [] = dst"
| "copy_entries dst ((k, v) # src) = copy_entries (set_entry dst k v) src"

text \<open>
  \<^verbatim>\<open>SetMapIndex\<close> panics on a nil map and on a key or element of another type; the panic
  is recovered. Only the first assignment can panic, so nothing has been copied then.
\<close>

definition MapCopy :: "('k, 'v) map_iface \<Rightarrow> ('k, 'v) map_iface \<Rightarrow> ('k, 'v) map_iface \<times> map_error option" where
  "MapCopy dst src =
     (case (src, dst) of
        (MNilIface, _) \<Rightarrow> (dst, None)
      | (_, MNilIface) \<Rightarrow> (dst, Some DstNil)
      | (MMap s, MMap d) \<Rightarrow>
          if \<not> same_kinds s d then (dst, Some TypesDontMatch)
          else if entries_of s = [] then (dst, None)
          else if M_Type s \<noteq> M_Type d then (dst, Some Recovered)
          else (case M_Entries d of
                  None \<Rightarrow> (dst, Some Recovered)
                | Some es \<Rightarrow> (MMap (d\<lparr>M_Entries := Some (copy_entries es (entries_of s))\<rparr>), None))
      | _ \<Rightarrow> (dst, Some TypesDontMatch))"

text \<open>\<^verbatim>\<open>reflect.DeepEqual\<close> on two maps, at least one of which has an entry.\<close>

definition deep_equal :: "('k, 'v) map_value \<Rightarrow> ('k, 'v) map_value \<Rightarrow> bool" where
  "deep_equal a b \<longleftrightarrow>
     M_Type a = M_Type b \<and> M_KeyKind a = M_KeyKind b \<and> M_ElemKind a = M_ElemKind b \<and>
     (M_Entries a = None \<longleftrightarrow> M_Entries b = None) \<and>
     length (entries_of a) = length (entries_of b) \<and>
     (\<forall>e \<in> set (entries_of a). map_of (entries_of b) (fst e) = Some (snd e))"

definition MapEqual :: "('k, 'v) map_iface \<Rightarrow> ('k, 'v) map_iface \<Rightarrow> bool" where
  "MapEqual dst src =
     (case (src, dst) of
        (MMap s, MMap d) \<Rightarrow>
          if \<not> same_kinds s d then False
          else if entries_of s = [] \<and> entries_of d = [] then True
          else deep_equal s d
      | _ \<Rightarrow> False)"

section \<open>Laws\<close>

subsection \<open>Structs\<close>

text \<open>What \<open>set_fields\<close> leaves as it is: names, tags, kinds; and untagged fields altogether.\<close>

lemma set_fields_shape:
  "map F_Name (fst (set_fields pf m pre fs)) = map F_Name fs \<and>
   map F_Tag (fst (set_fields pf m pre fs)) = map F_Tag fs \<and>
   map (kind_of \<circ> F_Value) (fst (set_fields pf m pre fs)) = map (kind_of \<circ> F_Value) fs"
proof -
  have k: "convert_value pf k s = Inr v \<Longrightarrow> kind_of v = k" for k s v
    by (cases k) (auto simp: map_num_def split: sum.splits)
  show ?thesis
    by (induction fs) (auto split: option.splits sum.splits prod.splits dest: k)
qed

lemma set_fields_absent:
  "(\<forall>f \<in> set fs. F_Tag f \<noteq> '''' \<longrightarrow> m (pre @ F_Tag f) = None) \<Longrightarrow> set_fields pf m pre fs = (fs, None)"
  by (induction fs) auto

text \<open>A value that prints to something its own kind reads back.\<close>

fun readable :: "'f go_value \<Rightarrow> bool" where
  "readable (VInt i) = is_int64 i"
| "readable (VBool b) = True"
| "readable (VString s) = True"
| "readable _ = False"

lemma convert_render: "readable v \<Longrightarrow> convert_value pf (kind_of v) (render_value ff v) = Inr v"
  by (cases v) (auto simp: map_num_def Atoi_Itoa)

lemma store_fields_map:
  assumes "\<forall>f \<in> set fs. F_Tag f \<noteq> '''' \<longrightarrow> F_Exported f"
  shows "store_fields ff pre fs out =
     (out ++ map_of (rev (map (\<lambda>f. (pre @ F_Tag f, render_value ff (F_Value f)))
                              (filter (\<lambda>f. F_Tag f \<noteq> '''') fs))), None)"
  using assms
proof (induction fs arbitrary: out)
  case Nil
  then show ?case by simp
next
  case (Cons f fs)
  then show ?case by (simp add: map_add_assoc)
qed

text \<open>The well-formed structs: tags are distinct, tagged fields are exported and predeclared.\<close>

definition wf_struct :: "'f field list \<Rightarrow> bool" where
  "wf_struct fs \<longleftrightarrow>
     distinct (map F_Tag (filter (\<lambda>f. F_Tag f \<noteq> '''') fs)) \<and>
     (\<forall>f \<in> set fs. F_Tag f \<noteq> '''' \<longrightarrow> F_Exported f \<and> F_Predeclared f \<and> readable (F_Value f))"

lemma set_fields_reads:
  assumes "\<forall>f \<in> set fs. F_Tag f \<noteq> '''' \<longrightarrow>
      F_Exported f \<and> F_Predeclared f \<and> readable (F_Value f) \<and>
      m (pre @ F_Tag f) = Some (render_value ff (F_Value f))"
    and "list_all2 (\<lambda>f g. F_Name g = F_Name f \<and> F_Tag g = F_Tag f \<and> F_Exported g = F_Exported f \<and>
      F_Predeclared g = F_Predeclared f \<and> kind_of (F_Value g) = kind_of (F_Value f) \<and>
      (F_Tag f = '''' \<longrightarrow> F_Value g = F_Value f)) fs gs"
  shows "set_fields pf m pre gs = (fs, None)"
  using assms(2,1)
proof (induction rule: list_all2_induct)
  case Nil
  then show ?case by simp
next
  case (Cons f fs g gs)
  from Cons have IH: "set_fields pf m pre gs = (fs, None)" by simp
  show ?case
  proof (cases "F_Tag f = ''''")
    case True
    then have "g = f" using Cons.hyps(1) by (intro field.equality) auto
    with True IH show ?thesis by simp
  next
    case False
    then have "set_fields pf m pre (g # gs) = (g\<lparr>F_Value := F_Value f\<rparr> # fs, None)"
      using Cons.hyps(1) Cons.prems IH by (simp add: convert_render)
    also have "g\<lparr>F_Value := F_Value f\<rparr> = f"
      using Cons.hyps(1) by (intro field.equality) auto
    finally show ?thesis .
  qed
qed

subsection \<open>Maps\<close>

lemma map_of_set_entry: "map_of (set_entry es k v) = (map_of es)(k \<mapsto> v)"
  by (induction es k v rule: set_entry.induct) auto

lemma set_entry_keys: "fst ` set (set_entry es k v) = insert k (fst ` set es)"
  by (induction es k v rule: set_entry.induct) auto

lemma distinct_set_entry: "distinct (map fst es) \<Longrightarrow> distinct (map fst (set_entry es k v))"
proof (induction es k v rule: set_entry.induct)
  case (1 k v)
  then show ?case by simp
next
  case (2 k' v' es k v)
  then show ?case using set_entry_keys [of es k v] by auto
qed

lemma map_of_copy_entries:
  "distinct (map fst src) \<Longrightarrow> map_of (copy_entries dst src) = map_of dst ++ map_of src"
proof (induction dst src rule: copy_entries.induct)
  case (1 dst)
  then show ?case by simp
next
  case (2 dst k v src)
  then have "map_of src k = None" by (simp add: map_of_eq_None_iff)
  then have "(map_of dst)(k \<mapsto> v) ++ map_of src = map_of dst ++ (map_of src)(k \<mapsto> v)"
    by (auto simp: map_add_def fun_eq_iff split: option.split)
  moreover have "map_of (copy_entries (set_entry dst k v) src) = map_of (set_entry dst k v) ++ map_of src"
    using "2" by simp
  ultimately show ?case
    by (simp only: copy_entries.simps map_of_set_entry map_of.simps fst_conv snd_conv)
qed

lemma distinct_copy_entries:
  "distinct (map fst dst) \<Longrightarrow> distinct (map fst (copy_entries dst src))"
  by (induction dst src rule: copy_entries.induct) (auto intro: distinct_set_entry)

subsection \<open>Round trips\<close>

text \<open>Two structs of one type that agree in the fields without a tag.\<close>

definition same_shape :: "'f field list \<Rightarrow> 'f field list \<Rightarrow> bool" where
  "same_shape = list_all2 (\<lambda>f g. F_Name g = F_Name f \<and> F_Tag g = F_Tag f \<and> F_Exported g = F_Exported f \<and>
      F_Predeclared g = F_Predeclared f \<and> kind_of (F_Value g) = kind_of (F_Value f) \<and>
      (F_Tag f = '''' \<longrightarrow> F_Value g = F_Value f))"

lemma StructToMap_wf:
  assumes "wf_struct fs"
  obtains m where "StructToMap ff (IStruct fs) (Some out) pre = (Some m, None)"
    and "\<And>f. f \<in> set fs \<Longrightarrow> F_Tag f \<noteq> '''' \<Longrightarrow> m (pre @ F_Tag f) = Some (render_value ff (F_Value f))"
    and "\<And>k. \<forall>f \<in> set fs. F_Tag f \<noteq> '''' \<longrightarrow> k \<noteq> pre @ F_Tag f \<Longrightarrow> m k = out k"
proof -
  let ?es = "rev (map (\<lambda>f. (pre @ F_Tag f, render_value ff (F_Value f))) (filter (\<lambda>f. F_Tag f \<noteq> '''') fs))"
  have "distinct (map ((@) pre) (map F_Tag (filter (\<lambda>f. F_Tag f \<noteq> '''') fs)))"
    using assms by (subst distinct_map) (simp add: wf_struct_def inj_on_def)
  then have d: "distinct (map fst ?es)" by (simp add: rev_map [symmetric] comp_def)
  have s: "(pre @ F_Tag f, render_value ff (F_Value f)) \<in> set ?es" if "f \<in> set fs" "F_Tag f \<noteq> ''''" for f
    using that by auto
  have "(out ++ map_of ?es) (pre @ F_Tag f) = Some (render_value ff (F_Value f))"
    if "f \<in> set fs" "F_Tag f \<noteq> ''''" for f
    using map_of_is_SomeI [OF d s [OF that]] by (rule map_add_find_right)
  moreover have "(out ++ map_of ?es) k = out k" if "\<forall>f \<in> set fs. F_Tag f \<noteq> '''' \<longrightarrow> k \<noteq> pre @ F_Tag f" for k
    using that by (simp add: map_add_dom_app_simps(3) dom_map_of_conv_image_fst image_iff)
  moreover have "StructToMap ff (IStruct fs) (Some out) pre = (Some (out ++ map_of ?es), None)"
    using assms by (simp add: StructToMap_def store_fields_map wf_struct_def)
  ultimately show thesis by (rule that [rotated])
qed

lemma MapToStruct_reads:
  assumes "wf_struct fs" and "same_shape fs gs"
    and "\<And>f. f \<in> set fs \<Longrightarrow> F_Tag f \<noteq> '''' \<Longrightarrow> m (pre @ F_Tag f) = Some (render_value ff (F_Value f))"
  shows "MapToStruct pf (Some m) (IPtr gs) pre = (IPtr fs, None)"
  using set_fields_reads [where fs = fs and gs = gs and m = m and pre = pre and ff = ff and pf = pf] assms
  by (auto simp: MapToStruct_def wf_struct_def same_shape_def)

text \<open>A copy into a map with other entries, and into an empty one.\<close>

lemma MapCopy_entries:
  assumes "same_kinds s d" and "M_Type s = M_Type d" and "M_Entries d = Some es"
    and "distinct (map fst es)" and "distinct (map fst (entries_of s))"
  obtains d' where "MapCopy (MMap d) (MMap s) = (MMap d', None)" and "M_Type d' = M_Type d"
    and "same_kinds d' d" and "distinct (map fst (entries_of d'))"
    and "map_of (entries_of d') = map_of es ++ map_of (entries_of s)" and "M_Entries d' \<noteq> None"
proof (cases "entries_of s = []")
  case True
  with assms show thesis by (intro that [of d]) (simp_all add: MapCopy_def same_kinds_def entries_of_def)
next
  case False
  with assms show thesis
    by (intro that [of "d\<lparr>M_Entries := Some (copy_entries es (entries_of s))\<rparr>"])
       (simp_all add: MapCopy_def same_kinds_def entries_of_def map_of_copy_entries distinct_copy_entries)
qed

lemma MapEqual_iff:
  assumes "distinct (map fst (entries_of a))" and "distinct (map fst (entries_of b))"
    and "M_Type a = M_Type b" and "same_kinds a b" and "M_Entries a = None \<longleftrightarrow> M_Entries b = None"
  shows "MapEqual (MMap a) (MMap b) \<longleftrightarrow> map_of (entries_of a) = map_of (entries_of b)"
proof -
  let ?a = "entries_of a" and ?b = "entries_of b"
  have card: "card (set es) = length es" if "distinct (map fst es)" for es :: "('a \<times> 'b) list"
    using that by (intro distinct_card) (simp add: distinct_map)
  have sub: "(\<forall>e \<in> set ?b. map_of ?a (fst e) = Some (snd e)) \<longleftrightarrow> set ?b \<subseteq> set ?a"
    using assms(1) by (auto simp: map_of_eq_Some_iff)
  have "length ?b = length ?a \<and> set ?b \<subseteq> set ?a \<longleftrightarrow> set ?b = set ?a"
    using card [OF assms(1)] card [OF assms(2)] by (metis List.finite_set card_subset_eq subset_refl)
  also have "\<dots> \<longleftrightarrow> map_of ?a = map_of ?b"
    using assms(1,2) map_of_inject_set by metis
  finally have "deep_equal b a \<longleftrightarrow> map_of ?a = map_of ?b"
    using assms(3-5) sub by (auto simp: deep_equal_def same_kinds_def)
  then show ?thesis using assms(4) by (auto simp: MapEqual_def same_kinds_def)
qed

end
