(* ===== verification/Go_Map.thy ===== *)
theory Go_Map
  imports Aliyun_Client "HOL-Library.AList" "HOL-Library.Multiset"
begin

text \<open>
  Go maps with string keys. A map is an association list with distinct keys; a
  \<^verbatim>\<open>range\<close> loop visits the keys in the order the environment chooses. The interface
  the components use is the locale \<open>go_map\<close>: lookup, assignment, deletion and iteration
  with their laws; the association lists implement it.
\<close>

type_synonym 'v gomap = "(string \<times> 'v) list"

definition gm_set :: "string \<Rightarrow> 'v \<Rightarrow> 'v gomap \<Rightarrow> 'v gomap" where
  "gm_set k v m = AList.update k v m"

definition gm_delete :: "string \<Rightarrow> 'v gomap \<Rightarrow> 'v gomap" where
  "gm_delete k m = AList.delete k m"

definition gm_wf :: "'v gomap \<Rightarrow> bool" where
  "gm_wf m \<longleftrightarrow> distinct (map fst m)"

text \<open>\<^verbatim>\<open>for k, v := range m\<close>, started in the world \<open>w\<close>.\<close>

definition range_map :: "'w env \<Rightarrow> 'w \<Rightarrow> 'v gomap \<Rightarrow> (string \<times> 'v) list" where
  "range_map E w m =
     List.map_filter (\<lambda>k. map_option (Pair k) (map_of m k)) (env_range_order E w (map fst m))"

text \<open>What the language promises of the iteration order: every key once.\<close>

definition range_ok :: "'w env \<Rightarrow> bool" where
  "range_ok E \<longleftrightarrow> (\<forall>w ks. mset (env_range_order E w ks) = mset ks)"

locale go_map =
  fixes lookup :: "'m \<Rightarrow> string \<Rightarrow> 'v option"
    and assign :: "string \<Rightarrow> 'v \<Rightarrow> 'm \<Rightarrow> 'm"
    and remove :: "string \<Rightarrow> 'm \<Rightarrow> 'm"
    and iterate :: "'m \<Rightarrow> (string \<times> 'v) list"
    and invar :: "'m \<Rightarrow> bool"
    and ordered :: bool
  assumes lookup_assign: "lookup (assign k v m) = (lookup m)(k \<mapsto> v)"
    and lookup_remove: "lookup (remove k m) = (lookup m)(k := None)"
    and invar_assign: "invar m \<Longrightarrow> invar (assign k v m)"
    and invar_remove: "invar m \<Longrightarrow> invar (remove k m)"
    and iterate_all: "ordered \<Longrightarrow> invar m \<Longrightarrow> (k, v) \<in> set (iterate m) \<longleftrightarrow> lookup m k = Some v"
    and iterate_once: "ordered \<Longrightarrow> invar m \<Longrightarrow> distinct (map fst (iterate m))"
begin

lemma invar_fold_assign: "invar m \<Longrightarrow> invar (fold (\<lambda>(k, v). assign k v) kvs m)"
  by (induction kvs arbitrary: m) (auto simp: invar_assign)

lemma lookup_fold_assign:
  "lookup (fold (\<lambda>(k, v). assign k v) kvs m) = lookup m ++ map_of (rev kvs)"
proof (induction kvs arbitrary: m)
  case Nil
  then show ?case by simp
next
  case (Cons kv kvs)
  obtain k v where kv: "kv = (k, v)" by fastforce
  with Cons have "lookup (fold (\<lambda>(k, v). assign k v) (kv # kvs) m) = lookup (assign k v m) ++ map_of (rev kvs)"
    by simp
  also have "\<dots> = (lookup m)(k \<mapsto> v) ++ map_of (rev kvs)" by (simp only: lookup_assign)
  also have "\<dots> = lookup m ++ map_of (rev (kv # kvs))" using kv by simp
  finally show ?case .
qed

lemma invar_fold_remove: "invar m \<Longrightarrow> invar (fold remove ks m)"
  by (induction ks arbitrary: m) (auto simp: invar_remove)

lemma lookup_fold_remove: "lookup (fold remove ks m) = (lookup m) |` (- set ks)"
proof (induction ks arbitrary: m)
  case Nil
  then show ?case by simp
next
  case (Cons k ks)
  then show ?case by (auto simp: lookup_remove restrict_map_def fun_eq_iff)
qed

lemma iterate_values_distinct:
  assumes "ordered" and "invar m"
    and "\<And>k v k' v'. lookup m k = Some v \<Longrightarrow> lookup m k' = Some v' \<Longrightarrow> f v = f v' \<Longrightarrow> k = k'"
  shows "distinct (map (f \<circ> snd) (iterate m))"
proof -
  have d: "distinct (iterate m)" using iterate_once [OF assms(1,2)] by (simp add: distinct_map)
  have "inj_on (f \<circ> snd) (set (iterate m))"
  proof (rule inj_onI)
    fix a b assume ab: "a \<in> set (iterate m)" "b \<in> set (iterate m)" "(f \<circ> snd) a = (f \<circ> snd) b"
    obtain k v k' v' where kv: "a = (k, v)" "b = (k', v')" by fastforce
    with ab have "lookup m k = Some v" "lookup m k' = Some v'" "f v = f v'"
      using iterate_all [OF assms(1,2)] by auto
    moreover from this have "k = k'" by (rule assms(3))
    ultimately show "a = b" using kv by simp
  qed
  with d show ?thesis by (simp add: distinct_map)
qed

end

lemma set_map_filter_lookup:
  "set (List.map_filter (\<lambda>k. map_option (Pair k) (f k)) ks) = {(k, v). k \<in> set ks \<and> f k = Some v}"
  by (induction ks) (auto simp: List.map_filter_simps split: option.splits)

lemma map_fst_map_filter:
  "map fst (List.map_filter (\<lambda>k. map_option (Pair k) (f k)) ks) = filter (\<lambda>k. f k \<noteq> None) ks"
  by (induction ks) (auto simp: List.map_filter_simps split: option.splits)

interpretation gm: go_map map_of gm_set gm_delete "range_map E w" gm_wf "range_ok E" for E w
proof
  show "map_of (gm_set k v m) = (map_of m)(k \<mapsto> v)" for k v m
    by (simp add: gm_set_def update_conv')
  show "map_of (gm_delete k m) = (map_of m)(k := None)" for k m
    by (simp add: gm_delete_def delete_conv')
  show "gm_wf m \<Longrightarrow> gm_wf (gm_set k v m)" for k v m
    by (simp add: gm_wf_def gm_set_def distinct_update)
  show "gm_wf m \<Longrightarrow> gm_wf (gm_delete k m)" for k m
    by (simp add: gm_wf_def gm_delete_def distinct_delete)
  show "(k, v) \<in> set (range_map E w m) \<longleftrightarrow> map_of m k = Some v" if "range_ok E" "gm_wf m" for k v m
  proof -
    have "set (env_range_order E w (map fst m)) = fst ` set m"
      using that(1) unfolding range_ok_def by (metis set_map set_mset_mset)
    then show ?thesis
      by (auto simp: range_map_def set_map_filter_lookup dest: map_of_SomeD intro: rev_image_eqI)
  qed
  show "distinct (map fst (range_map E w m))" if "range_ok E" "gm_wf m" for m
  proof -
    have "distinct (env_range_order E w (map fst m))"
      using that mset_eq_imp_distinct_iff unfolding range_ok_def gm_wf_def by blast
    then show ?thesis by (simp add: range_map_def map_fst_map_filter)
  qed
qed

lemma gm_wf_Nil [simp]: "gm_wf []"
  by (simp add: gm_wf_def)

end
