(* ===== verification/Quantity.thy ===== *)
theory Quantity
  imports Go_Prelude "HOL-Library.Signed_Division"
begin

text \<open>
  Resource quantities, from \<^verbatim>\<open>k8s.io/apimachinery/pkg/api/resource\<close>: the amount a
  claim asks for, read in units of a power of ten. A quantity is a 64-bit number with a
  decimal scale, or an unbounded decimal when that does not suffice. The theory shows that
  reading a non-negative quantity rounds up, so that nothing smaller than the amount comes
  out of it.
\<close>

record Decimal =
  Dec_unscaled :: int
  Dec_scale :: int \<comment> \<open>the value is \<open>unscaled\<close> times ten to the power of \<open>- scale\<close>\<close>

record int64Amount =
  amount_value :: int
  amount_scale :: int \<comment> \<open>the value is \<open>value\<close> times ten to the power of \<open>scale\<close>\<close>

record Quantity =
  q_i :: int64Amount
  q_d :: "Decimal option"

definition zero_quantity :: Quantity where
  "zero_quantity = \<lparr>q_i = \<lparr>amount_value = 0, amount_scale = 0\<rparr>, q_d = None\<rparr>"

definition Giga :: int where "Giga = 9"

definition mostNegative :: int where "mostNegative = - (2 ^ 63)"
definition maxInt64 :: int where "maxInt64 = 2 ^ 63 - 1"

section \<open>Scaling 64-bit numbers\<close>

text \<open>The variants of \<^verbatim>\<open>int64MultiplyScale\<close> for the factors 10, 100 and 1000 compute the same.\<close>

definition int64MultiplyScale :: "int \<Rightarrow> int \<Rightarrow> int \<times> bool" where
  "int64MultiplyScale a b =
     (if a = 0 \<or> a = 1 then (to_int64 (a * b), True)
      else if a = mostNegative \<and> b \<noteq> 1 then (0, False)
      else let c = to_int64 (a * b) in (c, c sdiv b = a))"

fun positiveScale_loop :: "int \<Rightarrow> nat \<Rightarrow> int \<times> bool" where
  "positiveScale_loop val 0 = (val, True)"
| "positiveScale_loop val (Suc n) =
     (case int64MultiplyScale val 10 of
        (val', ok) \<Rightarrow> if \<not> ok then (0, False) else positiveScale_loop val' n)"

definition positiveScaleInt64 :: "int \<Rightarrow> nat \<Rightarrow> int \<times> bool" where
  "positiveScaleInt64 base scale =
     (if scale = 0 then (base, True)
      else if scale = 1 then int64MultiplyScale base 10
      else if scale = 2 then int64MultiplyScale base 100
      else if scale = 3 then int64MultiplyScale base 1000
      else if scale = 6 then int64MultiplyScale base 1000000
      else if scale = 9 then int64MultiplyScale base 1000000000
      else positiveScale_loop base scale)"

fun negativeScale_loop :: "int \<Rightarrow> nat \<Rightarrow> int \<Rightarrow> bool \<Rightarrow> int \<times> bool" where
  "negativeScale_loop base 0 val fraction =
     (if fraction then (if base > 0 then val + 1 else val + - 1, False) else (val, True))"
| "negativeScale_loop base (Suc n) val fraction =
     (let fraction' = (fraction \<or> val smod 10 \<noteq> 0);
          val' = val sdiv 10
      in if val' = 0
         then (if fraction' then (if base > 0 then 1 else - 1, False) else (0, True))
         else negativeScale_loop base n val' fraction')"

definition negativeScaleInt64 :: "int \<Rightarrow> nat \<Rightarrow> int \<times> bool" where
  "negativeScaleInt64 base scale =
     (if scale = 0 then (base, True) else negativeScale_loop base scale base False)"

definition AsScaledInt64 :: "int64Amount \<Rightarrow> int \<Rightarrow> int \<times> bool" where
  "AsScaledInt64 a scale =
     (if amount_scale a < scale
      then (fst (negativeScaleInt64 (amount_value a) (nat (scale - amount_scale a))), True)
      else positiveScaleInt64 (amount_value a) (nat (amount_scale a - scale)))"

section \<open>Scaling decimals\<close>

text \<open>
  \<^verbatim>\<open>int64(math.Pow10(n))\<close>; a float too large for the type becomes the most negative
  number on the supported processors.
\<close>

definition pow10_int64 :: "int \<Rightarrow> int" where
  "pow10_int64 n = (if n \<le> 18 then 10 ^ nat n else mostNegative)"

definition scaledValue :: "int \<Rightarrow> int \<Rightarrow> int \<Rightarrow> int" where
  "scaledValue unscaled scale newScale =
     (let dif = scale - newScale
      in if dif = 0 then to_int64 unscaled
         else if dif < 0 then to_int64 (to_int64 unscaled * pow10_int64 (- dif))
         else if unscaled < maxInt64 \<and> dif < 19
         then (let divide = pow10_int64 dif;
                   result = to_int64 unscaled sdiv divide
               in if to_int64 unscaled smod divide \<noteq> 0 then to_int64 (result + 1) else result)
         else (let divisor = 10 ^ nat dif
               in if unscaled mod divisor \<noteq> 0 then to_int64 (to_int64 (unscaled div divisor) + 1)
                  else to_int64 (unscaled div divisor)))"

definition ScaledValue :: "Quantity \<Rightarrow> int \<Rightarrow> int" where
  "ScaledValue q scale =
     (case q_d q of
        None \<Rightarrow> fst (AsScaledInt64 (q_i q) scale)
      | Some dec \<Rightarrow> scaledValue (Dec_unscaled dec) (Dec_scale dec) (- scale))"

definition SetScaled :: "Quantity \<Rightarrow> int \<Rightarrow> int \<Rightarrow> Quantity" where
  "SetScaled q val scale = \<lparr>q_i = \<lparr>amount_value = val, amount_scale = scale\<rparr>, q_d = None\<rparr>"

section \<open>Rounding up\<close>

lemma sdiv_nonneg: "0 \<le> a \<Longrightarrow> 0 < b \<Longrightarrow> (a :: int) sdiv b = a div b"
  by (cases "a = 0") (simp_all add: signed_divide_int_def)

lemma smod_nonneg: "0 \<le> a \<Longrightarrow> 0 < b \<Longrightarrow> (a :: int) smod b = a mod b"
  by (cases "a = 0") (simp_all add: smod_int_alt_def)

definition ceil_div :: "int \<Rightarrow> int \<Rightarrow> int" where
  "ceil_div a b = a div b + (if a mod b \<noteq> 0 then 1 else 0)"

lemma ceil_div_upper:
  assumes "0 < b"
  shows "a \<le> ceil_div a b * b"
proof -
  have e: "a = a div b * b + a mod b" by (rule div_mult_mod_eq [symmetric])
  have "a mod b < b" using assms by simp
  with e have "a \<le> a div b * b + b" by linarith
  with e show ?thesis by (auto simp: ceil_div_def distrib_right)
qed

lemma ceil_div_least:
  assumes "0 < b" and "a \<le> n * b"
  shows "ceil_div a b \<le> n"
proof (cases "a mod b = 0")
  case True
  have "a div b \<le> n * b div b" using assms by (intro zdiv_mono1) auto
  with True assms(1) show ?thesis by (simp add: ceil_div_def)
next
  case False
  with assms(2) have "a < n * b" by (cases "a = n * b") auto
  moreover have "a div b * b \<le> a" using assms(1) by (simp add: minus_mod_eq_div_mult [symmetric])
  ultimately have "a div b * b < n * b" by linarith
  then have "a div b < n" using assms(1) by simp
  with False show ?thesis by (simp add: ceil_div_def)
qed

lemma negativeScale_loop_nonneg:
  assumes "0 < base" and "0 \<le> val"
  shows "fst (negativeScale_loop base n val fraction) =
    val div 10 ^ n + (if fraction \<or> val mod 10 ^ n \<noteq> 0 then 1 else 0)"
  using assms(2)
proof (induction n arbitrary: val fraction)
  case 0
  then show ?case using assms(1) by simp
next
  case (Suc n)
  have d: "val div 10 ^ Suc n = val div 10 div 10 ^ n"
    by (simp add: zdiv_zmult2_eq)
  have m: "val mod 10 ^ Suc n \<noteq> 0 \<longleftrightarrow> val mod 10 \<noteq> 0 \<or> val div 10 mod 10 ^ n \<noteq> 0"
    using Suc.prems by (simp add: zmod_zmult2_eq) (smt (verit) mult_nonneg_nonneg pos_mod_sign zero_less_power)
  show ?case
  proof (cases "val div 10 = 0")
    case True
    with Suc.prems d m assms(1) show ?thesis
      by (simp add: sdiv_nonneg smod_nonneg Let_def del: power_Suc)
  next
    case False
    with Suc.IH [of "val div 10"] Suc.prems d m show ?thesis
      by (auto simp: sdiv_nonneg smod_nonneg Let_def simp del: power_Suc)
  qed
qed

lemma negativeScaleInt64_nonneg:
  assumes "0 \<le> base"
  shows "fst (negativeScaleInt64 base n) = ceil_div base (10 ^ n)"
proof (cases "base = 0")
  case True
  then show ?thesis by (cases n) (simp_all add: negativeScaleInt64_def ceil_div_def sdiv_nonneg smod_nonneg)
next
  case False
  with assms negativeScale_loop_nonneg [of base base n False] show ?thesis
    by (auto simp: negativeScaleInt64_def ceil_div_def)
qed

lemma int64MultiplyScale_ok:
  assumes "is_int64 (a * b)" and "1 < b" and "is_int64 a"
  shows "int64MultiplyScale a b = (a * b, True)"
proof -
  have "a \<noteq> mostNegative"
  proof
    assume "a = mostNegative"
    moreover have "2 ^ 63 * 2 \<le> 2 ^ 63 * b" using assms(2) by simp
    ultimately have "a * b \<le> - (2 ^ 63 * 2)" by (simp add: mostNegative_def)
    with assms(1) show False by (simp add: is_int64_def)
  qed
  moreover have "a * b sdiv b = a"
    using assms(2) by (simp add: signed_divide_int_def sgn_mult abs_mult mult_sgn_abs)
  ultimately show ?thesis
    using assms by (simp add: int64MultiplyScale_def Let_def)
qed

lemma is_int64_factor: "is_int64 (a * b) \<Longrightarrow> 0 < b \<Longrightarrow> 0 \<le> a \<Longrightarrow> is_int64 a"
  unfolding is_int64_def by (smt (verit) mult_le_cancel_left1 mult_nonneg_nonneg)

lemma positiveScale_loop_ok:
  assumes "0 \<le> val" and "is_int64 (val * 10 ^ n)"
  shows "positiveScale_loop val n = (val * 10 ^ n, True)"
  using assms
proof (induction n arbitrary: val)
  case 0
  then show ?case by simp
next
  case (Suc n)
  have "is_int64 (val * 10 * 10 ^ n)" using Suc.prems(2) by (simp add: mult.assoc)
  moreover from this have v: "is_int64 (val * 10)" by (rule is_int64_factor) (use Suc.prems in auto)
  moreover from v have "is_int64 val" by (rule is_int64_factor) (use Suc.prems in auto)
  ultimately show ?case using Suc by (simp add: int64MultiplyScale_ok mult.assoc)
qed

lemma positiveScaleInt64_ok:
  assumes "0 \<le> val" and "is_int64 (val * 10 ^ n)"
  shows "positiveScaleInt64 val n = (val * 10 ^ n, True)"
proof -
  have "is_int64 val" using assms by (intro is_int64_factor [OF assms(2)]) auto
  with assms show ?thesis
    using int64MultiplyScale_ok [of val "10 ^ n"] positiveScale_loop_ok [OF assms]
    by (auto simp: positiveScaleInt64_def)
qed

lemma scaledValue_nonneg:
  assumes "0 \<le> u"
  shows "newScale < s \<Longrightarrow> is_int64 (ceil_div u (10 ^ nat (s - newScale))) \<Longrightarrow>
      scaledValue u s newScale = ceil_div u (10 ^ nat (s - newScale))"
    and "s \<le> newScale \<Longrightarrow> is_int64 (u * 10 ^ nat (newScale - s)) \<Longrightarrow> newScale - s \<le> 18 \<Longrightarrow>
      scaledValue u s newScale = u * 10 ^ nat (newScale - s)"
proof -
  assume s: "newScale < s" and r: "is_int64 (ceil_div u (10 ^ nat (s - newScale)))"
  let ?d = "10 ^ nat (s - newScale) :: int"
  have d: "0 < ?d" by simp
  show "scaledValue u s newScale = ceil_div u ?d"
  proof (cases "u < maxInt64 \<and> s - newScale < 19")
    case True
    with assms have "to_int64 u = u" by (intro to_int64_id) (simp add: is_int64_def maxInt64_def)
    with True s assms r d show ?thesis
      by (simp add: scaledValue_def Let_def pow10_int64_def sdiv_nonneg smod_nonneg ceil_div_def split: if_splits)
  next
    case False
    have "0 \<le> u div ?d" using assms d by (simp add: pos_imp_zdiv_nonneg_iff)
    with r have "is_int64 (u div ?d)" by (auto simp: ceil_div_def is_int64_def split: if_splits)
    with False s r show ?thesis
      by (auto simp: scaledValue_def Let_def ceil_div_def)
  qed
next
  assume "s \<le> newScale" and r: "is_int64 (u * 10 ^ nat (newScale - s))" and "newScale - s \<le> 18"
  moreover have "is_int64 u" using assms by (intro is_int64_factor [OF r]) auto
  ultimately show "scaledValue u s newScale = u * 10 ^ nat (newScale - s)"
    by (auto simp: scaledValue_def Let_def pow10_int64_def)
qed

text \<open>A quantity is a number times a power of ten; the two ways to hold it.\<close>

definition q_num :: "Quantity \<Rightarrow> int" where
  "q_num q = (case q_d q of None \<Rightarrow> amount_value (q_i q) | Some dec \<Rightarrow> Dec_unscaled dec)"

definition q_exp :: "Quantity \<Rightarrow> int" where
  "q_exp q = (case q_d q of None \<Rightarrow> amount_scale (q_i q) | Some dec \<Rightarrow> - Dec_scale dec)"

text \<open>The least number of units of ten to the power of \<open>scale\<close> that is not below the quantity.\<close>

definition units :: "Quantity \<Rightarrow> int \<Rightarrow> int" where
  "units q scale =
     (if q_exp q < scale then ceil_div (q_num q) (10 ^ nat (scale - q_exp q))
      else q_num q * 10 ^ nat (q_exp q - scale))"

lemma ScaledValue_units:
  assumes "0 \<le> q_num q" and "is_int64 (units q scale)" and "q_exp q - scale \<le> 18"
  shows "ScaledValue q scale = units q scale"
proof (cases "q_d q")
  case None
  with assms show ?thesis
    by (simp add: ScaledValue_def AsScaledInt64_def units_def q_num_def q_exp_def
        negativeScaleInt64_nonneg positiveScaleInt64_ok split: if_splits)
next
  case (Some dec)
  with assms show ?thesis
    using scaledValue_nonneg(1) [where u = "Dec_unscaled dec" and newScale = "- scale" and s = "Dec_scale dec"]
      scaledValue_nonneg(2) [where u = "Dec_unscaled dec" and newScale = "- scale" and s = "Dec_scale dec"]
    by (auto simp: ScaledValue_def units_def q_num_def q_exp_def add.commute
        minus_diff_commute [of scale "Dec_scale dec"] split: if_splits)
qed

end
