(* ===== verification/Volume_Driver.thy ===== *)
theory Volume_Driver
  imports Instances Map_Utils Go_Map Quantity
begin

text \<open>
  The volume part of the provider: \<^verbatim>\<open>pkg/cloudprovider/volume.go\<close> (the result of a
  volume operation and the interface) and
  \<^verbatim>\<open>pkg/cloudprovider/providers/aliyun/volume.go\<close> (disks attached, detached, mounted,
  provisioned and deleted).
\<close>

section \<open>Results of volume operations\<close>

definition StatusSuccess :: string where "StatusSuccess = ''Success''"
definition StatusFailure :: string where "StatusFailure = ''Failed''"
definition StatusNotSupported :: string where "StatusNotSupported = ''Not supported''"

record VolumeError =
  ve_Status :: string
  ve_Message :: string
  ve_DevicePath :: string
  ve_VolumeName :: string
  ve_Attached :: bool

definition volume_status :: "string \<Rightarrow> string \<Rightarrow> VolumeError" where
  "volume_status status msg =
     \<lparr>ve_Status = status, ve_Message = msg, ve_DevicePath = '''', ve_VolumeName = '''', ve_Attached = False\<rparr>"

definition VolumeError_Error :: "VolumeError \<Rightarrow> string" where
  "VolumeError_Error v = ve_Message v"

definition NewVolumeError :: "string \<Rightarrow> string list \<Rightarrow> VolumeError" where
  "NewVolumeError msg args = volume_status StatusFailure (sprintf msg args)"

definition NewVolumeNotSupported :: "string \<Rightarrow> VolumeError" where
  "NewVolumeNotSupported msg = volume_status StatusNotSupported msg"

definition NewVolumeSuccess :: VolumeError where
  "NewVolumeSuccess = volume_status StatusSuccess ''''"

definition VolumeSuccess :: VolumeError where
  "VolumeSuccess = NewVolumeSuccess"

section \<open>Options\<close>

text \<open>
  \<^verbatim>\<open>VolumeOptions\<close> is a decoded JSON object. A number is kept as its printed form, the
  only use the program has for it.
\<close>

datatype json =
    JNull
  | JBool bool
  | JNumber string
  | JString string
  | JArray "json list"
  | JObject "(string \<times> json) list"

type_synonym VolumeOptions = "json gomap"

definition opt_string :: "VolumeOptions \<Rightarrow> string \<Rightarrow> string" where
  "opt_string options key = (case map_of options key of Some (JString s) \<Rightarrow> s | _ \<Rightarrow> '''')"

definition opt_bool :: "VolumeOptions \<Rightarrow> string \<Rightarrow> bool" where
  "opt_bool options key = (case map_of options key of Some (JBool b) \<Rightarrow> b | _ \<Rightarrow> False)"

text \<open>The verb \<^verbatim>\<open>%+v\<close> on a decoded JSON value; \<open>ord\<close> is the iteration order of maps.\<close>

fun spaced :: "string list \<Rightarrow> string" where
  "spaced [] = ''''"
| "spaced [s] = s"
| "spaced (s # ss) = s @ '' '' @ spaced ss"

fun show_json :: "(string list \<Rightarrow> string list) \<Rightarrow> json \<Rightarrow> string" where
  "show_json ord JNull = ''<nil>''"
| "show_json ord (JBool b) = FormatBool b"
| "show_json ord (JNumber s) = s"
| "show_json ord (JString s) = s"
| "show_json ord (JArray js) = ''['' @ spaced (map (show_json ord) js) @ '']''"
| "show_json ord (JObject kvs) =
     (let shown = map (\<lambda>(k, v). (k, k @ '':'' @ show_json ord v)) kvs
      in ''map['' @ spaced (List.map_filter (map_of shown) (ord (map fst kvs))) @ '']'')"

section \<open>Constants and device names\<close>

definition OptionFSType :: string where "OptionFSType = ''kubernetes.io/fsType''"
definition OptionReadWrite :: string where "OptionReadWrite = ''kubernetes.io/readwrite''"
definition APIPrefix :: string where "APIPrefix = ''/dev/xvd''"
definition LocalPrefix :: string where "LocalPrefix = ''/dev/vd''"
definition DefaultFSType :: string where "DefaultFSType = ''ext4''"
definition DriverName :: string where "DriverName = ''aliyun/flexv''"
definition ProvisionerName_value :: string where "ProvisionerName_value = ''archon.kubeup.com/aliyun''"

definition DiskStatusInUse :: string where "DiskStatusInUse = ''In_use''"
definition DiskStatusAvailable :: string where "DiskStatusAvailable = ''Available''"
definition DiskStatusAttaching :: string where "DiskStatusAttaching = ''Attaching''"
definition DiskStatusDetaching :: string where "DiskStatusDetaching = ''Detaching''"

definition MinSizeTable :: "string \<rightharpoonup> int" where
  "MinSizeTable = map_of
     [(''cloud'', 5), (''ephemeral'', 5), (''ephemeral_ssd'', 20), (''cloud_efficiency'', 20), (''cloud_ssd'', 20)]"

definition deviceApi2Local :: "string \<Rightarrow> string" where
  "deviceApi2Local s = Replace1 s APIPrefix LocalPrefix"

definition deviceLocal2Api :: "string \<Rightarrow> string" where
  "deviceLocal2Api s = Replace1 s LocalPrefix APIPrefix"

definition sameDevice :: "string \<Rightarrow> string \<Rightarrow> bool" where
  "sameDevice a b \<longleftrightarrow> deviceApi2Local a = deviceApi2Local b"

section \<open>Looking disks up\<close>

definition first_page :: Pagination where
  "first_page = \<lparr>PageNumber = 0, PageSize = 50\<rparr>"

definition getDiskById :: "'w env \<Rightarrow> AliyunProvider \<Rightarrow> string \<Rightarrow> ('w, error + DiskItemType) go" where
  "getDiskById E p diskId =
     tryE (DescribeDisks E \<lparr>DescribeDisks_RegionId = p_region p, DescribeDisks_DiskIds = [diskId],
                            DescribeDisks_InstanceId = '''', DescribeDisks_Pagination = first_page\<rparr>)
       (\<lambda>(disks, _). case disks of
          d # _ \<Rightarrow> ret (Inr d)
        | [] \<Rightarrow> ret (Inl (sprintf ''DiskId %s is not found'' [diskId])))"

fun find_device :: "string \<Rightarrow> DiskItemType list \<Rightarrow> DiskItemType option" where
  "find_device device [] = None"
| "find_device device (disk # disks) =
     (if sameDevice (Device disk) device then Some disk else find_device device disks)"

text \<open>
  The loop of \<^verbatim>\<open>getDiskByDevice\<close> reads page after page until the answer says that the
  last one was reached. Nothing in the program bounds it; \<open>None\<close> is a run that does not end.
\<close>

partial_function (option) getDiskByDevice_loop ::
  "'w env \<Rightarrow> AliyunProvider \<Rightarrow> string \<Rightarrow> string \<Rightarrow> Pagination \<Rightarrow> 'w \<Rightarrow> ((error + DiskItemType) \<times> 'w) option" where
  "getDiskByDevice_loop E p instanceId device pg w =
     (case invoke_DescribeDisks E \<lparr>DescribeDisks_RegionId = p_region p, DescribeDisks_DiskIds = [],
             DescribeDisks_InstanceId = instanceId, DescribeDisks_Pagination = pg\<rparr> w of (r, w') \<Rightarrow>
       (case r of
          Inl err \<Rightarrow> Some (Inl err, w')
        | Inr (disks, pgr) \<Rightarrow>
           (case find_device device disks of
              Some disk \<Rightarrow> Some (Inr disk, w')
            | None \<Rightarrow>
               (case NextPage pgr of
                  None \<Rightarrow> Some (Inl (sprintf ''Device %s is not found in provider inventory'' [device]), w')
                | Some pg' \<Rightarrow> getDiskByDevice_loop E p instanceId device pg' w'))))"

definition getDiskByDevice ::
  "'w env \<Rightarrow> AliyunProvider \<Rightarrow> string \<Rightarrow> string \<Rightarrow> 'w \<Rightarrow> ((error + DiskItemType) \<times> 'w) option" where
  "getDiskByDevice E p instanceId device w = getDiskByDevice_loop E p instanceId device first_page w"

section \<open>Attaching and detaching\<close>

definition Init :: "AliyunProvider \<Rightarrow> ('w, VolumeError) go" where
  "Init p = ret VolumeSuccess"

text \<open>The common first part of \<^verbatim>\<open>Attach\<close> and \<^verbatim>\<open>Detach\<close>: the instance of the node.\<close>

definition target_instance ::
  "'w env \<Rightarrow> AliyunProvider \<Rightarrow> string \<Rightarrow> (string \<Rightarrow> ('w, VolumeError) go) \<Rightarrow> ('w, VolumeError) go" where
  "target_instance E p node k =
     (let cont = (\<lambda>instanceId.
        if instanceId = ''''
        then ret (NewVolumeError ''Failed to attach. No ALIYUN_INSTANCE is set and no node is provided.'' [])
        else k instanceId)
      in if node \<noteq> ''''
         then bnd (getInstanceByNodeName E p node) (\<lambda>r. case r of
                Inl err \<Rightarrow> ret (NewVolumeError ''Can't not get instanceId for node: %v %v'' [node, err])
              | Inr i \<Rightarrow> cont (InstanceId i))
         else cont (p_instance p))"

text \<open>
  \<^verbatim>\<open>Attach\<close> from the call of \<^verbatim>\<open>AttachDisk\<close> on. The result of \<^verbatim>\<open>WaitForDisk\<close> is
  dropped, as in the source.
\<close>

definition attach_disk ::
  "'w env \<Rightarrow> AliyunProvider \<Rightarrow> string \<Rightarrow> string \<Rightarrow> bool \<Rightarrow> ('w, VolumeError) go" where
  "attach_disk E p instanceId diskId deleteWithInstance =
     bnd (AttachDisk E \<lparr>AttachDisk_InstanceId = instanceId, AttachDisk_DiskId = diskId,
                        DeleteWithInstance = deleteWithInstance\<rparr>) (\<lambda>err. case err of
       Some e \<Rightarrow> ret (NewVolumeError e [])
     | None \<Rightarrow>
         bnd (WaitForDisk E (p_region p) diskId DiskStatusInUse 0) (\<lambda>_.
         bnd (getDiskById E p diskId) (\<lambda>r. case r of
           Inl e \<Rightarrow> ret (NewVolumeError e [])
         | Inr disk \<Rightarrow> ret (NewVolumeSuccess\<lparr>ve_DevicePath := deviceApi2Local (Device disk)\<rparr>))))"

definition Attach :: "'w env \<Rightarrow> AliyunProvider \<Rightarrow> VolumeOptions \<Rightarrow> string \<Rightarrow> ('w, VolumeError) go" where
  "Attach E p options node =
     target_instance E p node (\<lambda>instanceId.
       let diskId = opt_string options ''diskId''
       in if diskId = '''' then ret (NewVolumeError ''diskid is required'' [])
          else
            let deleteWithInstance = opt_bool options ''deleteWithInstance''
            in bnd (getDiskById E p diskId) (\<lambda>r. case r of
                 Inl err \<Rightarrow> ret (NewVolumeError ''Unable to get disk. %v'' [err])
               | Inr disk \<Rightarrow>
                   if Disk_Status disk = DiskStatusInUse
                   then if Disk_InstanceId disk = instanceId
                        then ret ((volume_status ''Success'' '''')
                               \<lparr>ve_DevicePath := deviceApi2Local (Device disk)\<rparr>)
                        else bnd (DetachDisk E (Disk_InstanceId disk) diskId) (\<lambda>err. case err of
                               Some e \<Rightarrow> ret (NewVolumeError
                                 ''Unable to attach disk: need to detach first but failed: %v'' [e])
                             | None \<Rightarrow>
                                 bnd (WaitForDisk E (p_region p) diskId DiskStatusAvailable 0) (\<lambda>_.
                                 attach_disk E p instanceId diskId deleteWithInstance))
                   else attach_disk E p instanceId diskId deleteWithInstance))"

definition Detach :: "'w env \<Rightarrow> AliyunProvider \<Rightarrow> string \<Rightarrow> string \<Rightarrow> ('w, VolumeError) go" where
  "Detach E p deviceName node =
     target_instance E p node (\<lambda>instanceId.
       bnd (getDiskById E p (path_Base deviceName)) (\<lambda>r. case r of
         Inl err \<Rightarrow> ret (NewVolumeError err [])
       | Inr disk \<Rightarrow>
           if Disk_Status disk = DiskStatusDetaching \<or> Disk_Status disk = DiskStatusAvailable
           then ret VolumeSuccess
           else if Disk_InstanceId disk \<noteq> instanceId then ret VolumeSuccess
           else bnd (DetachDisk E instanceId (DiskId disk)) (\<lambda>err. case err of
                  Some e \<Rightarrow> ret (NewVolumeError e [])
                | None \<Rightarrow> ret VolumeSuccess)))"

section \<open>Mounting\<close>

definition mount_flags :: "VolumeOptions \<Rightarrow> string list" where
  "mount_flags options =
     (let readwrite = opt_string options OptionReadWrite;
          flagstr = opt_string options ''flags'';
          flags = (if flagstr \<noteq> '''' then Split flagstr CHR '','' else [])
      in if readwrite \<noteq> '''' then flags @ [readwrite] else flags)"

definition MountDevice ::
  "'w env \<Rightarrow> AliyunProvider \<Rightarrow> string \<Rightarrow> string \<Rightarrow> VolumeOptions \<Rightarrow> ('w, VolumeError) go" where
  "MountDevice E p dir device options =
     bnd (bnd (call (env_PathMissing E dir)) (\<lambda>missing.
            if missing then call (env_MkdirAll E dir) else ret None)) (\<lambda>err. case err of
       Some e \<Rightarrow> ret (NewVolumeError e [])
     | None \<Rightarrow>
         bnd (call (env_FormatAndMount E device dir (opt_string options OptionFSType) (mount_flags options)))
           (\<lambda>err. case err of
              Some e \<Rightarrow> ret (NewVolumeError e [])
            | None \<Rightarrow> ret VolumeSuccess))"

definition UnmountDevice :: "'w env \<Rightarrow> AliyunProvider \<Rightarrow> string \<Rightarrow> ('w, VolumeError) go" where
  "UnmountDevice E p dir =
     bnd (call (env_Unmount E dir)) (\<lambda>err. case err of
       Some e \<Rightarrow> ret (NewVolumeError e [])
     | None \<Rightarrow> ret VolumeSuccess)"

section \<open>Queries\<close>

definition WaitForAttach :: "'w env \<Rightarrow> AliyunProvider \<Rightarrow> string \<Rightarrow> VolumeOptions \<Rightarrow> ('w, VolumeError) go" where
  "WaitForAttach E p device options =
     (if authorized p
      then bnd (getDiskById E p (opt_string options ''diskId'')) (\<lambda>r. case r of
             Inl err \<Rightarrow> ret (NewVolumeError err [])
           | Inr disk \<Rightarrow>
               bnd (WaitForDisk E (p_region p) (DiskId disk) DiskStatusInUse 0) (\<lambda>err. case err of
                 Some e \<Rightarrow> ret (NewVolumeError e [])
               | None \<Rightarrow> ret VolumeSuccess))
      else ret (NewVolumeNotSupported ''''))"

definition GetVolumeName :: "'w env \<Rightarrow> AliyunProvider \<Rightarrow> VolumeOptions \<Rightarrow> ('w, VolumeError) go" where
  "GetVolumeName E p options =
     (let diskId = opt_string options ''diskId''
      in if diskId = ''''
         then call (\<lambda>w. (NewVolumeError ''diskId is required, options: %+v''
                           [show_json (env_range_order E w) (JObject options)], w))
         else ret (NewVolumeSuccess\<lparr>ve_VolumeName := diskId\<rparr>))"

definition IsAttached :: "'w env \<Rightarrow> AliyunProvider \<Rightarrow> VolumeOptions \<Rightarrow> string \<Rightarrow> ('w, VolumeError) go" where
  "IsAttached E p options node =
     (if \<not> authorized p
      then ret (NewVolumeNotSupported ''Unable to check if a spec is attached without access key'')
      else
        let node' = (if node = ''localhost'' then p_hostname p else node)
        in bnd (getInstanceByNodeName E p node') (\<lambda>r. case r of
             Inl err \<Rightarrow> ret (NewVolumeError ''Can't not get instanceId for node: %v %v'' [node', err])
           | Inr i \<Rightarrow>
               let diskId = opt_string options ''diskId''
               in if diskId = '''' then ret (NewVolumeError ''diskid is required'' [])
                  else bnd (getDiskById E p diskId) (\<lambda>r. case r of
                         Inl err \<Rightarrow> ret (NewVolumeError err [])
                       | Inr disk \<Rightarrow>
                           ret (NewVolumeSuccess\<lparr>ve_Attached :=
                             Disk_InstanceId disk = InstanceId i \<and> Disk_Status disk = DiskStatusInUse\<rparr>))))"

section \<open>Provisioning\<close>

record StorageOptions =
  FSType :: string
  Category :: string

record PersistentVolumeClaimSpec =
  pvc_Selector :: "string option" \<comment> \<open>\<open>None\<close> for \<^verbatim>\<open>nil\<close>\<close>
  pvc_AccessModes :: "string list"
  pvc_Requests :: "string \<rightharpoonup> Quantity"
  pvc_StorageClassName :: "string option"

record ProvisionOptions = \<comment> \<open>\<^verbatim>\<open>pvcontroller.VolumeOptions\<close>\<close>
  po_ReclaimPolicy :: string
  po_PVName :: string
  po_PVC :: PersistentVolumeClaimSpec
  po_Parameters :: "(string \<rightharpoonup> string) option"

record FlexVolumeSource =
  fv_Driver :: string
  fv_Options :: "string \<rightharpoonup> string"

record PersistentVolume =
  pv_Name :: string
  pv_ReclaimPolicy :: string
  pv_AccessModes :: "string list"
  pv_Capacity :: "string \<rightharpoonup> Quantity"
  pv_StorageClassName :: string
  pv_FlexVolume :: "FlexVolumeSource option"

definition ReadWriteOnce :: string where "ReadWriteOnce = ''ReadWriteOnce''"
definition ResourceStorage :: string where "ResourceStorage = ''storage''"

definition storage_fields :: "StorageOptions \<Rightarrow> unit field list" where
  "storage_fields so =
     [\<lparr>F_Name = ''FSType'', F_Tag = ''fsType'', F_Exported = True, F_Predeclared = True, F_Value = VString (FSType so)\<rparr>,
      \<lparr>F_Name = ''Category'', F_Tag = ''diskCategory'', F_Exported = True, F_Predeclared = True,
       F_Value = VString (Category so)\<rparr>]"

fun storage_of_fields :: "unit field list \<Rightarrow> StorageOptions" where
  "storage_of_fields fs =
     (case map F_Value fs of
        [VString f, VString c] \<Rightarrow> \<lparr>FSType = f, Category = c\<rparr>
      | _ \<Rightarrow> \<lparr>FSType = DefaultFSType, Category = ''''\<rparr>)"

definition read_storage_options :: "(string \<rightharpoonup> string) option \<Rightarrow> StorageOptions" where
  "read_storage_options parameters =
     (case fst (MapToStruct (\<lambda>_ _. Inl ErrSyntax) parameters
                  (IPtr (storage_fields \<lparr>FSType = DefaultFSType, Category = ''''\<rparr>)) '''') of
        IPtr fs \<Rightarrow> storage_of_fields fs
      | _ \<Rightarrow> \<lparr>FSType = DefaultFSType, Category = ''''\<rparr>)"

fun has_mode :: "string list \<Rightarrow> bool \<Rightarrow> bool" where
  "has_mode [] found = found"
| "has_mode (mode # modes) found = has_mode modes (if mode = ReadWriteOnce then True else found)"

definition disk_size :: "string \<Rightarrow> Quantity \<Rightarrow> int" where
  "disk_size category capacity =
     (let size = ScaledValue capacity Giga;
          minSize = (case MinSizeTable category of Some n \<Rightarrow> n | None \<Rightarrow> 5)
      in if size < minSize then minSize else size)"

definition Provision ::
  "'w env \<Rightarrow> AliyunProvider \<Rightarrow> ProvisionOptions \<Rightarrow> ('w, error + PersistentVolume) go" where
  "Provision E p options =
     (let pvc = po_PVC options
      in if pvc_Selector pvc \<noteq> None then ret (Inl ''claim.Spec.Selector is not supported'')
         else if \<not> has_mode (pvc_AccessModes pvc) False
         then ret (Inl ''Aliyun disk only supports ReadWriteOnce mounts'')
         else
           let storageOptions = read_storage_options (po_Parameters options)
           in if Category storageOptions = ''''
              then ret (Inl ''diskCategory must be specified in storageClass'')
              else
                let capacity = (case pvc_Requests pvc ResourceStorage of Some q \<Rightarrow> q | None \<Rightarrow> zero_quantity);
                    size = disk_size (Category storageOptions) capacity
                in bnd (CreateDisk E \<lparr>CreateDisk_RegionId = p_region p, CreateDisk_ZoneId = p_zone p,
                                      CreateDisk_DiskCategory = Category storageOptions,
                                      CreateDisk_DiskName = po_PVName options, CreateDisk_Size = size\<rparr>)
                     (\<lambda>r. case r of
                        Inl err \<Rightarrow> ret (Inl (sprintf ''Failed to call Aliyun CreateDisk: %v'' [err]))
                      | Inr diskId \<Rightarrow>
                          ret (Inr \<lparr>pv_Name = po_PVName options,
                                    pv_ReclaimPolicy = po_ReclaimPolicy options,
                                    pv_AccessModes = [ReadWriteOnce],
                                    pv_Capacity = [ResourceStorage \<mapsto> SetScaled capacity size Giga],
                                    pv_StorageClassName =
                                      (case pvc_StorageClassName pvc of Some s \<Rightarrow> s | None \<Rightarrow> ''''),
                                    pv_FlexVolume = Some \<lparr>fv_Driver = DriverName,
                                                          fv_Options = [''diskId'' \<mapsto> diskId]\<rparr>\<rparr>)))"

text \<open>\<^verbatim>\<open>Delete\<close>; \<open>show_pv\<close> and \<open>show_fv\<close> print the API objects in the error texts.\<close>

definition Delete ::
  "'w env \<Rightarrow> (PersistentVolume \<Rightarrow> string) \<Rightarrow> (FlexVolumeSource \<Rightarrow> string) \<Rightarrow> AliyunProvider \<Rightarrow>
   PersistentVolume \<Rightarrow> ('w, error option) go" where
  "Delete E show_pv show_fv p pv =
     (case pv_FlexVolume pv of
        None \<Rightarrow> ret (Some (sprintf ''No flexvolume is provided: %+v'' [show_pv pv]))
      | Some fv \<Rightarrow>
          let diskId = (case fv_Options fv ''diskId'' of Some s \<Rightarrow> s | None \<Rightarrow> '''')
          in if diskId = '''' then ret (Some (sprintf ''No diskId in the flexvolume: %+v'' [show_fv fv]))
             else bnd (DeleteDisk E diskId) (\<lambda>err. case err of
                    Some e \<Rightarrow> ret (Some (sprintf ''Error deleting disk: %v'' [e]))
                  | None \<Rightarrow> ret None))"

definition ProvisionerName :: "AliyunProvider \<Rightarrow> string" where
  "ProvisionerName p = ProvisionerName_value"

end
