(* ===== verification/Volume_Laws.thy ===== *)
theory Volume_Laws
  imports Volume_Driver
begin

text \<open>
  Properties of the volume operations: every operation returns a result with one of the
  three known statuses; device names; what attaching and detaching do to the disks of a
  cloud with the documented behaviour; the paged search for a device; provisioning.
\<close>

section \<open>Every operation returns\<close>

definition known_status :: "VolumeError \<Rightarrow> bool" where
  "known_status v \<longleftrightarrow> ve_Status v = StatusSuccess \<or> ve_Status v = StatusFailure \<or> ve_Status v = StatusNotSupported"

lemma known_status_simps [simp]:
  "known_status (NewVolumeError msg args)" "known_status (NewVolumeNotSupported msg)"
  "known_status VolumeSuccess" "known_status NewVolumeSuccess" "known_status (volume_status ''Success'' msg)"
  "known_status (v\<lparr>ve_DevicePath := d\<rparr>) = known_status v" "known_status (v\<lparr>ve_VolumeName := n\<rparr>) = known_status v"
  "known_status (v\<lparr>ve_Attached := b\<rparr>) = known_status v"
  by (simp_all add: known_status_def NewVolumeError_def NewVolumeNotSupported_def VolumeSuccess_def
      NewVolumeSuccess_def volume_status_def StatusSuccess_def)

lemma getInstanceByNodeName_any [returns_intros]: "returns (\<lambda>_. True) (getInstanceByNodeName E p n)"
  unfolding returns_def simp_thms by (intro allI getInstanceByNodeName_returns)

lemma getDiskById_any [returns_intros]: "returns (\<lambda>_. True) (getDiskById E p diskId)"
  unfolding getDiskById_def client_defs by (auto intro!: returns_intros split: list.splits prod.splits)

lemma target_instance_status:
  "(\<And>i. returns known_status (k i)) \<Longrightarrow> returns known_status (target_instance E p node k)"
  unfolding target_instance_def Let_def by (auto intro!: returns_intros split: sum.splits)

lemma attach_disk_status: "returns known_status (attach_disk E p i d b)"
  unfolding attach_disk_def client_defs by (auto intro!: returns_intros split: option.splits sum.splits)

lemma volume_statuses:
  "returns known_status (Init p)"
  "returns known_status (Attach E p options node)"
  "returns known_status (Detach E p deviceName node)"
  "returns known_status (MountDevice E p dir device options)"
  "returns known_status (UnmountDevice E p dir)"
  "returns known_status (WaitForAttach E p device options)"
  "returns known_status (GetVolumeName E p options)"
  "returns known_status (IsAttached E p options node)"
proof -
  show "returns known_status (Attach E p options node)"
    unfolding Attach_def client_defs Let_def
    by (auto intro!: target_instance_status returns_intros attach_disk_status split: option.splits sum.splits)
  show "returns known_status (Detach E p deviceName node)"
    unfolding Detach_def client_defs
    by (auto intro!: target_instance_status returns_intros split: option.splits sum.splits)
  show "returns known_status (GetVolumeName E p options)"
    unfolding GetVolumeName_def Let_def by (auto intro!: returns_intros returns_call)
qed (auto simp: Init_def MountDevice_def UnmountDevice_def WaitForAttach_def IsAttached_def Let_def
      intro!: returns_intros split: option.splits sum.splits)

section \<open>Device names\<close>

lemma deviceApi2Local_api [simp]: "deviceApi2Local (APIPrefix @ s) = LocalPrefix @ s"
  by (simp add: deviceApi2Local_def APIPrefix_def)

lemma deviceLocal2Api_local [simp]: "deviceLocal2Api (LocalPrefix @ s) = APIPrefix @ s"
  by (simp add: deviceLocal2Api_def LocalPrefix_def)

lemma sameDevice_equiv: "equivp sameDevice"
  by (auto simp: sameDevice_def intro!: equivpI reflpI sympI transpI)

section \<open>Disks\<close>

text \<open>
  The disks of the cloud by identifier, and what the requests do to them: a disk is
  attached only when it is available, attaching and detaching may take a while, and while
  time passes a disk that is attached, or on the way, stays with its instance.
\<close>

record disk_state =
  ds_status :: string
  ds_instance :: string
  ds_device :: string

type_synonym 'w disk_view = "'w \<Rightarrow> string \<rightharpoonup> disk_state"

definition attached_status :: "string \<Rightarrow> bool" where
  "attached_status s \<longleftrightarrow> s = DiskStatusAttaching \<or> s = DiskStatusInUse"

definition released_status :: "string \<Rightarrow> bool" where
  "released_status s \<longleftrightarrow> s = DiskStatusDetaching \<or> s = DiskStatusAvailable"

definition disk_item :: "string \<Rightarrow> disk_state \<Rightarrow> DiskItemType" where
  "disk_item diskId st =
     \<lparr>DiskId = diskId, Disk_Status = ds_status st, Disk_InstanceId = ds_instance st, Device = ds_device st\<rparr>"

definition describes_disks :: "'w env \<Rightarrow> 'w disk_view \<Rightarrow> bool" where
  "describes_disks E dks \<longleftrightarrow>
     (\<forall>args w r w'. invoke_DescribeDisks E args w = (r, w') \<longrightarrow>
        dks w' = dks w \<and>
        (\<forall>diskId ds pg. DescribeDisks_DiskIds args = [diskId] \<longrightarrow> r = Inr (ds, pg) \<longrightarrow>
           ds = (case dks w diskId of None \<Rightarrow> [] | Some st \<Rightarrow> [disk_item diskId st])))"

definition attaches_disks :: "'w env \<Rightarrow> 'w disk_view \<Rightarrow> bool" where
  "attaches_disks E dks \<longleftrightarrow>
     (\<forall>args w r w'. invoke_AttachDisk E args w = (r, w') \<longrightarrow>
        (case r of
           Some _ \<Rightarrow> dks w' = dks w
         | None \<Rightarrow> (\<exists>st st'. dks w (AttachDisk_DiskId args) = Some st \<and> ds_status st = DiskStatusAvailable \<and>
             attached_status (ds_status st') \<and> ds_instance st' = AttachDisk_InstanceId args \<and>
             dks w' = (dks w)(AttachDisk_DiskId args \<mapsto> st'))))"

definition detaches_disks :: "'w env \<Rightarrow> 'w disk_view \<Rightarrow> bool" where
  "detaches_disks E dks \<longleftrightarrow>
     (\<forall>args w r w'. invoke_DetachDisk E args w = (r, w') \<longrightarrow>
        (case r of
           Some _ \<Rightarrow> dks w' = dks w
         | None \<Rightarrow> (\<exists>st st'. dks w (DetachDisk_DiskId args) = Some st \<and> ds_instance st = DetachDisk_InstanceId args \<and>
             released_status (ds_status st') \<and> dks w' = (dks w)(DetachDisk_DiskId args \<mapsto> st'))))"

definition disks_settle :: "'w env \<Rightarrow> 'w disk_view \<Rightarrow> bool" where
  "disks_settle E dks \<longleftrightarrow>
     (\<forall>t w diskId st. dks w diskId = Some st \<longrightarrow> attached_status (ds_status st) \<longrightarrow>
        (\<exists>st'. dks (env_Sleep E t w) diskId = Some st' \<and> attached_status (ds_status st') \<and>
               ds_instance st' = ds_instance st))"

definition disk_contract :: "'w env \<Rightarrow> 'w disk_view \<Rightarrow> bool" where
  "disk_contract E dks \<longleftrightarrow>
     describes_disks E dks \<and> attaches_disks E dks \<and> detaches_disks E dks \<and> disks_settle E dks \<and>
     (\<forall>args w. dks (snd (invoke_DescribeInstances E args w)) = dks w)"

text \<open>The instance an operation works on.\<close>

definition instance_of_node :: "'w env \<Rightarrow> AliyunProvider \<Rightarrow> string \<Rightarrow> 'w \<Rightarrow> string option" where
  "instance_of_node E p node w =
     (if node = '''' then Some (p_instance p)
      else (case fst (getInstanceByNodeName E p node w) of Ret (Inr i) \<Rightarrow> Some (InstanceId i) | _ \<Rightarrow> None))"

definition attached_to :: "'w disk_view \<Rightarrow> 'w \<Rightarrow> string \<Rightarrow> string \<Rightarrow> bool" where
  "attached_to dks w diskId iid \<longleftrightarrow>
     (\<exists>st. dks w diskId = Some st \<and> attached_status (ds_status st) \<and> ds_instance st = iid)"

lemma disk_contractD:
  assumes "disk_contract E dks"
  shows "describes_disks E dks" and "attaches_disks E dks" and "detaches_disks E dks" and "disks_settle E dks"
    and "dks (snd (invoke_DescribeInstances E args w)) = dks w"
  using assms by (simp_all add: disk_contract_def)

lemma getInstanceByNodeName_disks:
  assumes "disk_contract E dks" and "getInstanceByNodeName E p n w = (r, w')"
  shows "dks w' = dks w"
proof -
  have "keeps (\<lambda>w. dks w = dks w0) (getInstanceByNodeName E p n)" for w0
    using disk_contractD(5) [OF assms(1)]
    by (auto simp: getInstanceByNodeName_eq getInstances_def client_defs intro!: keeps_intros keeps_call)
  from keepsD [OF this refl assms(2)] show ?thesis .
qed

lemma getDiskById_disks:
  assumes "describes_disks E dks" and "getDiskById E p diskId w = (r, w')"
  shows "dks w' = dks w" and "r = Ret (Inr d) \<Longrightarrow> \<exists>st. dks w diskId = Some st \<and> d = disk_item diskId st"
proof -
  let ?args = "\<lparr>DescribeDisks_RegionId = p_region p, DescribeDisks_DiskIds = [diskId],
    DescribeDisks_InstanceId = '''', DescribeDisks_Pagination = first_page\<rparr>"
  obtain x w1 where c: "invoke_DescribeDisks E ?args w = (x, w1)" by fastforce
  with assms(1) have v: "dks w1 = dks w"
    "\<forall>ds pg. x = Inr (ds, pg) \<longrightarrow> ds = (case dks w diskId of None \<Rightarrow> [] | Some st \<Rightarrow> [disk_item diskId st])"
    unfolding describes_disks_def by (blast, fastforce)
  have w1: "w' = w1" and r: "r = Ret (Inr d) \<Longrightarrow> \<exists>ds pg. x = Inr (d # ds, pg)" for d
    using assms(2) c by (auto simp: getDiskById_def client_defs go_defs split: sum.splits list.splits)
  from w1 v show "dks w' = dks w" by simp
  assume "r = Ret (Inr d)"
  with r obtain ds pg where "x = Inr (d # ds, pg)" by blast
  with v show "\<exists>st. dks w diskId = Some st \<and> d = disk_item diskId st"
    by (auto split: option.splits)
qed

lemma WaitForDisk_keeps_attached:
  assumes "disk_contract E dks"
  shows "keeps (\<lambda>w. attached_to dks w diskId iid) (WaitForDisk E region d status timeout)"
proof -
  have sleep: "keeps (\<lambda>w. attached_to dks w diskId iid) (effect (env_Sleep E t))" for t
    using disk_contractD(4) [OF assms] unfolding disks_settle_def attached_to_def
    by (intro keeps_effect) fastforce
  have desc: "keeps (\<lambda>w. attached_to dks w diskId iid) (DescribeDisks E args)" for args
    unfolding client_defs
  proof (rule keeps_call)
    fix w assume "attached_to dks w diskId iid"
    moreover have "dks (snd (invoke_DescribeDisks E args w)) = dks w"
      using disk_contractD(1) [OF assms] unfolding describes_disks_def by (metis prod.collapse)
    ultimately show "attached_to dks (snd (invoke_DescribeDisks E args w)) diskId iid" by (simp add: attached_to_def)
  qed
  show ?thesis by (rule WaitForDisk_keeps [OF desc sleep])
qed

lemma status_distinct [simp]:
  "StatusFailure \<noteq> StatusSuccess" "StatusNotSupported \<noteq> StatusSuccess"
  "ve_Status (NewVolumeError msg args) \<noteq> StatusSuccess"
  "ve_Status (NewVolumeError msg args) = StatusFailure"
  "ve_Status VolumeSuccess = StatusSuccess" "ve_Status NewVolumeSuccess = StatusSuccess"
  by (simp_all add: NewVolumeError_def VolumeSuccess_def NewVolumeSuccess_def volume_status_def
      StatusSuccess_def StatusFailure_def StatusNotSupported_def)

lemma target_instance_success:
  assumes c: "disk_contract E dks"
    and run: "target_instance E p node k w = (Ret v, w')" and ok: "ve_Status v = StatusSuccess"
  obtains iid wi where "instance_of_node E p node w = Some iid" and "dks wi = dks w" and "iid \<noteq> ''''"
    and "k iid wi = (Ret v, w')"
proof (cases "node = ''''")
  case True
  with run ok that [of "p_instance p" w] show thesis
    by (auto simp: target_instance_def instance_of_node_def split: if_splits)
next
  case False
  with run obtain r wi where g: "getInstanceByNodeName E p node w = (Ret r, wi)"
    and rest: "(case r of Inl err \<Rightarrow> ret (NewVolumeError ''Can't not get instanceId for node: %v %v'' [node, err])
      | Inr i \<Rightarrow> if InstanceId i = '''' then ret (NewVolumeError
            ''Failed to attach. No ALIYUN_INSTANCE is set and no node is provided.'' []) else k (InstanceId i)) wi = (Ret v, w')"
    by (auto simp: target_instance_def Let_def)
  from rest ok obtain i where "r = Inr i" "InstanceId i \<noteq> ''''" "k (InstanceId i) wi = (Ret v, w')"
    by (cases r) (auto split: if_splits)
  with that [of "InstanceId i" wi] g False getInstanceByNodeName_disks [OF c g] show thesis
    by (simp add: instance_of_node_def)
qed

lemma attach_disk_success:
  assumes c: "disk_contract E dks"
    and run: "attach_disk E p iid diskId b w = (Ret v, w')" and ok: "ve_Status v = StatusSuccess"
  shows "\<exists>st. dks w' diskId = Some st \<and> attached_status (ds_status st) \<and> ds_instance st = iid \<and>
    ve_DevicePath v = deviceApi2Local (ds_device st)"
proof -
  from run ok obtain w1 x w2 d where
    a: "invoke_AttachDisk E \<lparr>AttachDisk_InstanceId = iid, AttachDisk_DiskId = diskId, DeleteWithInstance = b\<rparr> w = (None, w1)" and
    l: "WaitForDisk E (p_region p) diskId DiskStatusInUse 0 w1 = (Ret x, w2)" and
    g: "getDiskById E p diskId w2 = (Ret (Inr d), w')" and
    v: "v = NewVolumeSuccess\<lparr>ve_DevicePath := deviceApi2Local (Device d)\<rparr>"
    by (auto simp: attach_disk_def AttachDisk_def split: option.splits sum.splits)
  from disk_contractD(2) [OF c] a have "attached_to dks w1 diskId iid"
    unfolding attaches_disks_def attached_to_def by fastforce
  from keepsD [OF WaitForDisk_keeps_attached [OF c] this l] have at: "attached_to dks w2 diskId iid" .
  from getDiskById_disks [OF disk_contractD(1) [OF c] g] obtain st where
    "dks w' = dks w2" "dks w2 diskId = Some st" "d = disk_item diskId st" by blast
  with at v show ?thesis by (auto simp: attached_to_def disk_item_def)
qed

lemma Attach_success:
  assumes c: "disk_contract E dks"
    and run: "Attach E p options node w = (Ret v, w')" and ok: "ve_Status v = StatusSuccess"
  shows "\<exists>iid st. instance_of_node E p node w = Some iid \<and> dks w' (opt_string options ''diskId'') = Some st \<and>
    attached_status (ds_status st) \<and> ds_instance st = iid \<and> ve_DevicePath v = deviceApi2Local (ds_device st)"
proof -
  let ?d = "opt_string options ''diskId''" and ?b = "opt_bool options ''deleteWithInstance''"
  obtain iid wi where i: "instance_of_node E p node w = Some iid" and wi: "dks wi = dks w" and "iid \<noteq> ''''"
    and k: "(if ?d = '''' then ret (NewVolumeError ''diskid is required'' [])
       else bnd (getDiskById E p ?d) (\<lambda>r. case r of
                 Inl err \<Rightarrow> ret (NewVolumeError ''Unable to get disk. %v'' [err])
               | Inr disk \<Rightarrow>
                   if Disk_Status disk = DiskStatusInUse
                   then if Disk_InstanceId disk = iid
                        then ret ((volume_status ''Success'' '''')
                               \<lparr>ve_DevicePath := deviceApi2Local (Device disk)\<rparr>)
                        else bnd (DetachDisk E (Disk_InstanceId disk) ?d) (\<lambda>err. case err of
                               Some e \<Rightarrow> ret (NewVolumeError
                                 ''Unable to attach disk: need to detach first but failed: %v'' [e])
                             | None \<Rightarrow>
                                 bnd (WaitForDisk E (p_region p) ?d DiskStatusAvailable 0) (\<lambda>_.
                                 attach_disk E p iid ?d ?b))
                   else attach_disk E p iid ?d ?b)) wi = (Ret v, w')"
    by (rule target_instance_success [OF c run [unfolded Attach_def Let_def] ok])
  from k ok obtain disk w1 where g: "getDiskById E p ?d wi = (Ret (Inr disk), w1)"
    and rest: "(if Disk_Status disk = DiskStatusInUse
                   then if Disk_InstanceId disk = iid
                        then ret ((volume_status ''Success'' '''')
                               \<lparr>ve_DevicePath := deviceApi2Local (Device disk)\<rparr>)
                        else bnd (DetachDisk E (Disk_InstanceId disk) ?d) (\<lambda>err. case err of
                               Some e \<Rightarrow> ret (NewVolumeError
                                 ''Unable to attach disk: need to detach first but failed: %v'' [e])
                             | None \<Rightarrow>
                                 bnd (WaitForDisk E (p_region p) ?d DiskStatusAvailable 0) (\<lambda>_.
                                 attach_disk E p iid ?d ?b))
                   else attach_disk E p iid ?d ?b) w1 = (Ret v, w')"
    by (auto split: if_split_asm sum.splits)
  from rest ok have cases: "Disk_Status disk = DiskStatusInUse \<and> Disk_InstanceId disk = iid \<and> w' = w1 \<and>
        ve_DevicePath v = deviceApi2Local (Device disk) \<or> (\<exists>w2. attach_disk E p iid ?d ?b w2 = (Ret v, w'))"
    by (auto split: if_splits option.splits)
  from getDiskById_disks [OF disk_contractD(1) [OF c] g] obtain st where
    "dks w1 = dks wi" "dks wi ?d = Some st" "disk = disk_item ?d st" by blast
  with cases i wi attach_disk_success [OF c _ ok] show ?thesis
    by (auto simp: disk_item_def attached_status_def)
qed

lemma target_instance_cases:
  assumes c: "disk_contract E dks" and run: "target_instance E p node k w = (r, w')"
  shows "dks w' = dks w \<or>
    (\<exists>iid wi. instance_of_node E p node w = Some iid \<and> dks wi = dks w \<and> k iid wi = (r, w'))"
proof (cases "node = ''''")
  case True
  with run show ?thesis
    by (auto simp: target_instance_def instance_of_node_def split: if_splits)
next
  case False
  obtain x wi where g: "getInstanceByNodeName E p node w = (Ret x, wi)"
    using getInstanceByNodeName_returns [of E p node w] by blast
  with False run getInstanceByNodeName_disks [OF c g] show ?thesis
    by (cases x) (auto simp: target_instance_def instance_of_node_def Let_def bnd_def split: if_splits)
qed

text \<open>A disk that is in use on the instance already is left alone.\<close>

lemma Attach_idempotent:
  assumes c: "disk_contract E dks" and i: "instance_of_node E p node w = Some iid"
    and d: "dks w (opt_string options ''diskId'') = Some st" "ds_status st = DiskStatusInUse" "ds_instance st = iid"
    and run: "Attach E p options node w = (r, w')"
  shows "dks w' = dks w"
proof -
  let ?d = "opt_string options ''diskId''"
  have "dks w' = dks w" if wi: "dks wi = dks w" and g: "getDiskById E p ?d wi = (Ret x, w1)"
    and k: "(case x of Inl err \<Rightarrow> ret (NewVolumeError ''Unable to get disk. %v'' [err])
        | Inr disk \<Rightarrow> if Disk_Status disk = DiskStatusInUse
            then if Disk_InstanceId disk = iid
              then ret ((volume_status ''Success'' '''')\<lparr>ve_DevicePath := deviceApi2Local (Device disk)\<rparr>)
              else f disk else h disk) w1 = (r, w')" for wi x w1 f h
  proof (cases x)
    case (Inl e)
    with wi k getDiskById_disks(1) [OF disk_contractD(1) [OF c] g] show ?thesis by simp
  next
    case (Inr disk)
    with getDiskById_disks(2) [OF disk_contractD(1) [OF c] g, of disk] wi d
    have "disk = disk_item ?d st" by simp
    with Inr wi k d getDiskById_disks(1) [OF disk_contractD(1) [OF c] g] show ?thesis by (simp add: disk_item_def)
  qed
  note core = this
  from target_instance_cases [OF c run [unfolded Attach_def Let_def]] i
  consider "dks w' = dks w" | wi where "dks wi = dks w"
    "(if ?d = '''' then ret (NewVolumeError ''diskid is required'' []) else bnd (getDiskById E p ?d)
       (\<lambda>r. case r of Inl err \<Rightarrow> ret (NewVolumeError ''Unable to get disk. %v'' [err])
        | Inr disk \<Rightarrow> if Disk_Status disk = DiskStatusInUse
            then if Disk_InstanceId disk = iid
              then ret ((volume_status ''Success'' '''')\<lparr>ve_DevicePath := deviceApi2Local (Device disk)\<rparr>)
              else bnd (DetachDisk E (Disk_InstanceId disk) ?d) (\<lambda>err. case err of
                     Some e \<Rightarrow> ret (NewVolumeError
                       ''Unable to attach disk: need to detach first but failed: %v'' [e])
                   | None \<Rightarrow> bnd (WaitForDisk E (p_region p) ?d DiskStatusAvailable 0) (\<lambda>_.
                       attach_disk E p iid ?d (opt_bool options ''deleteWithInstance'')))
            else attach_disk E p iid ?d (opt_bool options ''deleteWithInstance''))) wi = (r, w')"
    by auto
  then show ?thesis
  proof cases
    case 2
    obtain x w1 where g: "getDiskById E p ?d wi = (Ret x, w1)"
      using returnsD [OF getDiskById_any, of E p ?d wi] by blast
    show ?thesis
    proof (cases "?d = ''''")
      case True
      with 2 show ?thesis by simp
    next
      case False
      with 2(2) g show ?thesis by (intro core [OF 2(1) g]) (simp add: bnd_def)
    qed
  qed
qed

lemma Detach_success:
  assumes c: "disk_contract E dks"
    and run: "Detach E p deviceName node w = (Ret v, w')" and ok: "ve_Status v = StatusSuccess"
  shows "\<exists>iid st. instance_of_node E p node w = Some iid \<and> dks w' (path_Base deviceName) = Some st \<and>
    (released_status (ds_status st) \<or> ds_instance st \<noteq> iid)"
proof -
  let ?d = "path_Base deviceName"
  obtain iid wi where i: "instance_of_node E p node w = Some iid" and wi: "dks wi = dks w" and "iid \<noteq> ''''"
    and k: "bnd (getDiskById E p ?d) (\<lambda>r. case r of
         Inl err \<Rightarrow> ret (NewVolumeError err [])
       | Inr disk \<Rightarrow>
           if Disk_Status disk = DiskStatusDetaching \<or> Disk_Status disk = DiskStatusAvailable
           then ret VolumeSuccess
           else if Disk_InstanceId disk \<noteq> iid then ret VolumeSuccess
           else bnd (DetachDisk E iid (DiskId disk)) (\<lambda>err. case err of
                  Some e \<Rightarrow> ret (NewVolumeError e [])
                | None \<Rightarrow> ret VolumeSuccess)) wi = (Ret v, w')"
    by (rule target_instance_success [OF c run [unfolded Detach_def] ok])
  from k ok obtain disk w1 where g: "getDiskById E p ?d wi = (Ret (Inr disk), w1)"
    and cases: "released_status (Disk_Status disk) \<and> w' = w1 \<or> Disk_InstanceId disk \<noteq> iid \<and> w' = w1 \<or>
        invoke_DetachDisk E \<lparr>DetachDisk_InstanceId = iid, DetachDisk_DiskId = DiskId disk\<rparr> w1 = (None, w')"
    by (auto simp: released_status_def DetachDisk_def split: if_splits sum.splits option.splits)
  from getDiskById_disks [OF disk_contractD(1) [OF c] g] obtain st where
    st: "dks w1 = dks wi" "dks wi ?d = Some st" "disk = disk_item ?d st" by blast
  have "\<exists>st'. dks w' ?d = Some st' \<and> released_status (ds_status st')"
    if "invoke_DetachDisk E \<lparr>DetachDisk_InstanceId = iid, DetachDisk_DiskId = ?d\<rparr> w1 = (None, w')"
    using disk_contractD(3) [OF c] that unfolding detaches_disks_def by fastforce
  with cases st i show ?thesis by (auto simp: disk_item_def)
qed

text \<open>Detaching touches no disk but the named one, and that only on the instance of the node.\<close>

lemma Detach_safe:
  assumes c: "disk_contract E dks" and run: "Detach E p deviceName node w = (r, w')"
    and d: "dks w' diskId \<noteq> dks w diskId"
  shows "diskId = path_Base deviceName \<and>
    (\<exists>st iid. dks w diskId = Some st \<and> instance_of_node E p node w = Some iid \<and> ds_instance st = iid)"
proof -
  let ?d = "path_Base deviceName"
  from target_instance_cases [OF c run [unfolded Detach_def]] d obtain iid wi where
    i: "instance_of_node E p node w = Some iid" and wi: "dks wi = dks w"
    and k: "bnd (getDiskById E p ?d) (\<lambda>r. case r of
         Inl err \<Rightarrow> ret (NewVolumeError err [])
       | Inr disk \<Rightarrow>
           if Disk_Status disk = DiskStatusDetaching \<or> Disk_Status disk = DiskStatusAvailable
           then ret VolumeSuccess
           else if Disk_InstanceId disk \<noteq> iid then ret VolumeSuccess
           else bnd (DetachDisk E iid (DiskId disk)) (\<lambda>err. case err of
                  Some e \<Rightarrow> ret (NewVolumeError e [])
                | None \<Rightarrow> ret VolumeSuccess)) wi = (r, w')"
    by auto
  obtain x w1 where g: "getDiskById E p ?d wi = (Ret x, w1)"
    using returnsD [OF getDiskById_any, of E p ?d wi] by blast
  note v = getDiskById_disks [OF disk_contractD(1) [OF c] g]
  from k g d wi v(1) obtain disk where x: "x = Inr disk" and iid: "Disk_InstanceId disk = iid"
    and k2: "bnd (DetachDisk E iid (DiskId disk)) (\<lambda>err. case err of
                  Some e \<Rightarrow> ret (NewVolumeError e []) | None \<Rightarrow> ret VolumeSuccess) w1 = (r, w')"
    by (cases x) (auto simp: bnd_def [of "getDiskById E p ?d"] split: if_splits)
  from v(2) x obtain st where st: "dks wi ?d = Some st" "disk = disk_item ?d st" by auto
  obtain y where y: "invoke_DetachDisk E \<lparr>DetachDisk_InstanceId = iid, DetachDisk_DiskId = ?d\<rparr> w1 = (y, w')"
    using k2 st(2) by (auto simp: DetachDisk_def disk_item_def bnd_def call_def split: prod.splits option.splits)
  with disk_contractD(3) [OF c] have "dks w' = dks w1 \<or> (\<exists>st'. dks w' = (dks w1)(?d \<mapsto> st'))"
    unfolding detaches_disks_def by (cases y) fastforce+
  with d v(1) wi have "diskId = ?d" by (auto split: if_splits)
  with st iid i wi show ?thesis by (simp add: disk_item_def)
qed

section \<open>Searching for a device\<close>

text \<open>
  An inventory \<open>D\<close> served in pages: page \<open>n\<close> of size \<open>s\<close> (page 0 is the first page)
  with the total count.
\<close>

definition serves_pages :: "'w env \<Rightarrow> string \<Rightarrow> string \<Rightarrow> DiskItemType list \<Rightarrow> bool" where
  "serves_pages E region iid D \<longleftrightarrow>
     (\<forall>pg w. 0 < PageSize pg \<longrightarrow> 0 \<le> PageNumber pg \<longrightarrow>
        fst (invoke_DescribeDisks E \<lparr>DescribeDisks_RegionId = region, DescribeDisks_DiskIds = [],
               DescribeDisks_InstanceId = iid, DescribeDisks_Pagination = pg\<rparr> w) =
          Inr (take (nat (PageSize pg)) (drop (nat ((max 1 (PageNumber pg) - 1) * PageSize pg)) D),
               \<lparr>TotalCount = int (length D), Result_PageNumber = max 1 (PageNumber pg), Result_PageSize = PageSize pg\<rparr>))"

lemma find_device_append:
  "find_device device (xs @ ys) = (case find_device device xs of Some d \<Rightarrow> Some d | None \<Rightarrow> find_device device ys)"
  by (induction xs) auto

definition search_result :: "string \<Rightarrow> DiskItemType list \<Rightarrow> error + DiskItemType" where
  "search_result device D =
     (case find_device device D of
        Some disk \<Rightarrow> Inr disk
      | None \<Rightarrow> Inl (sprintf ''Device %s is not found in provider inventory'' [device]))"

lemma getDiskByDevice_loop_search:
  assumes sp: "serves_pages E (p_region p) iid D" and small: "length D < 2 ^ 62"
    and pg: "PageSize pg = 50" "max 1 (PageNumber pg) = int k + 1" "0 \<le> PageNumber pg" and k: "k * 50 \<le> length D"
    and seen: "find_device device (take (k * 50) D) = None"
  shows "\<exists>w'. getDiskByDevice_loop E p iid device pg w = Some (search_result device D, w')"
  using pg k seen
proof (induction "length D - k * 50" arbitrary: k pg w rule: less_induct)
  case less
  let ?slice = "take 50 (drop (k * 50) D)"
  let ?pgr = "\<lparr>TotalCount = int (length D), Result_PageNumber = int k + 1, Result_PageSize = 50\<rparr>"
  let ?call = "invoke_DescribeDisks E \<lparr>DescribeDisks_RegionId = p_region p, DescribeDisks_DiskIds = [],
      DescribeDisks_InstanceId = iid, DescribeDisks_Pagination = pg\<rparr> w"
  have "nat (int k * 50) = k * 50" by (simp add: nat_mult_distrib)
  with sp less.prems(1-3) have "fst ?call = Inr (?slice, ?pgr)"
    unfolding serves_pages_def by simp
  then obtain w1 where c: "?call = (Inr (?slice, ?pgr), w1)" by (cases ?call) simp
  have upto: "take (k * 50) D @ ?slice = take (k * 50 + 50) D" by (simp add: take_add)
  have i64: "is_int64 ((int k + 1) * 50)" "is_int64 (int k + 1 + 1)" using less.prems(4) small by (auto simp: is_int64_def)
  show ?case
  proof (cases "find_device device ?slice")
    case (Some d)
    then have "find_device device (take (k * 50 + 50) D) = Some d"
      using less.prems(5) by (simp add: upto [symmetric] find_device_append)
    then have "find_device device D = Some d"
      by (metis append_take_drop_id find_device_append option.simps(5))
    with c Some show ?thesis
      by (subst getDiskByDevice_loop.simps) (simp add: search_result_def)
  next
    case None
    then have seen: "find_device device (take (k * 50 + 50) D) = None"
      using less.prems(5) by (simp add: upto [symmetric] find_device_append)
    show ?thesis
    proof (cases "length D \<le> k * 50 + 50")
      case True
      with seen have "find_device device D = None" by simp
      moreover have "NextPage ?pgr = None" using True i64 by (simp add: NextPage_def)
      ultimately show ?thesis using c None
        by (subst getDiskByDevice_loop.simps) (simp add: search_result_def)
    next
      case False
      then have n: "NextPage ?pgr = Some \<lparr>PageNumber = int (Suc k) + 1, PageSize = 50\<rparr>"
        using i64 by (simp add: NextPage_def)
      have "\<exists>w'. getDiskByDevice_loop E p iid device \<lparr>PageNumber = int (Suc k) + 1, PageSize = 50\<rparr> w1 =
          Some (search_result device D, w')"
        by (rule less.hyps [where k = "Suc k"]) (use False seen in \<open>auto simp: add.commute\<close>)
      with c None n show ?thesis
        by (subst getDiskByDevice_loop.simps) simp
    qed
  qed
qed

lemma getDiskByDevice_search:
  assumes "serves_pages E (p_region p) iid D" and "length D < 2 ^ 62"
  shows "\<exists>w'. getDiskByDevice E p iid device w = Some (search_result device D, w')"
  unfolding getDiskByDevice_def
  by (rule getDiskByDevice_loop_search [OF assms, where k = 0]) (simp_all add: first_page_def)

section \<open>Provisioning\<close>

lemma has_mode_eq: "has_mode modes found \<longleftrightarrow> found \<or> ReadWriteOnce \<in> set modes"
  by (induction modes arbitrary: found) auto

definition min_size :: "string \<Rightarrow> int" where
  "min_size category = (case MinSizeTable category of Some n \<Rightarrow> n | None \<Rightarrow> 5)"

definition requested :: "ProvisionOptions \<Rightarrow> Quantity" where
  "requested options = (case pvc_Requests (po_PVC options) ResourceStorage of Some q \<Rightarrow> q | None \<Rightarrow> zero_quantity)"

lemma disk_size_eq:
  assumes "0 \<le> q_num q" and "is_int64 (units q Giga)" and "q_exp q \<le> 27"
  shows "disk_size category q = max (min_size category) (units q Giga)"
  using ScaledValue_units [OF assms(1,2)] assms(3)
  by (simp add: disk_size_def min_size_def Let_def Giga_def max_def)

lemma Provision_success:
  assumes "Provision E p options w = (Ret (Inr pv), w')"
  obtains diskId where
    "pvc_Selector (po_PVC options) = None" and "ReadWriteOnce \<in> set (pvc_AccessModes (po_PVC options))"
    and "Category (read_storage_options (po_Parameters options)) \<noteq> ''''"
    and "invoke_CreateDisk E
        \<lparr>CreateDisk_RegionId = p_region p, CreateDisk_ZoneId = p_zone p,
         CreateDisk_DiskCategory = Category (read_storage_options (po_Parameters options)),
         CreateDisk_DiskName = po_PVName options,
         CreateDisk_Size = disk_size (Category (read_storage_options (po_Parameters options))) (requested options)\<rparr> w =
        (Inr diskId, w')"
    and "pv_FlexVolume pv = Some \<lparr>fv_Driver = DriverName, fv_Options = [''diskId'' \<mapsto> diskId]\<rparr>"
    and "pv_Capacity pv ResourceStorage = Some (SetScaled (requested options)
        (disk_size (Category (read_storage_options (po_Parameters options))) (requested options)) Giga)"
    and "pv_Name pv = po_PVName options" and "pv_AccessModes pv = [ReadWriteOnce]"
  using assms
  by (auto simp: Provision_def Let_def has_mode_eq requested_def CreateDisk_def split: if_splits sum.splits)

lemma Provision_rejects:
  assumes "pvc_Selector (po_PVC options) \<noteq> None \<or> ReadWriteOnce \<notin> set (pvc_AccessModes (po_PVC options)) \<or>
    Category (read_storage_options (po_Parameters options)) = ''''"
  shows "\<exists>e. Provision E p options = ret (Inl e)"
  using assms by (auto simp: Provision_def Let_def has_mode_eq)

lemma Delete_provisioned:
  assumes "pv_FlexVolume pv = Some \<lparr>fv_Driver = DriverName, fv_Options = [''diskId'' \<mapsto> diskId]\<rparr>" and "diskId \<noteq> ''''"
    and "invoke_DeleteDisk E diskId w = (None, w')"
  shows "Delete E show_pv show_fv p pv w = (Ret None, w')"
  using assms by (simp add: Delete_def Let_def DeleteDisk_def bnd_def call_def ret_def)

section \<open>Polling and queries\<close>

lemma WaitForDisk_loop_status:
  assumes "WaitForDisk_loop E args status timeout w = (Ret None, w')"
  shows "\<exists>w1 d ds pg. invoke_DescribeDisks E args w1 = (Inr (d # ds, pg), w') \<and> Disk_Status d = status"
  using assms
proof (induction "nat timeout" arbitrary: timeout w rule: less_induct)
  case less
  obtain r w1 where c: "invoke_DescribeDisks E args w = (r, w1)" by fastforce
  from less.prems c obtain d ds pg where r: "r = Inr (d # ds, pg)" and
    k: "(if Disk_Status d = status then ret None
         else if timeout - DefaultWaitForInterval \<le> 0 then ret (Some (GetClientErrorFromString ''Timeout''))
         else bnd (effect (env_Sleep E DefaultWaitForInterval)) (\<lambda>_.
                WaitForDisk_loop E args status (timeout - DefaultWaitForInterval))) w1 = (Ret None, w')"
    by (subst (asm) WaitForDisk_loop.simps) (auto simp: client_defs split: sum.splits list.splits)
  show ?case
  proof (cases "Disk_Status d = status")
    case True
    with c r k show ?thesis by auto
  next
    case False
    with k have t: "\<not> timeout - DefaultWaitForInterval \<le> 0"
      and n: "WaitForDisk_loop E args status (timeout - DefaultWaitForInterval) (env_Sleep E DefaultWaitForInterval w1) = (Ret None, w')"
      by (auto split: if_splits)
    from t have "nat (timeout - DefaultWaitForInterval) < nat timeout" by (simp add: DefaultWaitForInterval_def)
    from less.hyps [OF this n] show ?thesis .
  qed
qed

lemma IsAttached_success:
  assumes c: "disk_contract E dks"
    and run: "IsAttached E p options node w = (Ret v, w')" and ok: "ve_Status v = StatusSuccess"
  shows "dks w' = dks w \<and> (\<exists>i st.
    fst (getInstanceByNodeName E p (if node = ''localhost'' then p_hostname p else node) w) = Ret (Inr i) \<and>
    dks w (opt_string options ''diskId'') = Some st \<and>
    (ve_Attached v \<longleftrightarrow> ds_instance st = InstanceId i \<and> ds_status st = DiskStatusInUse))"
proof -
  let ?n = "if node = ''localhost'' then p_hostname p else node" and ?d = "opt_string options ''diskId''"
  have ns: "ve_Status (NewVolumeNotSupported m) \<noteq> StatusSuccess" for m
    by (simp add: NewVolumeNotSupported_def volume_status_def)
  from run ok ns obtain i w1 where g: "getInstanceByNodeName E p ?n w = (Ret (Inr i), w1)"
    and k: "(if ?d = '''' then ret (NewVolumeError ''diskid is required'' [])
             else bnd (getDiskById E p ?d) (\<lambda>r. case r of
                    Inl err \<Rightarrow> ret (NewVolumeError err [])
                  | Inr disk \<Rightarrow> ret (NewVolumeSuccess\<lparr>ve_Attached :=
                      Disk_InstanceId disk = InstanceId i \<and> Disk_Status disk = DiskStatusInUse\<rparr>))) w1 = (Ret v, w')"
    unfolding IsAttached_def Let_def by (cases "authorized p") (auto split: sum.splits)
  from k ok obtain disk where d: "getDiskById E p ?d w1 = (Ret (Inr disk), w')"
    and v: "v = NewVolumeSuccess\<lparr>ve_Attached := Disk_InstanceId disk = InstanceId i \<and> Disk_Status disk = DiskStatusInUse\<rparr>"
    by (auto split: if_splits sum.splits)
  from getDiskById_disks [OF disk_contractD(1) [OF c] d] obtain st where
    "dks w' = dks w1" "dks w1 ?d = Some st" "disk = disk_item ?d st" by blast
  with g v getInstanceByNodeName_disks [OF c g] show ?thesis by (auto simp: disk_item_def)
qed

lemma Replace1_no_head: "c \<notin> set s \<Longrightarrow> Replace1 s (c # old) new = s"
  by (induction s) auto

lemma deviceApi2Local_local: "CHR ''/'' \<notin> set t \<Longrightarrow> deviceApi2Local (LocalPrefix @ t) = LocalPrefix @ t"
  by (simp add: deviceApi2Local_def LocalPrefix_def APIPrefix_def Replace1_no_head)

end
