(* ===== verification/Provision_Controller.thy ===== *)
theory Provision_Controller
  imports Volume_Laws Go_Map
begin

text \<open>
  The provision controller, which creates a volume for a claim and deletes released volumes
  through the provider: \<^verbatim>\<open>lib/controller/controller.go\<close> of the external-storage library. The
  handlers of the informers decide from the objects of the API server which operation is
  scheduled; the operations are modelled with their retries. Events and log messages are
  left out.
\<close>

section \<open>Objects\<close>

record PersistentVolumeClaim =
  claim_Namespace :: string
  claim_Name :: string
  claim_UID :: string
  claim_ResourceVersion :: string
  claim_Annotations :: "string \<rightharpoonup> string"
  claim_VolumeName :: string
  claim_Spec :: PersistentVolumeClaimSpec

record ObjectReference =
  Ref_Kind :: string
  Ref_Namespace :: string
  Ref_Name :: string
  Ref_UID :: string

text \<open>A volume as the API server stores it; \<open>PersistentVolume\<close> has what the provider sets.\<close>

record SavedVolume = PersistentVolume +
  vol_UID :: string
  vol_Annotations :: "string \<rightharpoonup> string"
  vol_ClaimRef :: "ObjectReference option"
  vol_Phase :: string

record StorageClass =
  class_Name :: string
  class_Provisioner :: string
  class_Parameters :: "(string \<rightharpoonup> string) option"

definition annClass :: string where "annClass = ''volume.beta.kubernetes.io/storage-class''"
definition annDynamicallyProvisioned :: string where "annDynamicallyProvisioned = ''pv.kubernetes.io/provisioned-by''"
definition createProvisionedPVRetryCount :: nat where "createProvisionedPVRetryCount = 5"
definition createProvisionedPVInterval :: int where "createProvisionedPVInterval = 10"
definition VolumeReleased :: string where "VolumeReleased = ''Released''"
definition VolumeFailed :: string where "VolumeFailed = ''Failed''"
definition PersistentVolumeReclaimDelete :: string where "PersistentVolumeReclaimDelete = ''Delete''"

text \<open>The interface \<^verbatim>\<open>Provisioner\<close>; a deletion that is ignored reports \<open>Inl\<close>, one that fails \<open>Inr\<close>.\<close>

record 'w Provisioner_methods =
  pm_Provision :: "ProvisionOptions \<Rightarrow> ('w, error + PersistentVolume) go"
  pm_Delete :: "PersistentVolume \<Rightarrow> ('w, (error + error) option) go"

definition aliyun_provisioner ::
  "'w env \<Rightarrow> (PersistentVolume \<Rightarrow> string) \<Rightarrow> (FlexVolumeSource \<Rightarrow> string) \<Rightarrow> AliyunProvider \<Rightarrow> 'w Provisioner_methods" where
  "aliyun_provisioner E show_pv show_fv p =
     \<lparr>pm_Provision = Provision E p,
      pm_Delete = (\<lambda>pv. bnd (Delete E show_pv show_fv p pv) (\<lambda>err. ret (map_option Inr err)))\<rparr>"

text \<open>The controller: its fields, and the client and stores it reads and writes.\<close>

record 'w ProvisionController =
  pc_provisionerName :: string
  pc_provisioner :: "'w Provisioner_methods"
  pc_is1dot4 :: bool
  pc_failedRetryThreshold :: int
  pc_GetPV :: "string \<Rightarrow> 'w \<Rightarrow> (error + SavedVolume) \<times> 'w"
  pc_CreatePV :: "SavedVolume \<Rightarrow> 'w \<Rightarrow> error option \<times> 'w"
  pc_DeletePV :: "string \<Rightarrow> 'w \<Rightarrow> error option \<times> 'w"
  pc_GetClass :: "string \<Rightarrow> 'w \<Rightarrow> (error + StorageClass option) \<times> 'w"
  pc_GetReference :: "PersistentVolumeClaim \<Rightarrow> error + ObjectReference"
  pc_Sleep :: "int \<Rightarrow> 'w \<Rightarrow> 'w"

text \<open>
  The fields the constructor sets from its arguments; whether the server is older than 1.5 is
  read from its version by the caller's client.
\<close>

definition NewProvisionController ::
  "'w ProvisionController \<Rightarrow> string \<Rightarrow> 'w Provisioner_methods \<Rightarrow> bool \<Rightarrow> int \<Rightarrow> 'w ProvisionController" where
  "NewProvisionController K provisionerName provisioner is1dot4 failedRetryThreshold =
     K\<lparr>pc_provisionerName := provisionerName, pc_provisioner := provisioner, pc_is1dot4 := is1dot4,
       pc_failedRetryThreshold := failedRetryThreshold\<rparr>"

type_synonym claim_stats = "string \<rightharpoonup> int" \<comment> \<open>failures by UID\<close>

section \<open>Decisions\<close>

definition getClaimClass :: "PersistentVolumeClaim \<Rightarrow> string" where
  "getClaimClass claim =
     (case claim_Annotations claim annClass of
        Some c \<Rightarrow> c
      | None \<Rightarrow> (case pvc_StorageClassName (claim_Spec claim) of Some c \<Rightarrow> c | None \<Rightarrow> ''''))"

definition claimToClaimKey :: "PersistentVolumeClaim \<Rightarrow> string" where
  "claimToClaimKey claim = sprintf ''%s/%s'' [claim_Namespace claim, claim_Name claim]"

definition getProvisionedVolumeNameForClaim :: "PersistentVolumeClaim \<Rightarrow> string" where
  "getProvisionedVolumeNameForClaim claim = ''pvc-'' @ claim_UID claim"

definition getStorageClass :: "'w ProvisionController \<Rightarrow> string \<Rightarrow> ('w, error + StorageClass) go" where
  "getStorageClass ctrl name =
     bnd (call (pc_GetClass ctrl name)) (\<lambda>r. case r of
       Inl err \<Rightarrow> ret (Inl (sprintf ''Error getting StorageClass %q: %v'' [Quote name, err]))
     | Inr None \<Rightarrow> ret (Inl (sprintf ''StorageClass %q not found'' [Quote name]))
     | Inr (Some c) \<Rightarrow>
         if class_Provisioner c \<noteq> pc_provisionerName ctrl
         then ret (Inl (sprintf ''Unknown provisioner %q requested in storage class %q'' [Quote (class_Provisioner c), Quote name]))
         else ret (Inr c))"

definition shouldProvision :: "'w ProvisionController \<Rightarrow> claim_stats \<Rightarrow> PersistentVolumeClaim \<Rightarrow> ('w, bool) go" where
  "shouldProvision ctrl stats claim =
     (if claim_VolumeName claim \<noteq> '''' then ret False
      else if (case stats (claim_UID claim) of Some n \<Rightarrow> n \<ge> pc_failedRetryThreshold ctrl | None \<Rightarrow> False) then ret False
      else case claim_Annotations claim annDynamicallyProvisioned of
             Some provisioner \<Rightarrow> ret (provisioner = pc_provisionerName ctrl)
           | None \<Rightarrow> bnd (getStorageClass ctrl (getClaimClass claim)) (\<lambda>r. case r of
               Inl err \<Rightarrow> ret False
             | Inr c \<Rightarrow> ret True))"

definition hasAnnotation :: "SavedVolume \<Rightarrow> string \<Rightarrow> bool" where
  "hasAnnotation volume ann \<longleftrightarrow> vol_Annotations volume ann \<noteq> None"

definition shouldDelete :: "'w ProvisionController \<Rightarrow> SavedVolume \<Rightarrow> bool" where
  "shouldDelete ctrl volume =
     (if \<not> pc_is1dot4 ctrl \<and> vol_Phase volume \<noteq> VolumeReleased then False
      else if pc_is1dot4 ctrl \<and> vol_Phase volume \<noteq> VolumeReleased \<and> vol_Phase volume \<noteq> VolumeFailed then False
      else if pv_ReclaimPolicy volume \<noteq> PersistentVolumeReclaimDelete then False
      else if \<not> hasAnnotation volume annDynamicallyProvisioned then False
      else vol_Annotations volume annDynamicallyProvisioned = Some (pc_provisionerName ctrl))"

definition updateStats :: "PersistentVolumeClaim \<Rightarrow> error option \<Rightarrow> claim_stats \<Rightarrow> claim_stats" where
  "updateStats claim err stats =
     (case err of
        Some _ \<Rightarrow> stats(claim_UID claim \<mapsto> (case stats (claim_UID claim) of Some n \<Rightarrow> n + 1 | None \<Rightarrow> 1))
      | None \<Rightarrow> stats(claim_UID claim := None))"

section \<open>Provisioning\<close>

text \<open>The loops that save the volume and that delete it when it could not be saved.\<close>

fun save_volume :: "'w ProvisionController \<Rightarrow> SavedVolume \<Rightarrow> nat \<Rightarrow> error option \<Rightarrow> ('w, error option) go" where
  "save_volume ctrl volume 0 err = ret err"
| "save_volume ctrl volume (Suc i) err =
     bnd (call (pc_CreatePV ctrl volume)) (\<lambda>err. case err of
       None \<Rightarrow> ret None
     | Some e \<Rightarrow> bnd (effect (pc_Sleep ctrl createProvisionedPVInterval)) (\<lambda>_. save_volume ctrl volume i (Some e)))"

fun clean_volume :: "'w ProvisionController \<Rightarrow> PersistentVolume \<Rightarrow> nat \<Rightarrow> (error + error) option \<Rightarrow> ('w, (error + error) option) go" where
  "clean_volume ctrl volume 0 err = ret err"
| "clean_volume ctrl volume (Suc i) err =
     bnd (pm_Delete (pc_provisioner ctrl) volume) (\<lambda>err. case err of
       None \<Rightarrow> ret None
     | Some e \<Rightarrow> bnd (effect (pc_Sleep ctrl createProvisionedPVInterval)) (\<lambda>_. clean_volume ctrl volume i (Some e)))"

definition setAnnotation :: "string \<Rightarrow> string \<Rightarrow> SavedVolume \<Rightarrow> SavedVolume" where
  "setAnnotation ann val volume = volume\<lparr>vol_Annotations := (vol_Annotations volume)(ann \<mapsto> val)\<rparr>"

definition claimed_volume :: "'w ProvisionController \<Rightarrow> PersistentVolumeClaim \<Rightarrow> ObjectReference \<Rightarrow> PersistentVolume \<Rightarrow> SavedVolume" where
  "claimed_volume ctrl claim claimRef pv =
     setAnnotation annClass (getClaimClass claim)
       (setAnnotation annDynamicallyProvisioned (pc_provisionerName ctrl)
         (PersistentVolume.extend pv
           \<lparr>vol_UID = '''', vol_Annotations = Map.empty, vol_ClaimRef = Some claimRef, vol_Phase = ''''\<rparr>))"

definition provision_save ::
  "'w ProvisionController \<Rightarrow> PersistentVolumeClaim \<Rightarrow> ObjectReference \<Rightarrow> StorageClass \<Rightarrow> ('w, error option) go" where
  "provision_save ctrl claim claimRef storageClass =
     bnd (pm_Provision (pc_provisioner ctrl)
            \<lparr>po_ReclaimPolicy = PersistentVolumeReclaimDelete, po_PVName = getProvisionedVolumeNameForClaim claim,
             po_PVC = claim_Spec claim, po_Parameters = class_Parameters storageClass\<rparr>) (\<lambda>r. case r of
       Inl err \<Rightarrow> ret (Some err)
     | Inr pv \<Rightarrow>
         bnd (save_volume ctrl (claimed_volume ctrl claim claimRef pv) createProvisionedPVRetryCount None) (\<lambda>err. case err of
           None \<Rightarrow> ret None
         | Some e \<Rightarrow> bnd (clean_volume ctrl pv createProvisionedPVRetryCount None) (\<lambda>_. ret None)))"

definition provisionClaimOperation :: "'w ProvisionController \<Rightarrow> PersistentVolumeClaim \<Rightarrow> ('w, error option) go" where
  "provisionClaimOperation ctrl claim =
     bnd (call (pc_GetPV ctrl (getProvisionedVolumeNameForClaim claim))) (\<lambda>r. case r of
       Inr volume \<Rightarrow> ret None
     | Inl _ \<Rightarrow> (case pc_GetReference ctrl claim of
         Inl err \<Rightarrow> ret None
       | Inr claimRef \<Rightarrow>
           bnd (getStorageClass ctrl (getClaimClass claim)) (\<lambda>r. case r of
             Inl err \<Rightarrow> ret None
           | Inr storageClass \<Rightarrow> provision_save ctrl claim claimRef storageClass)))"

section \<open>Deleting\<close>

definition deleteVolumeOperation :: "'w ProvisionController \<Rightarrow> SavedVolume \<Rightarrow> ('w, error option) go" where
  "deleteVolumeOperation ctrl volume =
     bnd (call (pc_GetPV ctrl (pv_Name volume))) (\<lambda>r. case r of
       Inl err \<Rightarrow> ret None
     | Inr newVolume \<Rightarrow>
         if \<not> shouldDelete ctrl newVolume then ret None
         else bnd (pm_Delete (pc_provisioner ctrl) (PersistentVolume.truncate volume)) (\<lambda>err. case err of
                Some (Inl ignored) \<Rightarrow> ret None
              | Some (Inr e) \<Rightarrow> ret (Some e)
              | None \<Rightarrow> bnd (call (pc_DeletePV ctrl (pv_Name volume))) (\<lambda>_. ret None)))"

section \<open>Scheduling\<close>

datatype operation =
    ProvisionOp PersistentVolumeClaim
  | LockProvisionOp PersistentVolumeClaim
  | DeleteOp SavedVolume

fun operation_name :: "operation \<Rightarrow> string" where
  "operation_name (ProvisionOp claim) = sprintf ''provision-%s[%s]'' [claimToClaimKey claim, claim_UID claim]"
| "operation_name (LockProvisionOp claim) = sprintf ''lock-provision-%s[%s]'' [claimToClaimKey claim, claim_UID claim]"
| "operation_name (DeleteOp volume) = sprintf ''delete-%s[%s]'' [pv_Name volume, vol_UID volume]"

text \<open>
  The changing fields: the goroutines of the map \<^verbatim>\<open>runningOperations\<close>, for every elector whether
  its last observed leader is this process, the failures, and the callbacks of electors that
  were started and have not run.
\<close>

record pc_state =
  pc_runningOperations :: "operation gomap"
  pc_leaderElectors :: "string \<rightharpoonup> bool"
  pc_failedClaimsStats :: claim_stats
  pc_callbacks :: "PersistentVolumeClaim list"

text \<open>\<^verbatim>\<open>GoRoutineMap.Run\<close> without back-off, as the program configures it.\<close>

definition scheduleOperation :: "operation \<Rightarrow> pc_state \<Rightarrow> pc_state" where
  "scheduleOperation op s =
     (case map_of (pc_runningOperations s) (operation_name op) of
        Some _ \<Rightarrow> s
      | None \<Rightarrow> s\<lparr>pc_runningOperations := gm_set (operation_name op) op (pc_runningOperations s)\<rparr>)"

definition operationComplete :: "operation \<Rightarrow> pc_state \<Rightarrow> pc_state" where
  "operationComplete op s = s\<lparr>pc_runningOperations := gm_delete (operation_name op) (pc_runningOperations s)\<rparr>"

definition addClaim :: "'w ProvisionController \<Rightarrow> PersistentVolumeClaim \<Rightarrow> ('w \<times> pc_state, unit) go" where
  "addClaim ctrl claim =
     bnd (gets pc_failedClaimsStats) (\<lambda>stats.
     bnd (lift_world (shouldProvision ctrl stats claim)) (\<lambda>should.
       if should
       then modify (\<lambda>s. scheduleOperation
              (if pc_leaderElectors s (claim_UID claim) = Some True then ProvisionOp claim else LockProvisionOp claim) s)
       else ret ()))"

definition LeaderElectionRecordAnnotationKey :: string where
  "LeaderElectionRecordAnnotationKey = ''control-plane.alpha.kubernetes.io/leader''"

definition removeRecord :: "PersistentVolumeClaim \<Rightarrow> PersistentVolumeClaim" where
  "removeRecord claim =
     claim\<lparr>claim_Annotations := (claim_Annotations claim)(LeaderElectionRecordAnnotationKey \<mapsto> ''''),
           claim_ResourceVersion := ''''\<rparr>"

definition updateClaim ::
  "'w ProvisionController \<Rightarrow> PersistentVolumeClaim \<Rightarrow> PersistentVolumeClaim \<Rightarrow> ('w \<times> pc_state, unit) go" where
  "updateClaim ctrl oldClaim newClaim =
     (if oldClaim = newClaim then addClaim ctrl newClaim
      else if removeRecord oldClaim = removeRecord newClaim then ret ()
      else addClaim ctrl newClaim)"

definition updateVolume :: "'w ProvisionController \<Rightarrow> SavedVolume \<Rightarrow> ('w \<times> pc_state, unit) go" where
  "updateVolume ctrl volume =
     (if shouldDelete ctrl volume then modify (scheduleOperation (DeleteOp volume)) else ret ())"

text \<open>
  The steps of the controller: a handler runs, an operation of the map runs to its end (a panic
  of it is recovered from), an elector starts, observes a leader, acquires the lock, runs its
  callback and ends, or the rest of the world moves.
\<close>

inductive pc_step :: "'w ProvisionController \<Rightarrow> 'w \<times> pc_state \<Rightarrow> 'w \<times> pc_state \<Rightarrow> bool" for ctrl where
  add_claim: "addClaim ctrl claim (w, s) = (Ret (), t) \<Longrightarrow> pc_step ctrl (w, s) t"
| update_claim: "updateClaim ctrl old new (w, s) = (Ret (), t) \<Longrightarrow> pc_step ctrl (w, s) t"
| update_volume: "updateVolume ctrl volume (w, s) = (Ret (), t) \<Longrightarrow> pc_step ctrl (w, s) t"
| provision: "(name, ProvisionOp claim) \<in> set (pc_runningOperations s) \<Longrightarrow>
    provisionClaimOperation ctrl claim w = (Ret err, w') \<Longrightarrow>
    pc_step ctrl (w, s)
      (w', operationComplete (ProvisionOp claim) (s\<lparr>pc_failedClaimsStats := updateStats claim err (pc_failedClaimsStats s)\<rparr>))"
| delete: "(name, DeleteOp volume) \<in> set (pc_runningOperations s) \<Longrightarrow>
    deleteVolumeOperation ctrl volume w = (Ret err, w') \<Longrightarrow>
    pc_step ctrl (w, s) (w', operationComplete (DeleteOp volume) s)"
| recovered: "(name, op) \<in> set (pc_runningOperations s) \<Longrightarrow>
    op = ProvisionOp claim \<and> provisionClaimOperation ctrl claim w = (Panic msg, w') \<or>
    op = DeleteOp volume \<and> deleteVolumeOperation ctrl volume w = (Panic msg, w') \<Longrightarrow>
    pc_step ctrl (w, s) (w', operationComplete op s)"
| observe: "(name, LockProvisionOp claim) \<in> set (pc_runningOperations s) \<Longrightarrow>
    pc_step ctrl (w, s) (w, s\<lparr>pc_leaderElectors := (pc_leaderElectors s)(claim_UID claim \<mapsto> leader)\<rparr>)"
| acquire: "(name, LockProvisionOp claim) \<in> set (pc_runningOperations s) \<Longrightarrow>
    pc_leaderElectors s (claim_UID claim) = Some True \<Longrightarrow>
    pc_step ctrl (w, s) (w, s\<lparr>pc_callbacks := claim # pc_callbacks s\<rparr>)"
| started_leading: "claim \<in> set (pc_callbacks s) \<Longrightarrow>
    pc_step ctrl (w, s) (w, scheduleOperation (ProvisionOp claim) (s\<lparr>pc_callbacks := remove1 claim (pc_callbacks s)\<rparr>))"
| stop: "(name, LockProvisionOp claim) \<in> set (pc_runningOperations s) \<Longrightarrow>
    pc_step ctrl (w, s)
      (w, operationComplete (LockProvisionOp claim) (s\<lparr>pc_leaderElectors := (pc_leaderElectors s)(claim_UID claim := None)\<rparr>))"
| world: "pc_step ctrl (w, s) (w', s)"

definition pc_start :: pc_state where
  "pc_start = \<lparr>pc_runningOperations = [], pc_leaderElectors = Map.empty, pc_failedClaimsStats = Map.empty, pc_callbacks = []\<rparr>"

end
