(* ===== verification/Provision_Laws.thy ===== *)
theory Provision_Laws
  imports Provision_Controller
begin

text \<open>
  What the provision controller guarantees over a provisioner. The locale \<open>provisioner\<close> is the
  interface with its contract over two views of the world, the storage assets that exist and
  the volume objects of the API server; \<open>provision_controller\<close> adds the client. Both are
  interpreted on the Aliyun provider.
\<close>

section \<open>The volume that is saved\<close>

lemma claimed_volume_name [simp]: "pv_Name (claimed_volume ctrl claim ref pv) = pv_Name pv"
  by (cases pv) (simp add: claimed_volume_def setAnnotation_def PersistentVolume.extend_def)

lemma claimed_volume_truncate [simp]: "PersistentVolume.truncate (claimed_volume ctrl claim ref pv) = pv"
  by (cases pv) (simp add: claimed_volume_def setAnnotation_def PersistentVolume.extend_def PersistentVolume.truncate_def)

lemma claimed_volume_deletable:
  assumes "pv_ReclaimPolicy pv = PersistentVolumeReclaimDelete"
  shows "shouldDelete ctrl ((claimed_volume ctrl claim ref pv)\<lparr>vol_Phase := VolumeReleased\<rparr>)"
  using assms
  by (cases pv) (simp add: shouldDelete_def hasAnnotation_def claimed_volume_def setAnnotation_def PersistentVolume.extend_def
      annClass_def annDynamicallyProvisioned_def)

section \<open>The interface\<close>

type_synonym 'w volume_view = "'w \<Rightarrow> string \<rightharpoonup> SavedVolume"

locale provisioner =
  fixes P :: "'w Provisioner_methods" and invar :: "'w \<Rightarrow> bool"
    and assets :: "'w \<Rightarrow> string set" and pvs :: "'w volume_view"
    and asset_of :: "PersistentVolume \<Rightarrow> string option"
  assumes provision_ok: "invar w \<Longrightarrow> pm_Provision P options w = (Ret (Inr pv), w') \<Longrightarrow>
      invar w' \<and> pvs w' = pvs w \<and> pv_Name pv = po_PVName options \<and> pv_ReclaimPolicy pv = po_ReclaimPolicy options \<and>
      (\<exists>a. asset_of pv = Some a \<and> a \<notin> assets w \<and> assets w' = insert a (assets w))"
    and provision_error: "invar w \<Longrightarrow> pm_Provision P options w = (Ret (Inl e), w') \<Longrightarrow>
      invar w' \<and> pvs w' = pvs w \<and> assets w' = assets w"
    and delete_ok: "invar w \<Longrightarrow> pm_Delete P pv w = (Ret None, w') \<Longrightarrow> asset_of pv = Some a \<Longrightarrow>
      invar w' \<and> pvs w' = pvs w \<and> assets w' = assets w - {a}"
    and delete_error: "invar w \<Longrightarrow> pm_Delete P pv w = (Ret (Some x), w') \<Longrightarrow> asset_of pv = Some a \<Longrightarrow>
      invar w' \<and> pvs w' = pvs w \<and> (assets w' = assets w \<or> assets w' = assets w - {a})"

text \<open>A request to the API server that fails may have been carried out nevertheless.\<close>

locale provision_controller = provisioner "pc_provisioner ctrl" invar assets pvs asset_of
  for ctrl :: "'w ProvisionController" and invar assets pvs asset_of +
  assumes get_pv: "invar w \<Longrightarrow> pc_GetPV ctrl n w = (r, w') \<Longrightarrow>
      invar w' \<and> pvs w' = pvs w \<and> assets w' = assets w \<and> (\<forall>v. r = Inr v \<longrightarrow> pvs w n = Some v)"
    and get_class: "invar w \<Longrightarrow> pc_GetClass ctrl n w = (c, w') \<Longrightarrow> invar w' \<and> pvs w' = pvs w \<and> assets w' = assets w"
    and create_pv: "invar w \<Longrightarrow> pc_CreatePV ctrl v w = (e, w') \<Longrightarrow> invar w' \<and> assets w' = assets w \<and>
      (pvs w' = (pvs w)(pv_Name v \<mapsto> v) \<or> e \<noteq> None \<and> pvs w' = pvs w)"
    and delete_pv: "invar w \<Longrightarrow> pc_DeletePV ctrl n w = (e, w') \<Longrightarrow> invar w' \<and> assets w' = assets w \<and>
      (pvs w' = (pvs w)(n := None) \<or> e \<noteq> None \<and> pvs w' = pvs w)"
    and sleep: "invar w \<Longrightarrow> invar (pc_Sleep ctrl t w) \<and> pvs (pc_Sleep ctrl t w) = pvs w \<and> assets (pc_Sleep ctrl t w) = assets w"
begin

lemma save_volume_law:
  "invar w \<Longrightarrow> save_volume ctrl v i err w = (Ret r, w') \<Longrightarrow> err \<noteq> None \<or> 0 < i \<Longrightarrow>
   invar w' \<and> assets w' = assets w \<and> (pvs w' = (pvs w)(pv_Name v \<mapsto> v) \<or> r \<noteq> None \<and> pvs w' = pvs w)"
proof (induction i arbitrary: err w)
  case (Suc i)
  obtain e w1 where c: "pc_CreatePV ctrl v w = (e, w1)" by fastforce
  note l = create_pv [OF Suc.prems(1) c]
  show ?case
  proof (cases e)
    case None
    with Suc.prems c l show ?thesis by (auto simp: bnd_def call_def)
  next
    case (Some x)
    let ?w2 = "pc_Sleep ctrl createProvisionedPVInterval w1"
    from Suc.prems c Some have "save_volume ctrl v i (Some x) ?w2 = (Ret r, w')" by (simp add: bnd_def call_def effect_def)
    from Suc.IH [OF _ this] l sleep [of w1] show ?thesis by auto
  qed
qed auto

lemma clean_volume_law:
  "invar w \<Longrightarrow> clean_volume ctrl pv i err w = (Ret r, w') \<Longrightarrow> asset_of pv = Some a \<Longrightarrow> err \<noteq> None \<or> 0 < i \<Longrightarrow>
   invar w' \<and> pvs w' = pvs w \<and> (assets w' = assets w - {a} \<or> r \<noteq> None \<and> assets w' = assets w)"
proof (induction i arbitrary: err w)
  case (Suc i)
  from Suc.prems(2) obtain e w1 where c: "pm_Delete (pc_provisioner ctrl) pv w = (Ret e, w1)" by auto
  show ?case
  proof (cases e)
    case None
    with Suc.prems c delete_ok [of w pv w1 a] show ?thesis by (auto simp: bnd_def)
  next
    case (Some x)
    let ?w2 = "pc_Sleep ctrl createProvisionedPVInterval w1"
    from Suc.prems c Some have "clean_volume ctrl pv i (Some x) ?w2 = (Ret r, w')" by (simp add: bnd_def effect_def)
    from Suc.IH [OF _ this] delete_error [of w pv x w1 a] sleep [of w1] Suc.prems(1,3) c Some show ?thesis by auto
  qed
qed auto

lemma getStorageClass_law:
  assumes "invar w" and "getStorageClass ctrl n w = (Ret r, w')"
  shows "invar w' \<and> pvs w' = pvs w \<and> assets w' = assets w"
proof -
  obtain c w1 where c: "pc_GetClass ctrl n w = (c, w1)" by fastforce
  with assms(2) have "w' = w1" by (auto simp: getStorageClass_def bnd_def call_def ret_def split: sum.splits option.splits if_splits)
  with get_class [OF assms(1) c] show ?thesis by simp
qed

lemma provision_save_cases:
  assumes inv: "invar w" and run: "provision_save ctrl claim ref sclass w = (Ret r, w')"
  obtains "invar w'" "pvs w' = pvs w" "assets w' = assets w"
  | pv a w2 err w3 where "invar w2" "pvs w2 = pvs w" "a \<notin> assets w" "assets w2 = insert a (assets w)"
      "asset_of pv = Some a" "pv_Name pv = getProvisionedVolumeNameForClaim claim" "pv_ReclaimPolicy pv = PersistentVolumeReclaimDelete"
      "save_volume ctrl (claimed_volume ctrl claim ref pv) createProvisionedPVRetryCount None w2 = (Ret err, w3)"
      "if err = None then w' = w3 else \<exists>x. clean_volume ctrl pv createProvisionedPVRetryCount None w3 = (Ret x, w')" "r = None"
proof -
  from run obtain p w2 where p: "pm_Provision (pc_provisioner ctrl) \<lparr>po_ReclaimPolicy = PersistentVolumeReclaimDelete,
      po_PVName = getProvisionedVolumeNameForClaim claim, po_PVC = claim_Spec claim, po_Parameters = class_Parameters sclass\<rparr> w = (Ret p, w2)"
    by (auto simp: provision_save_def)
  show thesis
  proof (cases p)
    case (Inl x)
    with run p have "w' = w2" by (simp add: provision_save_def bnd_def)
    with provision_error [OF inv p [unfolded Inl]] that(1) show thesis by simp
  next
    case (Inr pv)
    with run p have "bnd (save_volume ctrl (claimed_volume ctrl claim ref pv) createProvisionedPVRetryCount None) (\<lambda>err. case err of
        None \<Rightarrow> ret None | Some e \<Rightarrow> bnd (clean_volume ctrl pv createProvisionedPVRetryCount None) (\<lambda>_. ret None)) w2 = (Ret r, w')"
      by (simp add: provision_save_def bnd_Ret)
    then obtain err w3 where
      s: "save_volume ctrl (claimed_volume ctrl claim ref pv) createProvisionedPVRetryCount None w2 = (Ret err, w3)"
      and t: "if err = None then w' = w3 else \<exists>x. clean_volume ctrl pv createProvisionedPVRetryCount None w3 = (Ret x, w')" "r = None"
      by (auto split: option.splits)
    from provision_ok [OF inv p [unfolded Inr]] obtain a where "invar w2" "pvs w2 = pvs w" "a \<notin> assets w"
      "assets w2 = insert a (assets w)" "asset_of pv = Some a" "pv_Name pv = getProvisionedVolumeNameForClaim claim"
      "pv_ReclaimPolicy pv = PersistentVolumeReclaimDelete" by auto
    from that(2) [OF this s t] show thesis .
  qed
qed

text \<open>
  A run of the operation either leaves assets and volumes alone (this is the only way to report
  an error), or it made one new asset and tried to save a volume for it.
\<close>

lemma provision_cases:
  assumes inv: "invar w" and run: "provisionClaimOperation ctrl claim w = (Ret r, w')"
  obtains (idle) "invar w'" "pvs w' = pvs w" "assets w' = assets w"
  | (made) pv claimRef a w2 err w3 where "invar w2" "pvs w2 = pvs w" "a \<notin> assets w" "assets w2 = insert a (assets w)"
      "asset_of pv = Some a" "pv_Name pv = getProvisionedVolumeNameForClaim claim" "pv_ReclaimPolicy pv = PersistentVolumeReclaimDelete"
      "save_volume ctrl (claimed_volume ctrl claim claimRef pv) createProvisionedPVRetryCount None w2 = (Ret err, w3)"
      "if err = None then w' = w3 else \<exists>x. clean_volume ctrl pv createProvisionedPVRetryCount None w3 = (Ret x, w')" "r = None"
proof -
  let ?n = "getProvisionedVolumeNameForClaim claim"
  obtain g w0 where g: "pc_GetPV ctrl ?n w = (g, w0)" by fastforce
  note gl = get_pv [OF inv g]
  show thesis
  proof (cases "\<exists>e ref. g = Inl e \<and> pc_GetReference ctrl claim = Inr ref")
    case False
    with run g have "w' = w0"
      by (auto simp: provisionClaimOperation_def Let_def bnd_def call_def ret_def split: sum.splits)
    with gl show thesis using idle by auto
  next
    case True
    then obtain e ref where e: "g = Inl e" "pc_GetReference ctrl claim = Inr ref" by blast
    from g e have "provisionClaimOperation ctrl claim w = bnd (getStorageClass ctrl (getClaimClass claim))
        (\<lambda>r. case r of Inl err \<Rightarrow> ret None | Inr storageClass \<Rightarrow> provision_save ctrl claim ref storageClass) w0"
      by (simp add: provisionClaimOperation_def provision_save_def Let_def bnd_def call_def)
    with run obtain c w1 where c: "getStorageClass ctrl (getClaimClass claim) w0 = (Ret c, w1)"
      and run1: "(case c of Inl err \<Rightarrow> ret None | Inr storageClass \<Rightarrow> provision_save ctrl claim ref storageClass) w1 = (Ret r, w')"
      by auto
    from gl have cl: "invar w1" "pvs w1 = pvs w" "assets w1 = assets w"
      using getStorageClass_law [OF _ c] by simp_all
    show thesis
    proof (cases c)
      case (Inl x)
      with run1 cl show thesis using idle by auto
    next
      case (Inr sclass)
      with run1 have "provision_save ctrl claim ref sclass w1 = (Ret r, w')" by simp
      with cl(1) show thesis
      proof (cases rule: provision_save_cases)
        case 1
        with cl show thesis using idle by auto
      next
        case (2 pv a w2 err w3)
        with cl show thesis using made [of w2 a pv ref err w3] by auto
      qed
    qed
  qed
qed

lemma provision_no_orphan:
  assumes inv: "invar w" and run: "provisionClaimOperation ctrl claim w = (Ret r, w')"
  shows "assets w' = assets w \<or>
    (\<exists>a v. a \<notin> assets w \<and> assets w' = insert a (assets w) \<and> asset_of (PersistentVolume.truncate v) = Some a \<and>
       pvs w' = (pvs w)(getProvisionedVolumeNameForClaim claim \<mapsto> v) \<and>
       shouldDelete ctrl (v\<lparr>vol_Phase := VolumeReleased\<rparr>)) \<or>
    (\<exists>a pv w1 x. a \<notin> assets w \<and> asset_of pv = Some a \<and> assets w1 = insert a (assets w) \<and>
       clean_volume ctrl pv createProvisionedPVRetryCount None w1 = (Ret (Some x), w'))"
proof (cases rule: provision_cases [OF inv run])
  case (2 pv ref a w2 err w3)
  let ?v = "claimed_volume ctrl claim ref pv"
  have s: "invar w3" "assets w3 = assets w2" "pvs w3 = (pvs w2)(pv_Name ?v \<mapsto> ?v) \<or> err \<noteq> None \<and> pvs w3 = pvs w2"
    using save_volume_law [OF 2(1,8)] by (simp_all add: createProvisionedPVRetryCount_def)
  show ?thesis
  proof (cases err)
    case None
    with 2 s have "assets w' = insert a (assets w)" "pvs w' = (pvs w)(getProvisionedVolumeNameForClaim claim \<mapsto> ?v)"
      by (simp_all add: claimed_volume_name)
    with 2(3,5) claimed_volume_deletable [OF 2(7), of ctrl claim ref] show ?thesis by (metis claimed_volume_truncate)
  next
    case (Some e)
    with 2(9) obtain x where x: "clean_volume ctrl pv createProvisionedPVRetryCount None w3 = (Ret x, w')" by auto
    show ?thesis
    proof (cases x)
      case None
      with clean_volume_law [OF s(1) x 2(5)] s 2(3,4) show ?thesis by (auto simp: createProvisionedPVRetryCount_def)
    next
      case (Some y)
      with x 2(3-5) s(2) show ?thesis by blast
    qed
  qed
qed simp

text \<open>An error is reported only when nothing was made.\<close>

lemma provision_error_clean:
  assumes "invar w" and "provisionClaimOperation ctrl claim w = (Ret (Some e), w')"
  shows "assets w' = assets w \<and> pvs w' = pvs w"
  by (cases rule: provision_cases [OF assms]) simp_all

lemma delete_volume_law:
  assumes inv: "invar w" and run: "deleteVolumeOperation ctrl v w = (Ret r, w')"
    and a: "asset_of (PersistentVolume.truncate v) = Some a"
  shows "assets w' = assets w \<and> pvs w' = pvs w \<or>
    (\<exists>v'. pvs w (pv_Name v) = Some v' \<and> shouldDelete ctrl v') \<and>
      (assets w' = assets w - {a} \<and> (pvs w' = (pvs w)(pv_Name v := None) \<or> pvs w' = pvs w))"
proof -
  obtain g w0 where g: "pc_GetPV ctrl (pv_Name v) w = (g, w0)" by fastforce
  note gl = get_pv [OF inv g]
  show ?thesis
  proof (cases "\<exists>v'. g = Inr v' \<and> shouldDelete ctrl v'")
    case False
    with run g have "w' = w0"
      by (auto simp: deleteVolumeOperation_def bnd_def call_def ret_def split: sum.splits if_splits)
    with gl show ?thesis by simp
  next
    case True
    then obtain v' where v': "g = Inr v'" "shouldDelete ctrl v'" by blast
    with run g obtain d w1 where d: "pm_Delete (pc_provisioner ctrl) (PersistentVolume.truncate v) w0 = (Ret d, w1)"
      by (auto simp: deleteVolumeOperation_def)
    show ?thesis
    proof (cases d)
      case None
      from delete_ok [OF _ d [unfolded None] a] gl have dl: "invar w1" "pvs w1 = pvs w" "assets w1 = assets w - {a}" by simp_all
      obtain e w2 where e: "pc_DeletePV ctrl (pv_Name v) w1 = (e, w2)" by fastforce
      with run g v' d None have "w' = w2" by (simp add: deleteVolumeOperation_def bnd_def call_def)
      with delete_pv [OF dl(1) e] dl v' gl show ?thesis by auto
    next
      case (Some x)
      with run g v' d have "w' = w1" by (auto simp: deleteVolumeOperation_def bnd_def call_def ret_def split: sum.splits)
      with delete_error [OF _ d [unfolded Some] a] gl v' show ?thesis by auto
    qed
  qed
qed

end

section \<open>A volume without a disk\<close>

text \<open>
  When the request that stores the volume is carried out but its answer is lost, the next ones
  fail because the object exists: the disk is deleted and the object stays.
\<close>

lemma save_volume_fails:
  assumes "\<And>w. J w \<Longrightarrow> \<exists>e w'. pc_CreatePV ctrl v w = (Some e, w') \<and> J w'" and "\<And>w t. J w \<Longrightarrow> J (pc_Sleep ctrl t w)"
  shows "J w \<Longrightarrow> \<exists>e w'. save_volume ctrl v (Suc i) err w = (Ret (Some e), w') \<and> J w'"
proof (induction i arbitrary: w err)
  case 0
  from assms(1) [OF this] obtain e w1 where "pc_CreatePV ctrl v w = (Some e, w1)" "J w1" by blast
  with assms(2) show ?case by (simp add: bnd_def call_def effect_def ret_def)
next
  case (Suc i)
  from assms(1) [OF Suc.prems] obtain e w1 where c: "pc_CreatePV ctrl v w = (Some e, w1)" "J w1" by blast
  from Suc.IH [OF assms(2) [OF c(2)]] obtain x w' where
    "save_volume ctrl v (Suc i) (Some e) (pc_Sleep ctrl createProvisionedPVInterval w1) = (Ret (Some x), w') \<and> J w'" by blast
  with c(1) show ?case by (auto simp: bnd_def call_def effect_def)
qed

lemma provision_save_dangling:
  assumes p: "pm_Provision (pc_provisioner ctrl)
      \<lparr>po_ReclaimPolicy = PersistentVolumeReclaimDelete, po_PVName = getProvisionedVolumeNameForClaim claim,
       po_PVC = claim_Spec claim, po_Parameters = class_Parameters sclass\<rparr> w = (Ret (Inr pv), w2)"
    and c: "pc_CreatePV ctrl (claimed_volume ctrl claim ref pv) w2 = (Some e, w3)" "J w3"
    and J: "\<And>w. J w \<Longrightarrow> \<exists>e w'. pc_CreatePV ctrl (claimed_volume ctrl claim ref pv) w = (Some e, w') \<and> J w'"
      "\<And>w t. J w \<Longrightarrow> J (pc_Sleep ctrl t w)"
    and d: "\<And>w. J w \<Longrightarrow> \<exists>w'. pm_Delete (pc_provisioner ctrl) pv w = (Ret None, w') \<and> J w'"
  shows "\<exists>w' w4. provision_save ctrl claim ref sclass w = (Ret None, w') \<and> J w' \<and>
    pm_Delete (pc_provisioner ctrl) pv w4 = (Ret None, w')"
proof -
  have n: "createProvisionedPVRetryCount = Suc (Suc 3)" by (simp add: createProvisionedPVRetryCount_def)
  from save_volume_fails [where J = J and i = 3 and err = "Some e", OF J J(2) [OF c(2)]] obtain x w4 where
    "save_volume ctrl (claimed_volume ctrl claim ref pv) (Suc 3) (Some e) (pc_Sleep ctrl createProvisionedPVInterval w3) = (Ret (Some x), w4)"
    and j: "J w4" by blast
  with c(1) have s: "save_volume ctrl (claimed_volume ctrl claim ref pv) createProvisionedPVRetryCount None w2 = (Ret (Some x), w4)"
    unfolding n save_volume.simps(2) [of _ _ "Suc 3"] by (simp add: bnd_def call_def effect_def del: save_volume.simps)
  from d [OF j] obtain w' where d': "pm_Delete (pc_provisioner ctrl) pv w4 = (Ret None, w')" "J w'" by blast
  then have "clean_volume ctrl pv createProvisionedPVRetryCount None w4 = (Ret None, w')"
    unfolding n clean_volume.simps(2) [of _ _ "Suc 3"] by (simp add: bnd_def del: clean_volume.simps)
  with p s have "provision_save ctrl claim ref sclass w = (Ret None, w')" by (simp add: provision_save_def bnd_def)
  with d' show ?thesis by blast
qed

section \<open>Failures\<close>

lemma updateStats_again: "updateStats claim (Some e) (stats(claim_UID claim \<mapsto> n)) = stats(claim_UID claim \<mapsto> n + 1)"
  by (simp add: updateStats_def fun_eq_iff)

lemma failures:
  fixes claim :: PersistentVolumeClaim and stats :: claim_stats
  assumes "stats (claim_UID claim) = None"
  shows "fold (\<lambda>e. updateStats claim (Some e)) (e # es) stats = stats(claim_UID claim \<mapsto> int (length (e # es)))"
proof (induction es rule: rev_induct)
  case Nil
  show ?case by (simp add: updateStats_def fun_eq_iff assms)
next
  case (snoc x es)
  have "fold (\<lambda>e. updateStats claim (Some e)) (e # es @ [x]) stats =
      updateStats claim (Some x) (fold (\<lambda>e. updateStats claim (Some e)) (e # es) stats)" by simp
  also have "\<dots> = stats(claim_UID claim \<mapsto> int (length (e # es)) + 1)" unfolding snoc by (rule updateStats_again)
  finally show ?case by simp
qed

lemma shouldProvision_failures:
  assumes "stats (claim_UID claim) = None" and "es \<noteq> []"
  shows "shouldProvision ctrl (fold (\<lambda>e. updateStats claim (Some e)) es stats) claim =
    (if pc_failedRetryThreshold ctrl \<le> int (length es) then ret False else shouldProvision ctrl stats claim)"
proof -
  from assms(2) obtain e es' where es: "es = e # es'" by (cases es) auto
  show ?thesis unfolding es failures [of stats claim, OF assms(1)] by (simp add: shouldProvision_def assms(1))
qed

section \<open>Scheduling\<close>

text \<open>Every goroutine runs under its own name, so no two work on the same claim or volume.\<close>

definition pc_inv :: "pc_state \<Rightarrow> bool" where
  "pc_inv s \<longleftrightarrow> gm_wf (pc_runningOperations s) \<and>
     (\<forall>name op. map_of (pc_runningOperations s) name = Some op \<longrightarrow> name = operation_name op) \<and>
     (\<forall>uid n. pc_failedClaimsStats s uid = Some n \<longrightarrow> 1 \<le> n)"

lemma scheduleOperation_inv: "pc_inv s \<Longrightarrow> pc_inv (scheduleOperation op s)"
  unfolding pc_inv_def scheduleOperation_def
  by (auto split: option.splits simp: gm.invar_assign gm.lookup_assign)

lemma operationComplete_inv: "pc_inv s \<Longrightarrow> pc_inv (operationComplete op s)"
  unfolding pc_inv_def operationComplete_def
  by (auto simp: gm.invar_remove gm.lookup_remove)

lemma updateStats_inv: "pc_inv s \<Longrightarrow> pc_inv (s\<lparr>pc_failedClaimsStats := updateStats claim err (pc_failedClaimsStats s)\<rparr>)"
  unfolding pc_inv_def updateStats_def by (force split: option.splits if_splits)

lemma addClaim_inv: "addClaim ctrl claim (w, s) = (Ret (), (w', s')) \<Longrightarrow> pc_inv s \<Longrightarrow> pc_inv s'"
  by (auto simp: addClaim_def scheduleOperation_inv split: if_splits)

lemma pc_inv_fields [simp]:
  "pc_inv (s\<lparr>pc_leaderElectors := l\<rparr>) = pc_inv s" "pc_inv (s\<lparr>pc_callbacks := cs\<rparr>) = pc_inv s"
  by (simp_all add: pc_inv_def)

lemma pc_inv_step: "pc_step ctrl x y \<Longrightarrow> pc_inv (snd x) \<Longrightarrow> pc_inv (snd y)"
proof (induction rule: pc_step.induct)
  case (add_claim claim w s t)
  then show ?case using addClaim_inv [of ctrl claim w s "fst t" "snd t"] by simp
next
  case (update_claim old new w s t)
  then show ?case using addClaim_inv [of ctrl new w s "fst t" "snd t"] by (auto simp: updateClaim_def split: if_splits)
next
  case (update_volume volume w s t)
  then show ?case by (cases t) (auto simp: updateVolume_def scheduleOperation_inv split: if_splits)
qed (simp_all add: scheduleOperation_inv operationComplete_inv updateStats_inv)

lemma pc_inv_reachable: "(pc_step ctrl)\<^sup>*\<^sup>* (w, pc_start) x \<Longrightarrow> pc_inv (snd x)"
proof (induction rule: rtranclp_induct)
  case base
  show ?case by (simp add: pc_inv_def pc_start_def gm_wf_def)
qed (rule pc_inv_step)

lemma one_goroutine:
  assumes "pc_inv s" and "(x, op) \<in> set (pc_runningOperations s)" and "(y, op') \<in> set (pc_runningOperations s)"
    and "operation_name op = operation_name op'"
  shows "op = op'"
proof -
  from assms(1-3) have "map_of (pc_runningOperations s) x = Some op" "map_of (pc_runningOperations s) y = Some op'"
    by (simp_all add: pc_inv_def gm_wf_def)
  with assms(1,4) show ?thesis by (auto simp: pc_inv_def)
qed

section \<open>The Aliyun provider\<close>

definition disk_of :: "PersistentVolume \<Rightarrow> string option" where
  "disk_of pv = Option.bind (pv_FlexVolume pv) (\<lambda>fv. fv_Options fv ''diskId'')"

text \<open>What is relied upon: a created disk is new and has an identifier, a failed creation made none.\<close>

definition makes_disks :: "'w env \<Rightarrow> ('w \<Rightarrow> string set) \<Rightarrow> 'w volume_view \<Rightarrow> bool" where
  "makes_disks E dsk pvs \<longleftrightarrow>
     (\<forall>args w r w'. invoke_CreateDisk E args w = (r, w') \<longrightarrow> pvs w' = pvs w \<and>
        (case r of Inl e \<Rightarrow> dsk w' = dsk w | Inr d \<Rightarrow> d \<noteq> '''' \<and> d \<notin> dsk w \<and> dsk w' = insert d (dsk w))) \<and>
     (\<forall>d w e w'. invoke_DeleteDisk E d w = (e, w') \<longrightarrow> pvs w' = pvs w \<and>
        (dsk w' = dsk w - {d} \<or> e \<noteq> None \<and> dsk w' = dsk w))"

text \<open>The API server; a request that fails may have been carried out.\<close>

definition keeps_volumes :: "'w ProvisionController \<Rightarrow> ('w \<Rightarrow> string set) \<Rightarrow> 'w volume_view \<Rightarrow> bool" where
  "keeps_volumes K dsk pvs \<longleftrightarrow>
     (\<forall>n w r w'. pc_GetPV K n w = (r, w') \<longrightarrow> dsk w' = dsk w \<and> pvs w' = pvs w \<and> (\<forall>v. r = Inr v \<longrightarrow> pvs w n = Some v)) \<and>
     (\<forall>n w r w'. pc_GetClass K n w = (r, w') \<longrightarrow> dsk w' = dsk w \<and> pvs w' = pvs w) \<and>
     (\<forall>v w e w'. pc_CreatePV K v w = (e, w') \<longrightarrow> dsk w' = dsk w \<and>
        (pvs w' = (pvs w)(pv_Name v \<mapsto> v) \<or> e \<noteq> None \<and> pvs w' = pvs w)) \<and>
     (\<forall>n w e w'. pc_DeletePV K n w = (e, w') \<longrightarrow> dsk w' = dsk w \<and>
        (pvs w' = (pvs w)(n := None) \<or> e \<noteq> None \<and> pvs w' = pvs w)) \<and>
     (\<forall>t w. dsk (pc_Sleep K t w) = dsk w \<and> pvs (pc_Sleep K t w) = pvs w)"

lemma aliyun_delete:
  assumes m: "makes_disks E dsk pvs" and run: "pm_Delete (aliyun_provisioner E sp sf p) pv w = (Ret r, w')" and "disk_of pv = Some a"
  shows "pvs w' = pvs w \<and> (dsk w' = dsk w - {a} \<or> r \<noteq> None \<and> dsk w' = dsk w)"
proof (cases "a = ''''")
  case True
  with run assms(3) show ?thesis
    by (auto simp: aliyun_provisioner_def Delete_def disk_of_def Let_def bind_eq_Some_conv)
next
  case False
  obtain e w1 where d: "invoke_DeleteDisk E a w = (e, w1)" by fastforce
  with run assms(3) False have "w' = w1 \<and> (e = None \<longleftrightarrow> r = None)"
    by (auto simp: aliyun_provisioner_def Delete_def DeleteDisk_def disk_of_def Let_def bind_eq_Some_conv bnd_def call_def ret_def
        split: option.splits)
  with m d show ?thesis unfolding makes_disks_def by metis
qed

lemma aliyun_provision:
  assumes m: "makes_disks E dsk pvs" and run: "pm_Provision (aliyun_provisioner E sp sf p) options w = (Ret r, w')"
  shows "pvs w' = pvs w \<and> (case r of Inl e \<Rightarrow> dsk w' = dsk w
    | Inr pv \<Rightarrow> pv_Name pv = po_PVName options \<and> pv_ReclaimPolicy pv = po_ReclaimPolicy options \<and>
        (\<exists>a. disk_of pv = Some a \<and> a \<notin> dsk w \<and> dsk w' = insert a (dsk w)))"
  using m run unfolding makes_disks_def
  by (fastforce simp: aliyun_provisioner_def Provision_def CreateDisk_def disk_of_def Let_def bnd_def call_def ret_def
      split: if_splits sum.splits prod.splits)

interpretation aliyun_pr: provisioner "pc_provisioner (NewProvisionController K n (aliyun_provisioner E sp sf p) old threshold)"
  "\<lambda>_. makes_disks E dsk pvs \<and> keeps_volumes K dsk pvs" dsk pvs disk_of
  for K n E sp sf p old threshold dsk pvs
proof (unfold_locales, goal_cases)
  case (1 w options pv w')
  then show ?case using aliyun_provision [of E dsk pvs sp sf p options w "Inr pv" w'] by (simp add: NewProvisionController_def)
next
  case (2 w options e w')
  then show ?case using aliyun_provision [of E dsk pvs sp sf p options w "Inl e" w'] by (simp add: NewProvisionController_def)
next
  case (3 w pv w' a)
  then show ?case using aliyun_delete [of E dsk pvs sp sf p pv w None w' a] by (simp add: NewProvisionController_def)
next
  case (4 w pv x w' a)
  then show ?case using aliyun_delete [of E dsk pvs sp sf p pv w "Some x" w' a] by (auto simp: NewProvisionController_def)
qed

interpretation aliyun_pc: provision_controller "NewProvisionController K n (aliyun_provisioner E sp sf p) old threshold"
  "\<lambda>_. makes_disks E dsk pvs \<and> keeps_volumes K dsk pvs" dsk pvs disk_of
  for K n E sp sf p old threshold dsk pvs
  by unfold_locales (simp_all add: NewProvisionController_def keeps_volumes_def)

end
