(* ===== verification/Load_Balancer.thy ===== *)
theory Load_Balancer
  imports Instances Go_Map Map_Utils
begin

text \<open>
  The load balancers of services: \<^verbatim>\<open>pkg/cloudprovider/providers/aliyun/loadbalancer.go\<close>.

  The definitions follow the file: one per function, with the loops of a function as
  recursive functions of their own. \<^verbatim>\<open>Listener_Sync\<close> and \<^verbatim>\<open>Load_Balancer_Sync\<close> prove what
  they achieve against a cloud that behaves as its documentation says.
\<close>

section \<open>Services\<close>

record ServicePort =
  Port_Name :: string
  Protocol :: string
  Port :: int      \<comment> \<open>\<^verbatim>\<open>int32\<close>\<close>
  NodePort :: int  \<comment> \<open>\<^verbatim>\<open>int32\<close>\<close>

record Service =
  UID :: string
  Annotations :: "(string \<rightharpoonup> string) option"
  SessionAffinity :: string
  Ports :: "ServicePort list"
  LoadBalancerIP :: string

record LoadBalancerStatus =
  Ingress :: "string list" \<comment> \<open>the IP of each \<^verbatim>\<open>LoadBalancerIngress\<close>\<close>

definition ServiceAffinityNone :: string where "ServiceAffinityNone = ''None''"
definition ProtocolTCP :: string where "ProtocolTCP = ''TCP''"
definition ProtocolUDP :: string where "ProtocolUDP = ''UDP''"
definition Stopped :: string where "Stopped = ''stopped''"

section \<open>Options from annotations\<close>

record AliyunLoadBalancerOptions =
  InternetChargeType :: string
  Bandwidth :: int
  HealthyThreshold :: int
  UnhealthyThreshold :: int
  HealthCheckConnectTimeout :: int
  HealthCheckInterval :: int

definition zero_options :: AliyunLoadBalancerOptions where
  "zero_options = \<lparr>InternetChargeType = '''', Bandwidth = 0, HealthyThreshold = 0,
     UnhealthyThreshold = 0, HealthCheckConnectTimeout = 0, HealthCheckInterval = 0\<rparr>"

text \<open>The struct as reflection sees it, with the tags of its declaration, and back.\<close>

definition plain_field :: "string \<Rightarrow> string \<Rightarrow> unit go_value \<Rightarrow> unit field" where
  "plain_field name tag v =
     \<lparr>F_Name = name, F_Tag = tag, F_Exported = True, F_Predeclared = True, F_Value = v\<rparr>"

definition options_fields :: "AliyunLoadBalancerOptions \<Rightarrow> unit field list" where
  "options_fields opt =
     [plain_field ''InternetChargeType'' ''internet-charge-type'' (VString (InternetChargeType opt)),
      plain_field ''Bandwidth'' ''bandwidth'' (VInt (Bandwidth opt)),
      plain_field ''HealthyThreshold'' ''healthy-threshold'' (VInt (HealthyThreshold opt)),
      plain_field ''UnhealthyThreshold'' ''unhealthy-threshold'' (VInt (UnhealthyThreshold opt)),
      plain_field ''HealthCheckConnectTimeout'' ''health-check-connect-timeout''
        (VInt (HealthCheckConnectTimeout opt)),
      plain_field ''HealthCheckInterval'' ''health-check-interval'' (VInt (HealthCheckInterval opt))]"

fun options_of_fields :: "unit field list \<Rightarrow> AliyunLoadBalancerOptions" where
  "options_of_fields fs =
     (case map F_Value fs of
        [VString c, VInt b, VInt h, VInt u, VInt t, VInt i] \<Rightarrow>
          \<lparr>InternetChargeType = c, Bandwidth = b, HealthyThreshold = h, UnhealthyThreshold = u,
           HealthCheckConnectTimeout = t, HealthCheckInterval = i\<rparr>
      | _ \<Rightarrow> zero_options)"

definition no_floats :: "nat \<Rightarrow> string \<Rightarrow> num_error + unit" where
  "no_floats bits s = Inl ErrSyntax"

text \<open>
  The block of \<^verbatim>\<open>EnsureLoadBalancer\<close> and \<^verbatim>\<open>UpdateLoadBalancer\<close> that reads the
  options: an error is only logged, and the fields set before it stay.
\<close>

definition read_options :: "(string \<rightharpoonup> string) option \<Rightarrow> AliyunLoadBalancerOptions" where
  "read_options annotations =
     (case annotations of
        None \<Rightarrow> zero_options
      | Some m \<Rightarrow>
          (case fst (MapToStruct no_floats (Some m) (IPtr (options_fields zero_options))
                       AliyunAnnotationPrefix) of
             IPtr fs \<Rightarrow> options_of_fields fs
           | _ \<Rightarrow> zero_options))"

section \<open>Looking a load balancer up\<close>

definition lbToStatus :: "LoadBalancerType \<Rightarrow> LoadBalancerStatus" where
  "lbToStatus lb = \<lparr>Ingress = [Address lb]\<rparr>"

definition GetLoadBalancerName :: "Service \<Rightarrow> string" where
  "GetLoadBalancerName service =
     (let s = RemoveAll (''a'' @ UID service) CHR ''-''
      in if length s > 32 then take 32 s else s)"

fun getLoadBalancer_loop ::
  "'w env \<Rightarrow> string \<Rightarrow> LoadBalancerType list \<Rightarrow> ('w, error + LoadBalancerType option) go" where
  "getLoadBalancer_loop E name [] = ret (Inr None)"
| "getLoadBalancer_loop E name (lb # lbs) =
     (if LoadBalancerName lb = name
      then tryE (DescribeLoadBalancerAttribute E (LoadBalancerId lb)) (\<lambda>lb'. ret (Inr (Some lb')))
      else getLoadBalancer_loop E name lbs)"

definition getLoadBalancer ::
  "'w env \<Rightarrow> AliyunProvider \<Rightarrow> string \<Rightarrow> ('w, error + LoadBalancerType option) go" where
  "getLoadBalancer E p name =
     tryE (DescribeLoadBalancers E (p_region p)) (\<lambda>lbs. getLoadBalancer_loop E name lbs)"

definition GetLoadBalancer ::
  "'w env \<Rightarrow> AliyunProvider \<Rightarrow> Service \<Rightarrow> ('w, LoadBalancerStatus option \<times> bool \<times> error option) go" where
  "GetLoadBalancer E p service =
     bnd (getLoadBalancer E p (GetLoadBalancerName service)) (\<lambda>r. case r of
       Inl err \<Rightarrow> ret (None, False, Some err)
     | Inr None \<Rightarrow> ret (None, False, None)
     | Inr (Some lb) \<Rightarrow> ret (Some (lbToStatus lb), True, None))"

section \<open>Listeners\<close>

definition nil_deref :: "('w, 'a) go" where
  "nil_deref = panic ''runtime error: invalid memory address or nil pointer dereference''"

text \<open>
  \<^verbatim>\<open>getLBListenerAttributes\<close>. After an error of the query the source goes on to read the
  fields of the response, which the client library returns as a nil pointer then.
\<close>

definition read_listener ::
  "ListenerAttributeResponse option \<times> error option \<Rightarrow> ('w, int \<times> string \<times> error option) go" where
  "read_listener r =
     (case r of
        (None, err2) \<Rightarrow> nil_deref
      | (Some resp, err2) \<Rightarrow> ret (to_int32 (BackendServerPort resp), ListenerStatus resp, err2))"

definition getLBListenerAttributes ::
  "'w env \<Rightarrow> LoadBalancerType \<Rightarrow> ListenerPortAndProtocolType \<Rightarrow> ('w, int \<times> string \<times> error option) go" where
  "getLBListenerAttributes E lb pp =
     (if ToLower (ListenerProtocol pp) = ''tcp''
      then bnd (DescribeLoadBalancerTCPListenerAttribute E (LoadBalancerId lb) (ListenerPort pp)) read_listener
      else if ToLower (ListenerProtocol pp) = ''udp''
      then bnd (DescribeLoadBalancerUDPListenerAttribute E (LoadBalancerId lb) (ListenerPort pp)) read_listener
      else ret (0, '''', Some (sprintf ''Error getting listener attributes. Unsupported listener protocol: %s''
                                 [ListenerProtocol pp])))"

definition listener_key :: "int \<Rightarrow> string \<Rightarrow> string" where
  "listener_key port protocol = sprintf ''%d|%s'' [Itoa port, ToLower protocol]"

fun expected_listeners :: "ServicePort list \<Rightarrow> ServicePort gomap \<Rightarrow> ServicePort gomap" where
  "expected_listeners [] expected = expected"
| "expected_listeners (p # ps) expected =
     (if NodePort p = 0 then expected_listeners ps expected
      else expected_listeners ps (gm_set (listener_key (Port p) (Protocol p)) p expected))"

fun diff_listeners ::
  "'w env \<Rightarrow> LoadBalancerType \<Rightarrow> ListenerPortAndProtocolType list \<Rightarrow>
   ServicePort gomap \<Rightarrow> int list \<Rightarrow> int list \<Rightarrow>
   ('w, error + ServicePort gomap \<times> int list \<times> int list) go" where
  "diff_listeners E lb [] expected removals stopped = ret (Inr (expected, removals, stopped))"
| "diff_listeners E lb (listener # listeners) expected removals stopped =
     (let key = listener_key (ListenerPort listener) (ListenerProtocol listener)
      in case map_of expected key of
           Some sp \<Rightarrow> bnd (getLBListenerAttributes E lb listener) (\<lambda>(backendPort, status, err).
             case err of
               Some e \<Rightarrow> ret (Inl e)
             | None \<Rightarrow>
                 if backendPort = NodePort sp
                 then diff_listeners E lb listeners (gm_delete key expected) removals
                        (if status = Stopped then stopped @ [Port sp] else stopped)
                 else diff_listeners E lb listeners expected (removals @ [ListenerPort listener]) stopped)
         | None \<Rightarrow> diff_listeners E lb listeners expected (removals @ [ListenerPort listener]) stopped)"

fun start_listeners :: "'w env \<Rightarrow> LoadBalancerType \<Rightarrow> int list \<Rightarrow> ('w, error option) go" where
  "start_listeners E lb [] = ret None"
| "start_listeners E lb (port # ports) =
     tryO (StartLoadBalancerListener E (LoadBalancerId lb) port) (start_listeners E lb ports)"

fun delete_listeners :: "'w env \<Rightarrow> LoadBalancerType \<Rightarrow> int list \<Rightarrow> ('w, error option) go" where
  "delete_listeners E lb [] = ret None"
| "delete_listeners E lb (port # ports) =
     tryO (DeleteLoadBalancerListener E (LoadBalancerId lb) port) (delete_listeners E lb ports)"

definition listener_args :: "LoadBalancerType \<Rightarrow> AliyunLoadBalancerOptions \<Rightarrow> ServicePort \<Rightarrow> string \<Rightarrow> CreateListenerArgs" where
  "listener_args lb options sp checkType =
     \<lparr>Listener_LoadBalancerId = LoadBalancerId lb,
      Listener_Port = Port sp,
      Listener_BackendServerPort = NodePort sp,
      Listener_Bandwidth = Bandwidth options,
      HealthCheckType = checkType,
      HealthCheckConnectPort = NodePort sp,
      Listener_HealthyThreshold = HealthyThreshold options,
      Listener_UnhealthyThreshold = UnhealthyThreshold options,
      Listener_HealthCheckConnectTimeout = HealthCheckConnectTimeout options,
      Listener_HealthCheckInterval = HealthCheckInterval options\<rparr>"

definition create_listener ::
  "'w env \<Rightarrow> LoadBalancerType \<Rightarrow> AliyunLoadBalancerOptions \<Rightarrow> ServicePort \<Rightarrow> ('w, error option) go" where
  "create_listener E lb options sp =
     (if Protocol sp = ProtocolTCP
      then CreateLoadBalancerTCPListener E (listener_args lb options sp ''tcp'')
      else if Protocol sp = ProtocolUDP
      then CreateLoadBalancerUDPListener E (listener_args lb options sp '''')
      else ret (Some (sprintf ''Error creating service listener. Unsupported listener protocol: %s''
                        [Protocol sp])))"

fun create_listeners ::
  "'w env \<Rightarrow> LoadBalancerType \<Rightarrow> AliyunLoadBalancerOptions \<Rightarrow> ServicePort list \<Rightarrow> ('w, error option) go" where
  "create_listeners E lb options [] = ret None"
| "create_listeners E lb options (sp # sps) =
     tryO (create_listener E lb options sp)
       (tryO (StartLoadBalancerListener E (LoadBalancerId lb) (Port sp))
         (create_listeners E lb options sps))"

definition ensureLBListeners ::
  "'w env \<Rightarrow> LoadBalancerType \<Rightarrow> ServicePort list \<Rightarrow> AliyunLoadBalancerOptions \<Rightarrow> ('w, error option) go" where
  "ensureLBListeners E lb ports options =
     bnd (diff_listeners E lb (ListenerPortsAndProtocol lb) (expected_listeners ports []) [] []) (\<lambda>r.
       case r of
         Inl err \<Rightarrow> ret (Some err)
       | Inr (expected, removals, stopped) \<Rightarrow>
           tryO (start_listeners E lb stopped)
             (tryO (delete_listeners E lb removals)
               (\<lambda>w. create_listeners E lb options (map snd (range_map E w expected)) w)))"

section \<open>Backends\<close>

fun expected_backends :: "InstanceAttributesType list \<Rightarrow> bool gomap \<Rightarrow> bool gomap" where
  "expected_backends [] expected = expected"
| "expected_backends (ins # inss) expected = expected_backends inss (gm_set (InstanceId ins) True expected)"

fun diff_backends :: "BackendServerType list \<Rightarrow> bool gomap \<Rightarrow> string list \<Rightarrow> bool gomap \<times> string list" where
  "diff_backends [] expected removals = (expected, removals)"
| "diff_backends (s # ss) expected removals =
     (case map_of expected (ServerId s) of
        Some _ \<Rightarrow> diff_backends ss (gm_delete (ServerId s) expected) removals
      | None \<Rightarrow> diff_backends ss expected (removals @ [ServerId s]))"

definition ensureLBBackends ::
  "'w env \<Rightarrow> LoadBalancerType \<Rightarrow> InstanceAttributesType list \<Rightarrow> ('w, error option) go" where
  "ensureLBBackends E lb instances = (\<lambda>w.
     let (expected, removals) = diff_backends (BackendServers lb) (expected_backends instances []) [];
         additions = map (\<lambda>(ins, _). \<lparr>ServerId = ins, Weight = 100\<rparr>) (range_map E w expected)
     in tryO (if length removals > 0 then RemoveBackendServers E (LoadBalancerId lb) removals else ret None)
         (tryO (if length additions > 0 then AddBackendServers E (LoadBalancerId lb) additions else ret None)
           (ret None)) w)"

section \<open>The interface\<close>

fun check_protocols :: "ServicePort list \<Rightarrow> error option" where
  "check_protocols [] = None"
| "check_protocols (port # ports) =
     (if Protocol port = ProtocolTCP \<or> Protocol port = ProtocolUDP then check_protocols ports
      else Some (sprintf ''Unsupported server port protocol for Aliyun load balancers: %v'' [Protocol port]))"

text \<open>
  The loop that waits for a created load balancer to appear: at most \<open>retry\<close> rounds. The
  result is the load balancer, or the error of the last round.
\<close>

fun wait_created ::
  "'w env \<Rightarrow> AliyunProvider \<Rightarrow> string \<Rightarrow> nat \<Rightarrow> error option \<Rightarrow>
   ('w, LoadBalancerType option \<times> error option) go" where
  "wait_created E p name 0 err = ret (None, err)"
| "wait_created E p name (Suc retry) err =
     bnd (effect (env_Sleep E 5)) (\<lambda>_.
     bnd (getLoadBalancer E p name) (\<lambda>r. case r of
       Inr (Some lb) \<Rightarrow> ret (Some lb, None)
     | Inr None \<Rightarrow> wait_created E p name retry None
     | Inl e \<Rightarrow> wait_created E p name retry (Some e)))"

definition create_lb :: "'w env \<Rightarrow> AliyunProvider \<Rightarrow> string \<Rightarrow> AliyunLoadBalancerOptions \<Rightarrow> ('w, error option) go" where
  "create_lb E p name options =
     bnd (call (env_CreateRandomString E)) (\<lambda>token.
     CreateLoadBalancer E
       \<lparr>CreateLoadBalancer_RegionId = p_region p,
        CreateLoadBalancer_Name = name,
        AddressType = ''internet'',
        CreateLoadBalancer_InternetChargeType = InternetChargeType options,
        CreateLoadBalancer_Bandwidth = Bandwidth options,
        ClientToken = token\<rparr>)"

text \<open>The part of \<^verbatim>\<open>EnsureLoadBalancer\<close> and \<^verbatim>\<open>UpdateLoadBalancer\<close> after \<^verbatim>\<open>// Sync lb\<close>.\<close>

definition sync_lb ::
  "'w env \<Rightarrow> LoadBalancerType \<Rightarrow> ServicePort list \<Rightarrow> AliyunLoadBalancerOptions \<Rightarrow>
   InstanceAttributesType list \<Rightarrow> ('w, LoadBalancerStatus option \<times> error option) go" where
  "sync_lb E lb ports options instances =
     bnd (ensureLBListeners E lb ports options) (\<lambda>err. case err of
       Some e \<Rightarrow> ret (None, Some e)
     | None \<Rightarrow> bnd (ensureLBBackends E lb instances) (\<lambda>err. case err of
         Some e \<Rightarrow> ret (None, Some e)
       | None \<Rightarrow> ret (Some (lbToStatus lb), None)))"

definition EnsureLoadBalancer ::
  "'w env \<Rightarrow> AliyunProvider \<Rightarrow> Service \<Rightarrow> Node list \<Rightarrow>
   ('w, LoadBalancerStatus option \<times> error option) go" where
  "EnsureLoadBalancer E p service nodes =
     (if SessionAffinity service \<noteq> ServiceAffinityNone
      then ret (None, Some (sprintf ''unsupported load balancer affinity: %v'' [SessionAffinity service]))
      else case check_protocols (Ports service) of
        Some e \<Rightarrow> ret (None, Some e)
      | None \<Rightarrow>
        if LoadBalancerIP service \<noteq> ''''
        then ret (None, Some ''LoadBalancerIP can't be set for Aliyun load balancers'')
        else
          bnd (getInstancesByNodes E p nodes) (\<lambda>r. case r of
            Inl err \<Rightarrow> ret (None, Some err)
          | Inr instances \<Rightarrow>
              let name = GetLoadBalancerName service;
                  lbOptions = read_options (Annotations service)
              in bnd (getLoadBalancer E p name) (\<lambda>r. case r of
                Inl err \<Rightarrow> ret (None, Some err)
              | Inr (Some lb) \<Rightarrow> sync_lb E lb (Ports service) lbOptions instances
              | Inr None \<Rightarrow>
                  bnd (create_lb E p name lbOptions) (\<lambda>err. case err of
                    Some e \<Rightarrow> ret (None, Some e)
                  | None \<Rightarrow>
                      bnd (wait_created E p name 3 None) (\<lambda>(lb, err). case lb of
                        None \<Rightarrow> ret (None, err)
                      | Some lb \<Rightarrow> sync_lb E lb (Ports service) lbOptions instances)))))"

definition UpdateLoadBalancer ::
  "'w env \<Rightarrow> AliyunProvider \<Rightarrow> Service \<Rightarrow> Node list \<Rightarrow> ('w, error option) go" where
  "UpdateLoadBalancer E p service nodes =
     bnd (getLoadBalancer E p (GetLoadBalancerName service)) (\<lambda>r. case r of
       Inl err \<Rightarrow> ret (Some err)
     | Inr None \<Rightarrow> ret (Some ''Load balancer is not found'')
     | Inr (Some lb) \<Rightarrow>
         tryO (ensureLBListeners E lb (Ports service) (read_options (Annotations service)))
           (bnd (getInstancesByNodes E p nodes) (\<lambda>r. case r of
              Inl err \<Rightarrow> ret (Some err)
            | Inr instances \<Rightarrow> tryO (ensureLBBackends E lb instances) (ret None))))"

definition EnsureLoadBalancerDeleted :: "'w env \<Rightarrow> AliyunProvider \<Rightarrow> Service \<Rightarrow> ('w, error option) go" where
  "EnsureLoadBalancerDeleted E p service =
     bnd (getLoadBalancer E p (GetLoadBalancerName service)) (\<lambda>r. case r of
       Inl err \<Rightarrow> ret (Some err)
     | Inr None \<Rightarrow> ret None
     | Inr (Some lb) \<Rightarrow> DeleteLoadBalancer E (LoadBalancerId lb))"

end
