(* ===== verification/Listener_Sync.thy ===== *)
theory Listener_Sync
  imports Load_Balancer
begin

text \<open>
  Correctness of \<^verbatim>\<open>ensureLBListeners\<close>. The cloud side is seen through \<open>lsn\<close>, which
  gives the listeners of each load balancer in a state of the world; \<open>listener_contract\<close>
  says what the six listener requests do to it, as the SLB documentation describes them,
  and \<open>listener_reliable\<close> that a request that makes sense succeeds. The theory shows that a
  run without error leaves exactly the listeners the service asks for, all started; that
  with a reliable service the run has no error and no panic; and that it changes nothing
  when they are already there.
\<close>

section \<open>The listener service\<close>

record listener_state =
  ls_protocol :: string
  ls_backend :: int
  ls_status :: string

type_synonym 'w listener_view = "'w \<Rightarrow> string \<Rightarrow> int \<rightharpoonup> listener_state"

definition describes_listeners ::
  "(string \<Rightarrow> int \<Rightarrow> 'w \<Rightarrow> (error + ListenerAttributeResponse) \<times> 'w) \<Rightarrow> string \<Rightarrow> 'w listener_view \<Rightarrow> bool" where
  "describes_listeners describe proto lsn \<longleftrightarrow>
     (\<forall>lb port w r w'. describe lb port w = (r, w') \<longrightarrow>
        lsn w' = lsn w \<and>
        (\<forall>resp. r = Inr resp \<longrightarrow>
           lsn w lb port = Some \<lparr>ls_protocol = proto, ls_backend = BackendServerPort resp,
                                 ls_status = ListenerStatus resp\<rparr>))"

definition creates_listeners ::
  "(CreateListenerArgs \<Rightarrow> 'w \<Rightarrow> error option \<times> 'w) \<Rightarrow> string \<Rightarrow> 'w listener_view \<Rightarrow> bool" where
  "creates_listeners create proto lsn \<longleftrightarrow>
     (\<forall>args w r w'. create args w = (r, w') \<longrightarrow>
        (case r of
           Some _ \<Rightarrow> lsn w' = lsn w
         | None \<Rightarrow> lsn w (Listener_LoadBalancerId args) (Listener_Port args) = None \<and>
             lsn w' = (lsn w)(Listener_LoadBalancerId args :=
               (lsn w (Listener_LoadBalancerId args))(Listener_Port args \<mapsto>
                 \<lparr>ls_protocol = proto, ls_backend = Listener_BackendServerPort args,
                  ls_status = Stopped\<rparr>))))"

definition starts_listeners :: "'w env \<Rightarrow> 'w listener_view \<Rightarrow> bool" where
  "starts_listeners E lsn \<longleftrightarrow>
     (\<forall>lb port w r w'. invoke_StartListener E lb port w = (r, w') \<longrightarrow>
        (case r of
           Some _ \<Rightarrow> lsn w' = lsn w
         | None \<Rightarrow> (\<exists>st s. lsn w lb port = Some st \<and> s \<noteq> Stopped \<and>
             lsn w' = (lsn w)(lb := (lsn w lb)(port \<mapsto> st\<lparr>ls_status := s\<rparr>)))))"

definition deletes_listeners :: "'w env \<Rightarrow> 'w listener_view \<Rightarrow> bool" where
  "deletes_listeners E lsn \<longleftrightarrow>
     (\<forall>lb port w r w'. invoke_DeleteListener E lb port w = (r, w') \<longrightarrow>
        (case r of
           Some _ \<Rightarrow> lsn w' = lsn w
         | None \<Rightarrow> lsn w' = (lsn w)(lb := (lsn w lb)(port := None))))"

definition listener_contract :: "'w env \<Rightarrow> 'w listener_view \<Rightarrow> bool" where
  "listener_contract E lsn \<longleftrightarrow>
     describes_listeners (invoke_DescribeTCPListenerAttribute E) ''tcp'' lsn \<and>
     describes_listeners (invoke_DescribeUDPListenerAttribute E) ''udp'' lsn \<and>
     creates_listeners (invoke_CreateTCPListener E) ''tcp'' lsn \<and>
     creates_listeners (invoke_CreateUDPListener E) ''udp'' lsn \<and>
     starts_listeners E lsn \<and> deletes_listeners E lsn"

section \<open>Keys\<close>

lemma is_flag_simps [simp]: "\<not> is_flag CHR ''d''" "\<not> is_flag CHR ''s''" "\<not> is_flag CHR ''v''"
  by (simp_all add: is_flag_def)

lemma listener_key_eq: "listener_key port proto = Itoa port @ CHR ''|'' # ToLower proto"
  by (simp add: listener_key_def)

lemma listener_key_inj:
  assumes "listener_key p a = listener_key q b"
  shows "p = q \<and> ToLower a = ToLower b"
proof -
  have "takeWhile (\<lambda>c. c \<noteq> CHR ''|'') (listener_key p a) = Itoa p" for p a
    unfolding listener_key_eq using Itoa_no_bar by (intro takeWhile_sep) auto
  from this [of p a] this [of q b] assms have "Itoa p = Itoa q" by simp
  then have "p = q" by (rule Itoa_inj)
  with assms show ?thesis by (simp add: listener_key_eq)
qed

definition wanted_ports :: "ServicePort list \<Rightarrow> ServicePort list" where
  "wanted_ports ports = filter (\<lambda>p. NodePort p \<noteq> 0) ports"

abbreviation port_key :: "ServicePort \<Rightarrow> string" where
  "port_key p \<equiv> listener_key (Port p) (Protocol p)"

abbreviation lis_key :: "ListenerPortAndProtocolType \<Rightarrow> string" where
  "lis_key l \<equiv> listener_key (ListenerPort l) (ListenerProtocol l)"

lemma expected_listeners_fold:
  "expected_listeners ports m = fold (\<lambda>(k, v). gm_set k v) (map (\<lambda>p. (port_key p, p)) (wanted_ports ports)) m"
  by (induction ports arbitrary: m) (auto simp: wanted_ports_def)

lemma expected_listeners_wf: "gm_wf m \<Longrightarrow> gm_wf (expected_listeners ports m)"
  unfolding expected_listeners_fold by (rule gm.invar_fold_assign)

lemma expected_listeners_lookup:
  assumes "distinct (map Port (wanted_ports ports))"
  shows "map_of (expected_listeners ports []) k = Some sp \<longleftrightarrow> sp \<in> set (wanted_ports ports) \<and> k = port_key sp"
proof -
  let ?kvs = "map (\<lambda>p. (port_key p, p)) (wanted_ports ports)"
  have "distinct (map fst ?kvs)"
  proof -
    have "inj_on port_key (set (wanted_ports ports))"
      using assms by (auto simp: inj_on_def distinct_map dest: listener_key_inj)
    moreover have "distinct (wanted_ports ports)" using assms by (simp add: distinct_map)
    ultimately show ?thesis by (simp add: distinct_map comp_def)
  qed
  then have "distinct (map fst (rev ?kvs))"
    by (simp only: rev_map [symmetric] distinct_rev)
  then have "map_of (rev ?kvs) k = Some sp \<longleftrightarrow> (k, sp) \<in> set ?kvs"
    by (simp only: map_of_eq_Some_iff set_rev)
  moreover have "map_of (expected_listeners ports []) = map_of (rev ?kvs)"
    unfolding expected_listeners_fold gm.lookup_fold_assign by simp
  ultimately show ?thesis by auto
qed

section \<open>The difference\<close>

definition kept :: "(int \<rightharpoonup> listener_state) \<Rightarrow> ServicePort gomap \<Rightarrow> ListenerPortAndProtocolType \<Rightarrow> bool" where
  "kept V expected l \<longleftrightarrow>
     (\<exists>sp st. map_of expected (lis_key l) = Some sp \<and> V (ListenerPort l) = Some st \<and> ls_backend st = NodePort sp)"

definition int32_backends :: "(int \<rightharpoonup> listener_state) \<Rightarrow> bool" where
  "int32_backends V \<longleftrightarrow> (\<forall>port st. V port = Some st \<longrightarrow> is_int32 (ls_backend st))"

lemma kept_delete: "ListenerPort l' \<noteq> ListenerPort l \<Longrightarrow> kept V (gm_delete (lis_key l) m) l' = kept V m l'"
  by (auto simp: kept_def gm.lookup_remove dest: listener_key_inj)

lemma describe_listener:
  assumes "describes_listeners describe proto lsn"
    and "bnd (bnd (call (describe lb port)) (\<lambda>r. case r of Inl err \<Rightarrow> ret (None, Some err)
           | Inr response \<Rightarrow> ret (Some response, None))) read_listener w = (r, w')"
  shows "lsn w' = lsn w \<and>
     (\<forall>bp status err. r = Ret (bp, status, err) \<longrightarrow> err = None \<and>
       (\<exists>b. lsn w lb port = Some \<lparr>ls_protocol = proto, ls_backend = b, ls_status = status\<rparr> \<and> bp = to_int32 b))"
proof -
  obtain x w1 where c: "describe lb port w = (x, w1)" by fastforce
  with assms(1) have "lsn w1 = lsn w" and "\<forall>resp. x = Inr resp \<longrightarrow>
      lsn w lb port = Some \<lparr>ls_protocol = proto, ls_backend = BackendServerPort resp, ls_status = ListenerStatus resp\<rparr>"
    unfolding describes_listeners_def by blast+
  with assms(2) c show ?thesis
    by (cases x) (auto simp: go_defs read_listener_def nil_deref_def)
qed

lemma getLBListenerAttributes_view:
  assumes "listener_contract E lsn"
    and "getLBListenerAttributes E lb l w = (r, w')"
  shows "lsn w' = lsn w \<and>
     (\<forall>bp status. r = Ret (bp, status, None) \<longrightarrow>
       (\<exists>st. lsn w (LoadBalancerId lb) (ListenerPort l) = Some st \<and> bp = to_int32 (ls_backend st) \<and>
             status = ls_status st \<and> ls_protocol st = ToLower (ListenerProtocol l)))"
proof -
  from assms(1) have t: "describes_listeners (invoke_DescribeTCPListenerAttribute E) ''tcp'' lsn"
    and u: "describes_listeners (invoke_DescribeUDPListenerAttribute E) ''udp'' lsn"
    by (simp_all add: listener_contract_def)
  note view = getLBListenerAttributes_def DescribeLoadBalancerTCPListenerAttribute_def
    DescribeLoadBalancerUDPListenerAttribute_def
  consider (tcp) "ToLower (ListenerProtocol l) = ''tcp''" | (udp) "ToLower (ListenerProtocol l) = ''udp''"
    | (other) "ToLower (ListenerProtocol l) \<noteq> ''tcp''" "ToLower (ListenerProtocol l) \<noteq> ''udp''" by blast
  then show ?thesis
  proof cases
    case tcp
    then have "bnd (DescribeLoadBalancerTCPListenerAttribute E (LoadBalancerId lb) (ListenerPort l)) read_listener w = (r, w')"
      using assms(2) by (simp add: getLBListenerAttributes_def)
    from describe_listener [OF t this [unfolded view]] tcp show ?thesis by auto
  next
    case udp
    then have "bnd (DescribeLoadBalancerUDPListenerAttribute E (LoadBalancerId lb) (ListenerPort l)) read_listener w = (r, w')"
      using assms(2) by (simp add: getLBListenerAttributes_def)
    from describe_listener [OF u this [unfolded view]] udp show ?thesis by auto
  next
    case other
    with assms(2) show ?thesis by (auto simp: getLBListenerAttributes_def)
  qed
qed

definition stopped_at :: "(int \<rightharpoonup> listener_state) \<Rightarrow> ListenerPortAndProtocolType \<Rightarrow> bool" where
  "stopped_at V l \<longleftrightarrow> (\<exists>st. V (ListenerPort l) = Some st \<and> ls_status st = Stopped)"

text \<open>
  What a finished comparison returns: the wanted ports without a listener to keep, the
  ports of the listeners that are not kept, and those of the kept ones that are stopped.
\<close>

definition diff_spec where
  "diff_spec V ls m rem stp m' rem' stp' \<longleftrightarrow>
     gm_wf m' \<and>
     map_of m' = map_of m |` (- lis_key ` set (filter (kept V m) ls)) \<and>
     rem' = rem @ map ListenerPort (filter (\<lambda>l. \<not> kept V m l) ls) \<and>
     stp' = stp @ map ListenerPort (filter (\<lambda>l. kept V m l \<and> stopped_at V l) ls)"

lemma diff_spec_skip:
  "\<not> kept V m l \<Longrightarrow> diff_spec V ls m (rem @ [ListenerPort l]) stp m' rem' stp' \<Longrightarrow>
   diff_spec V (l # ls) m rem stp m' rem' stp'"
  by (simp add: diff_spec_def)

lemma diff_spec_keep:
  assumes "kept V m l" and "ListenerPort l \<notin> ListenerPort ` set ls"
    and "diff_spec V ls (gm_delete (lis_key l) m) rem (if stopped_at V l then stp @ [ListenerPort l] else stp) m' rem' stp'"
  shows "diff_spec V (l # ls) m rem stp m' rem' stp'"
proof -
  let ?m = "gm_delete (lis_key l) m"
  have k: "kept V ?m l' = kept V m l'" if "l' \<in> set ls" for l'
    using that assms(2) by (intro kept_delete) (metis imageI)
  then have f: "filter (kept V ?m) ls = filter (kept V m) ls"
    "filter (\<lambda>l. \<not> kept V ?m l) ls = filter (\<lambda>l. \<not> kept V m l) ls"
    "filter (\<lambda>l. kept V ?m l \<and> stopped_at V l) ls = filter (\<lambda>l. kept V m l \<and> stopped_at V l) ls"
    by (simp_all cong: filter_cong)
  have r: "map_of ?m |` (- S) = map_of m |` (- insert (lis_key l) S)" for S
    by (auto simp: gm.lookup_remove restrict_map_def fun_eq_iff)
  show ?thesis
    using assms(1,3) unfolding diff_spec_def f r by simp
qed

lemma diff_listeners_Some:
  assumes "diff_listeners E lb (l # ls) m rem stp w = (Ret (Inr x), w')"
    and "map_of m (lis_key l) = Some sp"
  obtains bp status w1 where "getLBListenerAttributes E lb l w = (Ret (bp, status, None), w1)"
    and "(if bp = NodePort sp
          then diff_listeners E lb ls (gm_delete (lis_key l) m) rem (if status = Stopped then stp @ [Port sp] else stp)
          else diff_listeners E lb ls m (rem @ [ListenerPort l]) stp) w1 = (Ret (Inr x), w')"
proof -
  from assms obtain y w1 where g: "getLBListenerAttributes E lb l w = (Ret y, w1)"
    and d: "(case y of (bp, status, err) \<Rightarrow> case err of Some e \<Rightarrow> ret (Inl e) | None \<Rightarrow>
          if bp = NodePort sp
          then diff_listeners E lb ls (gm_delete (lis_key l) m) rem (if status = Stopped then stp @ [Port sp] else stp)
          else diff_listeners E lb ls m (rem @ [ListenerPort l]) stp) w1 = (Ret (Inr x), w')"
    unfolding diff_listeners.simps Let_def by (simp only: option.case) (rule bnd_RetE)
  obtain bp status err where "y = (bp, status, err)" by (cases y)
  with g d that show thesis by (cases err) auto
qed

lemma diff_listeners_result:
  assumes "listener_contract E lsn"
    and "diff_listeners E lb ls m rem stp w = (Ret (Inr (m', rem', stp')), w')"
    and "distinct (map ListenerPort ls)" and "V = lsn w (LoadBalancerId lb)"
    and "int32_backends V"
    and "\<forall>k sp. map_of m k = Some sp \<longrightarrow> k = port_key sp \<and> is_int32 (NodePort sp)"
    and "gm_wf m"
  shows "lsn w' = lsn w \<and> diff_spec V ls m rem stp m' rem' stp'"
  using assms(2-)
proof (induction ls arbitrary: m rem stp w)
  case Nil
  then show ?case by (auto simp: diff_spec_def)
next
  case (Cons l ls)
  show ?case
  proof (cases "map_of m (lis_key l)")
    case None
    then have nk: "\<not> kept V m l" by (simp add: kept_def)
    from None Cons.prems(1) have "diff_listeners E lb ls m (rem @ [ListenerPort l]) stp w = (Ret (Inr (m', rem', stp')), w')"
      by (simp add: Let_def)
    then have "lsn w' = lsn w \<and> diff_spec V ls m (rem @ [ListenerPort l]) stp m' rem' stp'"
      using Cons.prems(2-) by (intro Cons.IH) auto
    then show ?thesis by (blast intro: diff_spec_skip [OF nk])
  next
    case (Some sp)
    then have "lis_key l = port_key sp" and "is_int32 (NodePort sp)" using Cons.prems(5) by blast+
    then have sp: "Port sp = ListenerPort l" "is_int32 (NodePort sp)"
      using listener_key_inj by fastforce+
    from Cons.prems(1) Some obtain bp status w1 where
      g: "getLBListenerAttributes E lb l w = (Ret (bp, status, None), w1)" and
      d: "(if bp = NodePort sp
           then diff_listeners E lb ls (gm_delete (lis_key l) m) rem (if status = Stopped then stp @ [Port sp] else stp)
           else diff_listeners E lb ls m (rem @ [ListenerPort l]) stp) w1 = (Ret (Inr (m', rem', stp')), w')"
      by (rule diff_listeners_Some)
    from getLBListenerAttributes_view [OF assms(1) g] obtain st where
      v: "lsn w1 = lsn w" and st: "V (ListenerPort l) = Some st" and bp: "bp = to_int32 (ls_backend st)" and
      status: "status = ls_status st"
      using Cons.prems(3) by auto
    from st Cons.prems(4) have "is_int32 (ls_backend st)" by (auto simp: int32_backends_def)
    with bp have bp: "bp = ls_backend st" by simp
    have k: "kept V m l \<longleftrightarrow> bp = NodePort sp"
      using Some st bp by (auto simp: kept_def)
    show ?thesis
    proof (cases "bp = NodePort sp")
      case True
      let ?m = "gm_delete (lis_key l) m"
      have "\<forall>k sp. map_of ?m k = Some sp \<longrightarrow> k = port_key sp \<and> is_int32 (NodePort sp)"
        using Cons.prems(5) by (simp add: gm.lookup_remove)
      moreover have "gm_wf ?m" using Cons.prems(6) by (rule gm.invar_remove)
      moreover have "status = Stopped \<longleftrightarrow> stopped_at V l" using st status by (simp add: stopped_at_def)
      ultimately have "lsn w' = lsn w1 \<and> diff_spec V ls ?m rem (if stopped_at V l then stp @ [ListenerPort l] else stp) m' rem' stp'"
        using Cons.IH [of ?m rem "if status = Stopped then stp @ [Port sp] else stp" w1] d True Cons.prems(2-4) v sp(1)
        by (simp split: if_splits)
      with v k True Cons.prems(2) show ?thesis by (auto intro: diff_spec_keep)
    next
      case False
      then have "diff_listeners E lb ls m (rem @ [ListenerPort l]) stp w1 = (Ret (Inr (m', rem', stp')), w')"
        using d by simp
      then have "lsn w' = lsn w1 \<and> diff_spec V ls m (rem @ [ListenerPort l]) stp m' rem' stp'"
        using Cons.prems(2-) v by (intro Cons.IH) auto
      with v k False show ?thesis by (simp add: diff_spec_skip)
    qed
  qed
qed

section \<open>The changes\<close>

text \<open>One load balancer's listeners change, those of the others stay.\<close>

abbreviation on_lb :: "'w listener_view \<Rightarrow> 'w \<Rightarrow> 'w \<Rightarrow> string \<Rightarrow> (int \<rightharpoonup> listener_state) \<Rightarrow> bool" where
  "on_lb lsn w w' lb V \<equiv> lsn w' = (lsn w)(lb := V)"

lemma start_listeners_view:
  assumes "starts_listeners E lsn" and "start_listeners E lb ports w = (Ret None, w')"
  shows "\<exists>V. on_lb lsn w w' (LoadBalancerId lb) V \<and>
     (\<forall>port. if port \<in> set ports
        then \<exists>st s. lsn w (LoadBalancerId lb) port = Some st \<and> s \<noteq> Stopped \<and> V port = Some (st\<lparr>ls_status := s\<rparr>)
        else V port = lsn w (LoadBalancerId lb) port)"
  using assms(2)
proof (induction ports arbitrary: w)
  case Nil
  then show ?case by (intro exI [of _ "lsn w (LoadBalancerId lb)"]) simp
next
  case (Cons p ports)
  let ?id = "LoadBalancerId lb"
  from Cons.prems obtain w1 where c: "invoke_StartListener E ?id p w = (None, w1)"
    and r: "start_listeners E lb ports w1 = (Ret None, w')"
    by (auto simp: StartLoadBalancerListener_def)
  from assms(1) c obtain st s where st: "lsn w ?id p = Some st" "s \<noteq> Stopped"
    "lsn w1 = (lsn w)(?id := (lsn w ?id)(p \<mapsto> st\<lparr>ls_status := s\<rparr>))"
    unfolding starts_listeners_def by fastforce
  from Cons.IH [OF r] obtain V where V: "on_lb lsn w1 w' ?id V"
    "\<forall>port. if port \<in> set ports
        then \<exists>st s. lsn w1 ?id port = Some st \<and> s \<noteq> Stopped \<and> V port = Some (st\<lparr>ls_status := s\<rparr>)
        else V port = lsn w1 ?id port" by blast
  have "on_lb lsn w w' ?id V" using V(1) st(3) by simp
  moreover have "if port \<in> set (p # ports)
        then \<exists>st s. lsn w ?id port = Some st \<and> s \<noteq> Stopped \<and> V port = Some (st\<lparr>ls_status := s\<rparr>)
        else V port = lsn w ?id port" for port
    using V(2) [rule_format, of port] st by (auto split: if_splits)
  ultimately show ?case by blast
qed

lemma delete_listeners_view:
  assumes "deletes_listeners E lsn" and "delete_listeners E lb ports w = (Ret None, w')"
  shows "on_lb lsn w w' (LoadBalancerId lb) (lsn w (LoadBalancerId lb) |` (- set ports))"
  using assms(2)
proof (induction ports arbitrary: w)
  case Nil
  then show ?case by simp
next
  case (Cons p ports)
  let ?id = "LoadBalancerId lb"
  from Cons.prems obtain w1 where c: "invoke_DeleteListener E ?id p w = (None, w1)"
    and r: "delete_listeners E lb ports w1 = (Ret None, w')"
    by (auto simp: DeleteLoadBalancerListener_def)
  from assms(1) c have "lsn w1 = (lsn w)(?id := (lsn w ?id)(p := None))"
    unfolding deletes_listeners_def by fastforce
  with Cons.IH [OF r] show ?case
    by (auto simp: fun_eq_iff restrict_map_def)
qed

definition created :: "ServicePort \<Rightarrow> string \<Rightarrow> listener_state" where
  "created sp s = \<lparr>ls_protocol = ToLower (Protocol sp), ls_backend = NodePort sp, ls_status = s\<rparr>"

lemma ToLower_protocols [simp]: "ToLower ProtocolTCP = ''tcp''" "ToLower ProtocolUDP = ''udp''"
  by (simp_all add: ToLower_def ProtocolTCP_def ProtocolUDP_def lower_char_def char_of_def bit_0)

lemma create_listener_view:
  assumes "listener_contract E lsn" and "create_listener E lb options sp w = (Ret None, w')"
  shows "lsn w (LoadBalancerId lb) (Port sp) = None \<and>
     on_lb lsn w w' (LoadBalancerId lb) ((lsn w (LoadBalancerId lb))(Port sp \<mapsto> created sp Stopped))"
proof -
  from assms(1) have t: "creates_listeners (invoke_CreateTCPListener E) ''tcp'' lsn"
    and u: "creates_listeners (invoke_CreateUDPListener E) ''udp'' lsn"
    by (simp_all add: listener_contract_def)
  from assms(2) consider
    (tcp) "Protocol sp = ProtocolTCP" "invoke_CreateTCPListener E (listener_args lb options sp ''tcp'') w = (None, w')"
  | (udp) "Protocol sp = ProtocolUDP" "invoke_CreateUDPListener E (listener_args lb options sp '''') w = (None, w')"
    by (auto simp: create_listener_def CreateLoadBalancerTCPListener_def CreateLoadBalancerUDPListener_def split: if_splits)
  then show ?thesis
  proof cases
    case tcp
    with t have "case None of None \<Rightarrow> lsn w (LoadBalancerId lb) (Port sp) = None \<and>
       lsn w' = (lsn w)(LoadBalancerId lb := (lsn w (LoadBalancerId lb))(Port sp \<mapsto>
          \<lparr>ls_protocol = ''tcp'', ls_backend = NodePort sp, ls_status = Stopped\<rparr>)) | Some _ \<Rightarrow> True"
      unfolding creates_listeners_def by (fastforce simp: listener_args_def)
    with tcp show ?thesis by (simp add: created_def)
  next
    case udp
    with u have "case None of None \<Rightarrow> lsn w (LoadBalancerId lb) (Port sp) = None \<and>
       lsn w' = (lsn w)(LoadBalancerId lb := (lsn w (LoadBalancerId lb))(Port sp \<mapsto>
          \<lparr>ls_protocol = ''udp'', ls_backend = NodePort sp, ls_status = Stopped\<rparr>)) | Some _ \<Rightarrow> True"
      unfolding creates_listeners_def by (fastforce simp: listener_args_def)
    with udp show ?thesis by (simp add: created_def)
  qed
qed

lemma create_listeners_view:
  assumes "listener_contract E lsn" and "create_listeners E lb options sps w = (Ret None, w')"
    and "distinct (map Port sps)"
  shows "\<exists>V. on_lb lsn w w' (LoadBalancerId lb) V \<and>
     (\<forall>sp \<in> set sps. \<exists>s. s \<noteq> Stopped \<and> V (Port sp) = Some (created sp s)) \<and>
     (\<forall>port. port \<notin> Port ` set sps \<longrightarrow> V port = lsn w (LoadBalancerId lb) port)"
  using assms(2,3)
proof (induction sps arbitrary: w)
  case Nil
  then show ?case by (intro exI [of _ "lsn w (LoadBalancerId lb)"]) simp
next
  case (Cons sp sps)
  let ?id = "LoadBalancerId lb"
  from Cons.prems obtain w1 w2 where c: "create_listener E lb options sp w = (Ret None, w1)"
    and t: "invoke_StartListener E ?id (Port sp) w1 = (None, w2)"
    and r: "create_listeners E lb options sps w2 = (Ret None, w')"
    by (auto simp: StartLoadBalancerListener_def)
  from create_listener_view [OF assms(1) c]
  have v1: "on_lb lsn w w1 ?id ((lsn w ?id)(Port sp \<mapsto> created sp Stopped))" by simp
  from assms(1) t obtain st s where st: "lsn w1 ?id (Port sp) = Some st" "s \<noteq> Stopped"
    "lsn w2 = (lsn w1)(?id := (lsn w1 ?id)(Port sp \<mapsto> st\<lparr>ls_status := s\<rparr>))"
    unfolding listener_contract_def starts_listeners_def by fastforce
  then have v2: "on_lb lsn w w2 ?id ((lsn w ?id)(Port sp \<mapsto> created sp s))"
    using v1 by (auto simp: created_def)
  from Cons.prems(2) have "distinct (map Port sps)" by simp
  from Cons.IH [OF r this] obtain V where V: "on_lb lsn w2 w' ?id V"
    "\<forall>sp \<in> set sps. \<exists>s. s \<noteq> Stopped \<and> V (Port sp) = Some (created sp s)"
    "\<forall>port. port \<notin> Port ` set sps \<longrightarrow> V port = lsn w2 ?id port" by blast
  have "on_lb lsn w w' ?id V" using V(1) v2 by simp
  moreover have "\<exists>s. s \<noteq> Stopped \<and> V (Port sp) = Some (created sp s)"
    using V(3) v2 st(2) Cons.prems(2) by auto
  ultimately show ?case using V(2,3) v2 by auto
qed

section \<open>Convergence of the listeners\<close>

definition listener_snapshot :: "(int \<rightharpoonup> listener_state) \<Rightarrow> LoadBalancerType \<Rightarrow> bool" where
  "listener_snapshot V lb \<longleftrightarrow>
     distinct (map ListenerPort (ListenerPortsAndProtocol lb)) \<and>
     dom V = ListenerPort ` set (ListenerPortsAndProtocol lb) \<and>
     (\<forall>l \<in> set (ListenerPortsAndProtocol lb). \<forall>st.
        V (ListenerPort l) = Some st \<longrightarrow> ls_protocol st = ToLower (ListenerProtocol l))"

definition wf_ports :: "ServicePort list \<Rightarrow> bool" where
  "wf_ports ports \<longleftrightarrow>
     distinct (map Port (wanted_ports ports)) \<and> (\<forall>p \<in> set (wanted_ports ports). is_int32 (NodePort p))"

definition listeners_in_sync :: "(int \<rightharpoonup> listener_state) \<Rightarrow> ServicePort list \<Rightarrow> bool" where
  "listeners_in_sync V ports \<longleftrightarrow>
     dom V = Port ` set (wanted_ports ports) \<and>
     (\<forall>sp \<in> set (wanted_ports ports). \<exists>s. s \<noteq> Stopped \<and> V (Port sp) = Some (created sp s))"

lemma kept_expected:
  assumes "wf_ports ports" and "listener_snapshot V lb" and "l \<in> set (ListenerPortsAndProtocol lb)"
  shows "kept V (expected_listeners ports []) l \<longleftrightarrow>
     (\<exists>sp \<in> set (wanted_ports ports). lis_key l = port_key sp \<and>
        (\<exists>s. V (Port sp) = Some (created sp s)))"
proof
  assume "kept V (expected_listeners ports []) l"
  then obtain sp st where sp: "sp \<in> set (wanted_ports ports)" "lis_key l = port_key sp"
    and st: "V (ListenerPort l) = Some st" "ls_backend st = NodePort sp"
    using assms(1) by (auto simp: kept_def wf_ports_def expected_listeners_lookup)
  from sp(2) have k: "ListenerPort l = Port sp" "ToLower (ListenerProtocol l) = ToLower (Protocol sp)"
    using listener_key_inj by blast+
  from assms(2,3) st(1) have "ls_protocol st = ToLower (ListenerProtocol l)"
    by (auto simp: listener_snapshot_def)
  with k st(2) have "st = created sp (ls_status st)" by (simp add: created_def)
  with st(1) k(1) have "V (Port sp) = Some (created sp (ls_status st))" by simp
  with sp show "\<exists>sp \<in> set (wanted_ports ports). lis_key l = port_key sp \<and>
        (\<exists>s. V (Port sp) = Some (created sp s))" by blast
next
  assume "\<exists>sp \<in> set (wanted_ports ports). lis_key l = port_key sp \<and> (\<exists>s. V (Port sp) = Some (created sp s))"
  then obtain sp s where sp: "sp \<in> set (wanted_ports ports)" "lis_key l = port_key sp" "V (Port sp) = Some (created sp s)"
    by blast
  moreover from sp(2) have "ListenerPort l = Port sp" using listener_key_inj by blast
  moreover have "map_of (expected_listeners ports []) (lis_key l) = Some sp"
    using sp(1,2) assms(1) expected_listeners_lookup [of ports "lis_key l" sp] by (simp add: wf_ports_def)
  ultimately show "kept V (expected_listeners ports []) l"
    by (auto simp: kept_def created_def)
qed

lemma ensureLBListeners_stages:
  assumes "ensureLBListeners E lb ports options w = (Ret None, w')"
  obtains m rem stp w1 w2 w3 where
    "diff_listeners E lb (ListenerPortsAndProtocol lb) (expected_listeners ports []) [] [] w = (Ret (Inr (m, rem, stp)), w1)"
    "start_listeners E lb stp w1 = (Ret None, w2)"
    "delete_listeners E lb rem w2 = (Ret None, w3)"
    "create_listeners E lb options (map snd (range_map E w3 m)) w3 = (Ret None, w')"
proof -
  from assms obtain r w1 where
    d: "diff_listeners E lb (ListenerPortsAndProtocol lb) (expected_listeners ports []) [] [] w = (Ret r, w1)"
    and k: "(case r of Inl err \<Rightarrow> ret (Some err) | Inr (expected, removals, stopped) \<Rightarrow>
           tryO (start_listeners E lb stopped) (tryO (delete_listeners E lb removals)
             (\<lambda>w. create_listeners E lb options (map snd (range_map E w expected)) w))) w1 = (Ret None, w')"
    unfolding ensureLBListeners_def by (rule bnd_RetE)
  from k obtain m rem stp where "r = Inr (m, rem, stp)"
    by (cases r) auto
  with d k that show thesis by auto
qed

text \<open>
  What carrying out the plan does to the listeners: the kept ones that were stopped are
  started (\<open>Vs\<close>), those that are not kept go, and the ports \<open>S\<close> are created.
\<close>

definition carried_out ::
  "(int \<rightharpoonup> listener_state) \<Rightarrow> ListenerPortAndProtocolType list \<Rightarrow> (ListenerPortAndProtocolType \<Rightarrow> bool) \<Rightarrow>
   ServicePort set \<Rightarrow> (int \<rightharpoonup> listener_state) \<Rightarrow> (int \<rightharpoonup> listener_state) \<Rightarrow> bool" where
  "carried_out Vi ls K S Vs V \<longleftrightarrow>
     (\<forall>port. if port \<in> ListenerPort ` {l \<in> set ls. K l \<and> stopped_at Vi l}
        then \<exists>st s. Vi port = Some st \<and> s \<noteq> Stopped \<and> Vs port = Some (st\<lparr>ls_status := s\<rparr>)
        else Vs port = Vi port) \<and>
     (\<forall>sp \<in> S. \<exists>s. s \<noteq> Stopped \<and> V (Port sp) = Some (created sp s)) \<and>
     (\<forall>port. port \<notin> Port ` S \<longrightarrow> V port = (Vs |` (- ListenerPort ` {l \<in> set ls. \<not> K l})) port)"

lemma carried_outD:
  assumes "carried_out Vi ls K S Vs V"
  shows "port \<in> ListenerPort ` {l \<in> set ls. K l \<and> stopped_at Vi l} \<Longrightarrow>
      \<exists>st s. Vi port = Some st \<and> s \<noteq> Stopped \<and> Vs port = Some (st\<lparr>ls_status := s\<rparr>)"
    and "port \<notin> ListenerPort ` {l \<in> set ls. K l \<and> stopped_at Vi l} \<Longrightarrow> Vs port = Vi port"
    and "sp \<in> S \<Longrightarrow> \<exists>s. s \<noteq> Stopped \<and> V (Port sp) = Some (created sp s)"
    and "port \<notin> Port ` S \<Longrightarrow> V port = (Vs |` (- ListenerPort ` {l \<in> set ls. \<not> K l})) port"
  using assms unfolding carried_out_def by (simp_all split: if_splits)

lemma wanted_unique:
  assumes "wf_ports ports" and "sp \<in> set (wanted_ports ports)" and "sp' \<in> set (wanted_ports ports)"
    and "Port sp = Port sp'"
  shows "sp = sp'"
  using assms by (auto simp: wf_ports_def distinct_map inj_on_def)

lemma kept_port_value:
  assumes wfp: "wf_ports ports" and snap: "listener_snapshot Vi lb"
    and l: "l \<in> set (ListenerPortsAndProtocol lb)" "kept Vi (expected_listeners ports []) l"
    and sp: "sp \<in> set (wanted_ports ports)" "lis_key l = port_key sp"
  shows "\<exists>s. Vi (Port sp) = Some (created sp s)"
proof -
  from kept_expected [OF wfp snap l(1)] l(2) obtain sp' s where
    sp': "sp' \<in> set (wanted_ports ports)" "lis_key l = port_key sp'" "Vi (Port sp') = Some (created sp' s)" by blast
  from sp(2) sp'(2) have "Port sp' = Port sp" using listener_key_inj by metis
  from wanted_unique [OF wfp sp'(1) sp(1) this] sp'(3) show ?thesis by blast
qed

lemma plan_wanted:
  assumes wfp: "wf_ports ports" and snap: "listener_snapshot Vi lb"
    and co: "carried_out Vi (ListenerPortsAndProtocol lb) (kept Vi (expected_listeners ports [])) S Vs V"
    and S: "S = {sp \<in> set (wanted_ports ports).
        port_key sp \<notin> lis_key ` {l \<in> set (ListenerPortsAndProtocol lb). kept Vi (expected_listeners ports []) l}}"
    and sp: "sp \<in> set (wanted_ports ports)"
  shows "\<exists>s. s \<noteq> Stopped \<and> V (Port sp) = Some (created sp s)"
proof (cases "sp \<in> S")
  case True
  with carried_outD(3) [OF co] show ?thesis by blast
next
  case False
  let ?ls = "ListenerPortsAndProtocol lb" and ?K = "kept Vi (expected_listeners ports [])"
  from False S sp obtain l where l: "l \<in> set ?ls" "?K l" "lis_key l = port_key sp" by auto
  from l(3) have p: "ListenerPort l = Port sp" using listener_key_inj by blast
  from kept_port_value [OF wfp snap l(1,2) sp l(3)] obtain s where v0: "Vi (Port sp) = Some (created sp s)" ..
  have "Port sp \<notin> Port ` S" using False S sp wanted_unique [OF wfp sp] by blast
  moreover have "Port sp \<notin> ListenerPort ` {l \<in> set ?ls. \<not> ?K l}"
    using l(1,2) p snap by (force simp: listener_snapshot_def distinct_map inj_on_def)
  ultimately have v: "V (Port sp) = Vs (Port sp)" using carried_outD(4) [OF co] by simp
  show ?thesis
  proof (cases "Port sp \<in> ListenerPort ` {l \<in> set ?ls. ?K l \<and> stopped_at Vi l}")
    case True
    from carried_outD(1) [OF co True] v0 v show ?thesis by (auto simp: created_def)
  next
    case False
    with l p have "\<not> stopped_at Vi l" by force
    with v0 p have "s \<noteq> Stopped" by (auto simp: stopped_at_def created_def)
    with carried_outD(2) [OF co False] v v0 show ?thesis by auto
  qed
qed

lemma plan_unwanted:
  assumes wfp: "wf_ports ports" and snap: "listener_snapshot Vi lb"
    and co: "carried_out Vi (ListenerPortsAndProtocol lb) (kept Vi (expected_listeners ports [])) S Vs V"
    and S: "S \<subseteq> set (wanted_ports ports)" and port: "port \<notin> Port ` set (wanted_ports ports)"
  shows "V port = None"
proof -
  let ?ls = "ListenerPortsAndProtocol lb" and ?K = "kept Vi (expected_listeners ports [])"
  have v: "V port = (Vs |` (- ListenerPort ` {l \<in> set ?ls. \<not> ?K l})) port"
    by (rule carried_outD(4) [OF co]) (use S port in blast)
  have nk: "\<not> ?K l" if "l \<in> set ?ls" "ListenerPort l = port" for l
    using that kept_expected [OF wfp snap that(1)] port listener_key_inj by blast
  show ?thesis
  proof (cases "Vi port")
    case None
    then have "Vs port = None" using carried_outD(1,2) [OF co, of port] by auto
    with v show ?thesis by (simp add: restrict_map_def)
  next
    case (Some st)
    then have "port \<in> dom Vi" by blast
    then obtain l where "l \<in> set ?ls" "ListenerPort l = port"
      using snap by (auto simp: listener_snapshot_def)
    with nk v show ?thesis by (auto simp: restrict_map_def)
  qed
qed

lemma plan_correct:
  assumes "wf_ports ports" and "listener_snapshot Vi lb"
    and "carried_out Vi (ListenerPortsAndProtocol lb) (kept Vi (expected_listeners ports [])) S Vs V"
    and "S = {sp \<in> set (wanted_ports ports).
        port_key sp \<notin> lis_key ` {l \<in> set (ListenerPortsAndProtocol lb). kept Vi (expected_listeners ports []) l}}"
  shows "listeners_in_sync V ports"
proof -
  have "port \<in> dom V \<longleftrightarrow> port \<in> Port ` set (wanted_ports ports)" for port
    using plan_wanted [OF assms] plan_unwanted [OF assms(1-3), of port] assms(4)
    by (cases "port \<in> Port ` set (wanted_ports ports)") fastforce+
  with plan_wanted [OF assms] show ?thesis unfolding listeners_in_sync_def by blast
qed

lemma created_ports:
  assumes ro: "range_ok E" and wfm: "gm_wf m" and wfp: "wf_ports ports"
    and m: "map_of m = map_of (expected_listeners ports []) |` (- lis_key ` K)"
  shows "sp \<in> set (map snd (range_map E w m)) \<longleftrightarrow>
      sp \<in> set (wanted_ports ports) \<and> port_key sp \<notin> lis_key ` K"
    and "distinct (map Port (map snd (range_map E w m)))"
proof -
  have look: "map_of (expected_listeners ports []) k = Some sp \<longleftrightarrow> sp \<in> set (wanted_ports ports) \<and> k = port_key sp" for k sp
    using wfp expected_listeners_lookup by (simp add: wf_ports_def)
  then have lm: "map_of m k = Some sp \<longleftrightarrow>
      sp \<in> set (wanted_ports ports) \<and> k = port_key sp \<and> port_key sp \<notin> lis_key ` K" for k sp
    unfolding m restrict_map_def by (simp add: look split: if_split) blast
  have "sp \<in> set (map snd (range_map E w m)) \<longleftrightarrow> (\<exists>k. map_of m k = Some sp)"
    using gm.iterate_all [OF ro wfm] by force
  with lm show "sp \<in> set (map snd (range_map E w m)) \<longleftrightarrow>
      sp \<in> set (wanted_ports ports) \<and> port_key sp \<notin> lis_key ` K" by auto
  have "distinct (map (Port \<circ> snd) (range_map E w m))"
    by (rule gm.iterate_values_distinct [OF ro wfm])
       (use lm wfp in \<open>auto simp: wf_ports_def distinct_map inj_on_def\<close>)
  then show "distinct (map Port (map snd (range_map E w m)))" by simp
qed

lemma diff_listeners_done:
  assumes c: "listener_contract E lsn" and wfp: "wf_ports ports"
    and snap: "listener_snapshot (lsn w (LoadBalancerId lb)) lb"
    and i32: "int32_backends (lsn w (LoadBalancerId lb))"
    and d: "diff_listeners E lb (ListenerPortsAndProtocol lb) (expected_listeners ports []) [] [] w =
        (Ret (Inr (m, rem, stp)), w')"
  shows "lsn w' = lsn w" and "diff_spec (lsn w (LoadBalancerId lb)) (ListenerPortsAndProtocol lb)
      (expected_listeners ports []) [] [] m rem stp"
proof -
  have "lsn w' = lsn w \<and> diff_spec (lsn w (LoadBalancerId lb)) (ListenerPortsAndProtocol lb)
      (expected_listeners ports []) [] [] m rem stp"
    by (rule diff_listeners_result [OF c d _ refl i32])
       (use snap wfp in \<open>auto simp: listener_snapshot_def wf_ports_def expected_listeners_lookup
          intro: expected_listeners_wf\<close>)
  then show "lsn w' = lsn w" and "diff_spec (lsn w (LoadBalancerId lb)) (ListenerPortsAndProtocol lb)
      (expected_listeners ports []) [] [] m rem stp" by simp_all
qed

lemma ensureLBListeners_converges:
  assumes c: "listener_contract E lsn" and ro: "range_ok E" and wfp: "wf_ports ports"
    and snap: "listener_snapshot (lsn w (LoadBalancerId lb)) lb"
    and i32: "int32_backends (lsn w (LoadBalancerId lb))"
    and run: "ensureLBListeners E lb ports options w = (Ret None, w')"
  shows "\<exists>V. on_lb lsn w w' (LoadBalancerId lb) V \<and> listeners_in_sync V ports"
proof -
  let ?id = "LoadBalancerId lb" and ?ls = "ListenerPortsAndProtocol lb" and ?V0 = "lsn w (LoadBalancerId lb)"
  let ?K = "kept ?V0 (expected_listeners ports [])"
  from c have st: "starts_listeners E lsn" and dl: "deletes_listeners E lsn"
    by (simp_all add: listener_contract_def)
  from run obtain m rem stp w1 w2 w3 where
    d: "diff_listeners E lb ?ls (expected_listeners ports []) [] [] w = (Ret (Inr (m, rem, stp)), w1)" and
    s: "start_listeners E lb stp w1 = (Ret None, w2)" and
    r: "delete_listeners E lb rem w2 = (Ret None, w3)" and
    k: "create_listeners E lb options (map snd (range_map E w3 m)) w3 = (Ret None, w')"
    by (rule ensureLBListeners_stages)
  note dd = diff_listeners_done [OF c wfp snap i32 d]
  then have wfm: "gm_wf m"
    and m: "map_of m = map_of (expected_listeners ports []) |` (- lis_key ` {l \<in> set ?ls. ?K l})"
    and rem: "set rem = ListenerPort ` {l \<in> set ?ls. \<not> ?K l}"
    and stp: "set stp = ListenerPort ` {l \<in> set ?ls. ?K l \<and> stopped_at ?V0 l}"
    by (auto simp: diff_spec_def)
  from start_listeners_view [OF st s] obtain V1 where V1: "on_lb lsn w w2 ?id V1"
    "\<forall>port. if port \<in> set stp
        then \<exists>st s. ?V0 port = Some st \<and> s \<noteq> Stopped \<and> V1 port = Some (st\<lparr>ls_status := s\<rparr>)
        else V1 port = ?V0 port"
    unfolding dd(1) by blast
  have V2: "on_lb lsn w w3 ?id (V1 |` (- set rem))"
    using delete_listeners_view [OF dl r] V1(1) by simp
  note sps = created_ports [OF ro wfm wfp m]
  let ?S = "set (map snd (range_map E w3 m))"
  from create_listeners_view [OF c k sps(2)] obtain V where V: "on_lb lsn w3 w' ?id V"
    "\<forall>sp \<in> ?S. \<exists>s. s \<noteq> Stopped \<and> V (Port sp) = Some (created sp s)"
    "\<forall>port. port \<notin> Port ` ?S \<longrightarrow> V port = lsn w3 ?id port"
    by blast
  have "carried_out ?V0 ?ls ?K ?S V1 V"
    unfolding carried_out_def using V1(2) [unfolded stp] V(2,3) V2 [unfolded rem] by simp
  from plan_correct [OF wfp snap this] sps(1) have "listeners_in_sync V ports" by blast
  moreover have "on_lb lsn w w' ?id V" using V(1) V2 by simp
  ultimately show ?thesis by blast
qed

section \<open>Progress\<close>

text \<open>A service that carries out every request that makes sense in its state.\<close>

definition listener_reliable :: "'w env \<Rightarrow> 'w listener_view \<Rightarrow> bool" where
  "listener_reliable E lsn \<longleftrightarrow>
     (\<forall>w lb port st. lsn w lb port = Some st \<longrightarrow>
        (ls_protocol st = ''tcp'' \<longrightarrow> (\<exists>resp w'. invoke_DescribeTCPListenerAttribute E lb port w = (Inr resp, w'))) \<and>
        (ls_protocol st = ''udp'' \<longrightarrow> (\<exists>resp w'. invoke_DescribeUDPListenerAttribute E lb port w = (Inr resp, w'))) \<and>
        (\<exists>w'. invoke_StartListener E lb port w = (None, w')) \<and>
        (\<exists>w'. invoke_DeleteListener E lb port w = (None, w'))) \<and>
     (\<forall>w args. lsn w (Listener_LoadBalancerId args) (Listener_Port args) = None \<longrightarrow>
        (\<exists>w'. invoke_CreateTCPListener E args w = (None, w')) \<and>
        (\<exists>w'. invoke_CreateUDPListener E args w = (None, w')))"

lemma reliableD:
  assumes "listener_reliable E lsn"
  shows "lsn w lb port = Some st \<Longrightarrow> ls_protocol st = ''tcp'' \<Longrightarrow>
      \<exists>resp w'. invoke_DescribeTCPListenerAttribute E lb port w = (Inr resp, w')"
    and "lsn w lb port = Some st \<Longrightarrow> ls_protocol st = ''udp'' \<Longrightarrow>
      \<exists>resp w'. invoke_DescribeUDPListenerAttribute E lb port w = (Inr resp, w')"
    and "lsn w lb port = Some st \<Longrightarrow> \<exists>w'. invoke_StartListener E lb port w = (None, w')"
    and "lsn w lb port = Some st \<Longrightarrow> \<exists>w'. invoke_DeleteListener E lb port w = (None, w')"
    and "lsn w (Listener_LoadBalancerId args) (Listener_Port args) = None \<Longrightarrow>
      \<exists>w'. invoke_CreateTCPListener E args w = (None, w')"
    and "lsn w (Listener_LoadBalancerId args) (Listener_Port args) = None \<Longrightarrow>
      \<exists>w'. invoke_CreateUDPListener E args w = (None, w')"
  using assms unfolding listener_reliable_def by blast+

definition tcp_udp :: "(int \<rightharpoonup> listener_state) \<Rightarrow> bool" where
  "tcp_udp V \<longleftrightarrow> (\<forall>port st. V port = Some st \<longrightarrow> ls_protocol st = ''tcp'' \<or> ls_protocol st = ''udp'')"

lemma started_dom:
  assumes "listener_contract E lsn" and "invoke_StartListener E lb p w = (None, w')"
  shows "dom (lsn w' lb) = dom (lsn w lb)"
proof -
  from assms(1) have "starts_listeners E lsn" by (simp add: listener_contract_def)
  with assms(2) obtain st s where "lsn w lb p = Some st" "lsn w' lb = (lsn w lb)(p \<mapsto> st\<lparr>ls_status := s\<rparr>)"
    unfolding starts_listeners_def by fastforce
  then show ?thesis by auto
qed

lemma deleted_dom:
  assumes "listener_contract E lsn" and "invoke_DeleteListener E lb p w = (None, w')"
  shows "dom (lsn w' lb) = dom (lsn w lb) - {p}"
proof -
  from assms(1) have "deletes_listeners E lsn" by (simp add: listener_contract_def)
  with assms(2) have "lsn w' lb = (lsn w lb)(p := None)"
    unfolding deletes_listeners_def by fastforce
  then show ?thesis by auto
qed

lemma getLBListenerAttributes_returns:
  assumes "listener_reliable E lsn" and "lsn w (LoadBalancerId lb) (ListenerPort l) = Some st"
    and "ls_protocol st = ToLower (ListenerProtocol l)" and "tcp_udp (lsn w (LoadBalancerId lb))"
  shows "\<exists>bp status w'. getLBListenerAttributes E lb l w = (Ret (bp, status, None), w')"
proof -
  from assms(2-4) consider "ToLower (ListenerProtocol l) = ''tcp''" "ls_protocol st = ''tcp''"
    | "ToLower (ListenerProtocol l) = ''udp''" "ls_protocol st = ''udp''"
    unfolding tcp_udp_def by metis
  then show ?thesis
  proof cases
    case 1
    with reliableD(1) [OF assms(1,2)] show ?thesis
      by (auto simp: getLBListenerAttributes_def client_defs go_defs read_listener_def)
  next
    case 2
    with reliableD(2) [OF assms(1,2)] show ?thesis
      by (auto simp: getLBListenerAttributes_def client_defs go_defs read_listener_def)
  qed
qed

lemma diff_listeners_returns:
  assumes "listener_contract E lsn" and "listener_reliable E lsn"
    and "tcp_udp (lsn w (LoadBalancerId lb))"
    and "\<forall>l \<in> set ls. \<exists>st. lsn w (LoadBalancerId lb) (ListenerPort l) = Some st \<and>
           ls_protocol st = ToLower (ListenerProtocol l)"
  shows "\<exists>x w'. diff_listeners E lb ls m rem stp w = (Ret (Inr x), w')"
  using assms(3,4)
proof (induction ls arbitrary: m rem stp w)
  case Nil
  then show ?case by simp
next
  case (Cons l ls)
  obtain bp status w1 where g: "getLBListenerAttributes E lb l w = (Ret (bp, status, None), w1)"
    using getLBListenerAttributes_returns [OF assms(2)] Cons.prems by fastforce
  from getLBListenerAttributes_view [OF assms(1) g] have "lsn w1 = lsn w" by simp
  with Cons.prems have IH: "\<exists>x w'. diff_listeners E lb ls m rem stp w1 = (Ret (Inr x), w')"
    "\<exists>x w'. diff_listeners E lb ls m rem stp w = (Ret (Inr x), w')" for m rem stp
    by (intro Cons.IH; simp)+
  then show ?case
    by (cases "map_of m (lis_key l)") (auto simp: Let_def bnd_def g)
qed

lemma start_listeners_returns:
  assumes "listener_contract E lsn" and "listener_reliable E lsn"
    and "set ports \<subseteq> dom (lsn w (LoadBalancerId lb))"
  shows "\<exists>w'. start_listeners E lb ports w = (Ret None, w')"
  using assms(3)
proof (induction ports arbitrary: w)
  case Nil
  then show ?case by simp
next
  case (Cons p ports)
  then obtain w1 where c: "invoke_StartListener E (LoadBalancerId lb) p w = (None, w1)"
    using reliableD(3) [OF assms(2)] by fastforce
  note started_dom [OF assms(1) c]
  with Cons c show ?case by (auto simp: StartLoadBalancerListener_def tryO_None)
qed

lemma delete_listeners_returns:
  assumes "listener_contract E lsn" and "listener_reliable E lsn"
    and "set ports \<subseteq> dom (lsn w (LoadBalancerId lb))" and "distinct ports"
  shows "\<exists>w'. delete_listeners E lb ports w = (Ret None, w')"
  using assms(3,4)
proof (induction ports arbitrary: w)
  case Nil
  then show ?case by simp
next
  case (Cons p ports)
  then obtain w1 where c: "invoke_DeleteListener E (LoadBalancerId lb) p w = (None, w1)"
    using reliableD(4) [OF assms(2)] by fastforce
  from deleted_dom [OF assms(1) c] Cons.prems have "set ports \<subseteq> dom (lsn w1 (LoadBalancerId lb))" by auto
  with Cons c show ?case by (auto simp: DeleteLoadBalancerListener_def tryO_None)
qed

lemma create_listener_returns:
  assumes "listener_reliable E lsn" and "lsn w (LoadBalancerId lb) (Port sp) = None"
    and "Protocol sp = ProtocolTCP \<or> Protocol sp = ProtocolUDP"
  shows "\<exists>w'. create_listener E lb options sp w = (Ret None, w')"
  using reliableD(5,6) [OF assms(1), of w "listener_args lb options sp _"] assms(2,3)
  by (auto simp: create_listener_def client_defs listener_args_def)

lemma create_listeners_returns:
  assumes "listener_contract E lsn" and "listener_reliable E lsn"
    and "Port ` set sps \<inter> dom (lsn w (LoadBalancerId lb)) = {}" and "distinct (map Port sps)"
    and "\<forall>sp \<in> set sps. Protocol sp = ProtocolTCP \<or> Protocol sp = ProtocolUDP"
  shows "\<exists>w'. create_listeners E lb options sps w = (Ret None, w')"
  using assms(3-5)
proof (induction sps arbitrary: w)
  case Nil
  then show ?case by simp
next
  case (Cons sp sps)
  let ?id = "LoadBalancerId lb"
  from Cons.prems have "lsn w ?id (Port sp) = None" by (auto simp: dom_def)
  then obtain w1 where c: "create_listener E lb options sp w = (Ret None, w1)"
    using create_listener_returns [OF assms(2)] Cons.prems(3) by fastforce
  from create_listener_view [OF assms(1) c]
  have v1: "on_lb lsn w w1 ?id ((lsn w ?id)(Port sp \<mapsto> created sp Stopped))" by simp
  then obtain w2 where t: "invoke_StartListener E ?id (Port sp) w1 = (None, w2)"
    using reliableD(3) [OF assms(2), of w1 ?id "Port sp"] by auto
  from started_dom [OF assms(1) t] v1 Cons.prems have "Port ` set sps \<inter> dom (lsn w2 ?id) = {}" by auto
  with Cons.IH Cons.prems(2,3) obtain w3 where "create_listeners E lb options sps w2 = (Ret None, w3)"
    by fastforce
  with c t show ?case by (auto simp: StartLoadBalancerListener_def tryO_None)
qed

lemma check_protocols_None:
  "check_protocols ports = None \<longleftrightarrow> (\<forall>sp \<in> set ports. Protocol sp = ProtocolTCP \<or> Protocol sp = ProtocolUDP)"
  by (induction ports) auto

text \<open>A port to be created is free once the listeners that are not kept are gone.\<close>

lemma created_port_free:
  assumes wfp: "wf_ports ports" and snap: "listener_snapshot V lb"
    and sp: "sp \<in> set (wanted_ports ports)"
    and new: "port_key sp \<notin> lis_key ` {l \<in> set (ListenerPortsAndProtocol lb). kept V (expected_listeners ports []) l}"
  shows "Port sp \<notin> dom V - ListenerPort ` {l \<in> set (ListenerPortsAndProtocol lb). \<not> kept V (expected_listeners ports []) l}"
proof
  assume "Port sp \<in> dom V - ListenerPort ` {l \<in> set (ListenerPortsAndProtocol lb). \<not> kept V (expected_listeners ports []) l}"
  then obtain l where l: "l \<in> set (ListenerPortsAndProtocol lb)" "ListenerPort l = Port sp"
      "kept V (expected_listeners ports []) l"
    using snap by (fastforce simp: listener_snapshot_def)
  with kept_expected [OF wfp snap l(1)] obtain sp' where
    sp': "sp' \<in> set (wanted_ports ports)" "lis_key l = port_key sp'" by blast
  from listener_key_inj [OF sp'(2)] l(2) have "Port sp' = Port sp" by simp
  with sp sp'(1) wfp have "sp' = sp" by (auto simp: wf_ports_def distinct_map inj_on_def)
  then have "port_key sp = lis_key l" using sp'(2) by simp
  moreover have "l \<in> {l \<in> set (ListenerPortsAndProtocol lb). kept V (expected_listeners ports []) l}"
    using l(1,3) by simp
  ultimately have "port_key sp \<in> lis_key ` {l \<in> set (ListenerPortsAndProtocol lb). kept V (expected_listeners ports []) l}"
    by (rule image_eqI)
  with new show False by (rule notE)
qed

lemma start_listeners_dom:
  assumes "listener_contract E lsn" and "start_listeners E lb ports w = (Ret None, w')"
  shows "dom (lsn w' (LoadBalancerId lb)) = dom (lsn w (LoadBalancerId lb))"
  using assms(2)
proof (induction ports arbitrary: w)
  case (Cons p ports)
  then show ?case using started_dom [OF assms(1)] by (fastforce simp: StartLoadBalancerListener_def)
qed simp

lemma ensureLBListeners_returns:
  assumes c: "listener_contract E lsn" and rel: "listener_reliable E lsn"
    and ro: "range_ok E" and wfp: "wf_ports ports" and proto: "check_protocols ports = None"
    and snap: "listener_snapshot (lsn w (LoadBalancerId lb)) lb"
    and i32: "int32_backends (lsn w (LoadBalancerId lb))"
    and tu: "tcp_udp (lsn w (LoadBalancerId lb))"
  shows "\<exists>w'. ensureLBListeners E lb ports options w = (Ret None, w')"
proof -
  let ?id = "LoadBalancerId lb" and ?ls = "ListenerPortsAndProtocol lb"
  let ?exp = "expected_listeners ports []" and ?V0 = "lsn w (LoadBalancerId lb)"
  from c have st: "starts_listeners E lsn" and dl: "deletes_listeners E lsn"
    by (simp_all add: listener_contract_def)
  from snap have "\<forall>l \<in> set ?ls. \<exists>st. ?V0 (ListenerPort l) = Some st \<and> ls_protocol st = ToLower (ListenerProtocol l)"
    unfolding listener_snapshot_def by (blast dest: equalityD2)
  from diff_listeners_returns [OF c rel tu this, of ?exp "[]" "[]"] obtain m rem stp w1 where
    d: "diff_listeners E lb ?ls ?exp [] [] w = (Ret (Inr (m, rem, stp)), w1)" by auto
  note dd = diff_listeners_done [OF c wfp snap i32 d]
  then have wfm: "gm_wf m" and m: "map_of m = map_of ?exp |` (- lis_key ` {l \<in> set ?ls. kept ?V0 ?exp l})"
    and rem: "rem = map ListenerPort (filter (\<lambda>l. \<not> kept ?V0 ?exp l) ?ls)"
    and stp: "stp = map ListenerPort (filter (\<lambda>l. kept ?V0 ?exp l \<and> stopped_at ?V0 l) ?ls)"
    by (simp_all add: diff_spec_def)
  have "set stp \<subseteq> dom (lsn w1 ?id)" using snap dd(1) unfolding stp listener_snapshot_def by auto
  from start_listeners_returns [OF c rel this] obtain w2 where s: "start_listeners E lb stp w1 = (Ret None, w2)" ..
  have dom2: "dom (lsn w2 ?id) = dom ?V0" using start_listeners_dom [OF c s] dd(1) by simp
  have "set rem \<subseteq> dom (lsn w2 ?id)" "distinct rem"
    using snap dom2 unfolding rem listener_snapshot_def by (auto simp: distinct_map_filter)
  from delete_listeners_returns [OF c rel this] obtain w3 where r: "delete_listeners E lb rem w2 = (Ret None, w3)" ..
  have dom3: "dom (lsn w3 ?id) = dom ?V0 - set rem"
    using delete_listeners_view [OF dl r] dom2 by auto
  have set_rem: "set rem = ListenerPort ` {l \<in> set ?ls. \<not> kept ?V0 ?exp l}" by (simp add: rem)
  note sps = created_ports [OF ro wfm wfp m]
  have "\<exists>w'. create_listeners E lb options (map snd (range_map E w3 m)) w3 = (Ret None, w')"
  proof (rule create_listeners_returns [OF c rel _ sps(2)])
    show "Port ` set (map snd (range_map E w3 m)) \<inter> dom (lsn w3 ?id) = {}"
      using sps(1) created_port_free [OF wfp snap] unfolding dom3 set_rem by blast
    show "\<forall>sp \<in> set (map snd (range_map E w3 m)). Protocol sp = ProtocolTCP \<or> Protocol sp = ProtocolUDP"
    proof
      fix sp assume "sp \<in> set (map snd (range_map E w3 m))"
      with sps(1) have "sp \<in> set (wanted_ports ports)" by blast
      then have "sp \<in> set ports" by (simp add: wanted_ports_def)
      with proto show "Protocol sp = ProtocolTCP \<or> Protocol sp = ProtocolUDP"
        unfolding check_protocols_None by blast
    qed
  qed
  then obtain w' where "create_listeners E lb options (map snd (range_map E w3 m)) w3 = (Ret None, w')" ..
  with d s r have "ensureLBListeners E lb ports options w = (Ret None, w')"
    by (simp add: ensureLBListeners_def bnd_def tryO_None)
  then show ?thesis ..
qed

text \<open>Nothing is started, deleted or created when the listeners are in sync.\<close>

lemma in_sync_kept:
  assumes wfp: "wf_ports ports" and snap: "listener_snapshot V lb" and sync: "listeners_in_sync V ports"
    and l: "l \<in> set (ListenerPortsAndProtocol lb)"
  shows "kept V (expected_listeners ports []) l" and "\<not> stopped_at V l"
proof -
  from snap l have "ListenerPort l \<in> dom V" by (auto simp: listener_snapshot_def)
  with sync obtain sp s where sp: "sp \<in> set (wanted_ports ports)" "Port sp = ListenerPort l"
      "s \<noteq> Stopped" "V (Port sp) = Some (created sp s)"
    unfolding listeners_in_sync_def by auto
  moreover from snap l have "\<forall>st. V (ListenerPort l) = Some st \<longrightarrow> ls_protocol st = ToLower (ListenerProtocol l)"
    unfolding listener_snapshot_def by blast
  ultimately have "ToLower (Protocol sp) = ToLower (ListenerProtocol l)" by (simp add: created_def)
  then have "lis_key l = port_key sp" using sp(2) by (simp add: listener_key_def)
  with sp kept_expected [OF wfp snap l] show "kept V (expected_listeners ports []) l" by blast
  from sp show "\<not> stopped_at V l" by (auto simp: stopped_at_def created_def)
qed

lemma diff_listeners_in_sync:
  assumes c: "listener_contract E lsn" and wfp: "wf_ports ports"
    and snap: "listener_snapshot (lsn w (LoadBalancerId lb)) lb"
    and i32: "int32_backends (lsn w (LoadBalancerId lb))"
    and sync: "listeners_in_sync (lsn w (LoadBalancerId lb)) ports"
    and d: "diff_listeners E lb (ListenerPortsAndProtocol lb) (expected_listeners ports []) [] [] w =
        (Ret (Inr (m, rem, stp)), w')"
  shows "m = []" and "rem = []" and "stp = []"
proof -
  let ?V = "lsn w (LoadBalancerId lb)" and ?ls = "ListenerPortsAndProtocol lb"
  note K = in_sync_kept [OF wfp snap sync]
  from diff_listeners_done(2) [OF c wfp snap i32 d]
  have m: "map_of m = map_of (expected_listeners ports []) |`
        (- lis_key ` {l \<in> set ?ls. kept ?V (expected_listeners ports []) l})"
    and "rem = map ListenerPort (filter (\<lambda>l. \<not> kept ?V (expected_listeners ports []) l) ?ls)"
    and "stp = map ListenerPort (filter (\<lambda>l. kept ?V (expected_listeners ports []) l \<and> stopped_at ?V l) ?ls)"
    by (simp_all add: diff_spec_def)
  with K show "rem = []" and "stp = []" by (simp_all add: filter_empty_conv)
  have "map_of m k = None" for k
  proof (cases "map_of (expected_listeners ports []) k")
    case (Some sp)
    with wfp have sp: "sp \<in> set (wanted_ports ports)" "k = port_key sp"
      by (auto simp: wf_ports_def expected_listeners_lookup)
    from sync sp(1) have "Port sp \<in> dom ?V" unfolding listeners_in_sync_def by blast
    moreover have "{l \<in> set ?ls. \<not> kept ?V (expected_listeners ports []) l} = {}" using K(1) by blast
    ultimately have "k \<in> lis_key ` {l \<in> set ?ls. kept ?V (expected_listeners ports []) l}"
      using created_port_free [OF wfp snap sp(1)] unfolding sp(2) by blast
    then show ?thesis unfolding m by (simp add: restrict_map_def)
  qed (simp add: m restrict_map_def)
  then have "map_of m = Map.empty" by (rule ext)
  then show "m = []" by simp
qed

text \<open>The comparison only reads.\<close>

lemma diff_listeners_reads:
  assumes c: "listener_contract E lsn"
  shows "keeps (\<lambda>w. lsn w = v) (diff_listeners E lb ls m rem stp)"
proof (induction ls arbitrary: m rem stp)
  case Nil
  then show ?case by (simp add: keeps_intros)
next
  case (Cons l ls)
  have "keeps (\<lambda>w. lsn w = v) (getLBListenerAttributes E lb l)"
    by (rule keepsI) (use getLBListenerAttributes_view [OF c] in blast)
  with Cons show ?case
    by (auto intro!: keeps_intros split: option.splits simp: Let_def)
qed

lemma range_map_Nil: "range_ok E \<Longrightarrow> range_map E w [] = []"
  by (simp add: range_map_def range_ok_def List.map_filter_def)

lemma ensureLBListeners_unchanged:
  assumes c: "listener_contract E lsn" and ro: "range_ok E" and wfp: "wf_ports ports"
    and snap: "listener_snapshot (lsn w (LoadBalancerId lb)) lb"
    and i32: "int32_backends (lsn w (LoadBalancerId lb))"
    and sync: "listeners_in_sync (lsn w (LoadBalancerId lb)) ports"
    and run: "ensureLBListeners E lb ports options w = (r, w')"
  shows "lsn w' = lsn w"
proof -
  obtain x w1 where d: "diff_listeners E lb (ListenerPortsAndProtocol lb) (expected_listeners ports []) [] [] w = (x, w1)"
    by fastforce
  have v: "lsn w1 = lsn w" by (rule keepsD [OF diff_listeners_reads [OF c] refl d])
  have "w' = w1"
  proof (cases "\<exists>m rem stp. x = Ret (Inr (m, rem, stp))")
    case True
    then obtain m rem stp where x: "x = Ret (Inr (m, rem, stp))" by blast
    from diff_listeners_in_sync [OF c wfp snap i32 sync d [unfolded x]] run d x show ?thesis
      by (simp add: ensureLBListeners_def bnd_def range_map_Nil [OF ro])
  next
    case False
    with run d show ?thesis
      by (auto simp: ensureLBListeners_def bnd_def split: outcome.splits sum.splits)
  qed
  with v show ?thesis by simp
qed

end
