(* ===== verification/Load_Balancer_Sync.thy ===== *)
theory Load_Balancer_Sync
  imports Listener_Sync
begin

text \<open>
  Correctness of the load balancer interface. The contract of the load balancer service
  (\<open>slb_contract\<close>) adds to that of the listeners the backend servers \<open>bks\<close>, the names
  \<open>nms\<close> of the load balancers, the queries, and that a request on one kind of resource
  leaves the other kinds alone. The theory shows that \<^verbatim>\<open>EnsureLoadBalancer\<close> and
  \<^verbatim>\<open>UpdateLoadBalancer\<close> without an error leave a load balancer with the service's name
  that has exactly the wanted listeners and backends, and what deletion does.
\<close>

section \<open>The backend service\<close>

text \<open>The backend servers of a load balancer with their weights.\<close>

type_synonym 'w backend_view = "'w \<Rightarrow> string \<Rightarrow> string \<rightharpoonup> int"

definition backend_contract :: "'w env \<Rightarrow> 'w backend_view \<Rightarrow> bool" where
  "backend_contract E bks \<longleftrightarrow>
     (\<forall>lb ids w r w'. invoke_RemoveBackendServers E lb ids w = (r, w') \<longrightarrow>
        (case r of
           Some _ \<Rightarrow> bks w' = bks w
         | None \<Rightarrow> bks w' = (bks w)(lb := bks w lb |` (- set ids)))) \<and>
     (\<forall>lb servers w r w'. invoke_AddBackendServers E lb servers w = (r, w') \<longrightarrow>
        (case r of
           Some _ \<Rightarrow> bks w' = bks w
         | None \<Rightarrow> bks w' = (bks w)(lb := bks w lb ++ map_of (map (\<lambda>s. (ServerId s, Weight s)) (rev servers)))))"

definition backend_snapshot :: "(string \<rightharpoonup> int) \<Rightarrow> LoadBalancerType \<Rightarrow> bool" where
  "backend_snapshot B lb \<longleftrightarrow>
     distinct (map ServerId (BackendServers lb)) \<and> dom B = ServerId ` set (BackendServers lb)"

text \<open>The registered servers after a synchronisation: a server that stays keeps its weight.\<close>

definition synced_backends :: "(string \<rightharpoonup> int) \<Rightarrow> string set \<Rightarrow> string \<rightharpoonup> int" where
  "synced_backends B ids = (\<lambda>i. if i \<in> ids then Some (case B i of Some wt \<Rightarrow> wt | None \<Rightarrow> 100) else None)"

lemma dom_synced_backends [simp]: "dom (synced_backends B ids) = ids"
  by (auto simp: synced_backends_def split: if_splits)

lemma synced_backends_idem: "dom B = ids \<Longrightarrow> synced_backends B ids = B"
  by (rule ext) (auto simp: synced_backends_def domIff split: option.splits)

lemma expected_backends_fold:
  "expected_backends inss m = fold (\<lambda>(k, v). gm_set k v) (map (\<lambda>i. (InstanceId i, True)) inss) m"
  by (induction inss arbitrary: m) auto

lemma expected_backends_wf: "gm_wf (expected_backends inss [])"
  unfolding expected_backends_fold by (rule gm.invar_fold_assign) simp

lemma expected_backends_dom: "dom (map_of (expected_backends inss m)) = InstanceId ` set inss \<union> dom (map_of m)"
  by (induction inss arbitrary: m) (auto simp: gm.lookup_assign)

lemma diff_backends_result:
  assumes "distinct (map ServerId ss)" and "gm_wf m" and "diff_backends ss m rem = (m', rem')"
  shows "gm_wf m' \<and> dom (map_of m') = dom (map_of m) - ServerId ` set ss \<and>
     set rem' = set rem \<union> (ServerId ` set ss - dom (map_of m))"
  using assms
proof (induction ss arbitrary: m rem)
  case Nil
  then show ?case by simp
next
  case (Cons s ss)
  show ?case
  proof (cases "map_of m (ServerId s)")
    case None
    with Cons.prems have "diff_backends ss m (rem @ [ServerId s]) = (m', rem')" by simp
    with Cons.IH [OF _ Cons.prems(2) this] Cons.prems(1) None show ?thesis by (auto simp: domIff)
  next
    case (Some b)
    with Cons.prems have d: "diff_backends ss (gm_delete (ServerId s) m) rem = (m', rem')" by simp
    have "gm_wf (gm_delete (ServerId s) m)" using Cons.prems(2) by (rule gm.invar_remove)
    with Cons.IH [OF _ this d] Cons.prems(1)
    have IH: "gm_wf m'" "dom (map_of m') = dom (map_of (gm_delete (ServerId s) m)) - ServerId ` set ss"
      "set rem' = set rem \<union> (ServerId ` set ss - dom (map_of (gm_delete (ServerId s) m)))"
      by simp_all
    have "dom (map_of (gm_delete (ServerId s) m)) = dom (map_of m) - {ServerId s}"
      by (simp only: gm.lookup_remove dom_fun_upd) simp
    with IH Cons.prems(1) Some show ?thesis by (auto intro: rev_image_eqI)
  qed
qed

lemma range_map_keys:
  assumes "range_ok E" and "gm_wf m"
  shows "fst ` set (range_map E w m) = dom (map_of m)"
  using gm.iterate_all [OF assms, where w = w] by (force simp: dom_def)

lemma synced_backends_steps:
  assumes dm: "dom (map_of m) = ids - dom B" and k: "fst ` set kvs = dom (map_of m)" and rem: "rem = dom B - ids"
  shows "(B |` (- rem)) ++ map_of (map (\<lambda>s. (ServerId s, Weight s))
      (rev (map (\<lambda>(i, _). \<lparr>ServerId = i, Weight = 100\<rparr>) kvs))) = synced_backends B ids"
proof -
  have "map (\<lambda>s. (ServerId s, Weight s)) (rev (map (\<lambda>(i, _). \<lparr>ServerId = i, Weight = 100\<rparr>) kvs)) =
      map (\<lambda>i. (i, 100)) (rev (map fst kvs))" (is "?l = _")
    by (induction kvs) auto
  moreover have "map_of (map (\<lambda>i. (i, 100 :: int)) ks) i = (if i \<in> set ks then Some 100 else None)"
    for ks :: "string list" and i
    by (induction ks) auto
  ultimately have "map_of ?l i = (if i \<in> ids - dom B then Some 100 else None)" for i
    using k unfolding dm by (simp del: map_map)
  then show ?thesis
    unfolding rem by (auto simp: fun_eq_iff map_add_def restrict_map_def synced_backends_def domIff split: option.splits)
qed

lemma ensureLBBackends_converges:
  assumes c: "backend_contract E bks" and ro: "range_ok E"
    and snap: "backend_snapshot (bks w (LoadBalancerId lb)) lb"
    and run: "ensureLBBackends E lb instances w = (Ret None, w')"
  shows "bks w' = (bks w)(LoadBalancerId lb := synced_backends (bks w (LoadBalancerId lb)) (InstanceId ` set instances))"
proof -
  let ?id = "LoadBalancerId lb" and ?ids = "InstanceId ` set instances"
  obtain m rem where d: "diff_backends (BackendServers lb) (expected_backends instances []) [] = (m, rem)" by fastforce
  from diff_backends_result [OF _ expected_backends_wf d] snap
  have wfm: "gm_wf m" and m: "dom (map_of m) = ?ids - dom (bks w ?id)" and rem: "set rem = dom (bks w ?id) - ?ids"
    by (auto simp: backend_snapshot_def expected_backends_dom)
  let ?kvs = "range_map E w m"
  let ?add = "map (\<lambda>(i, _). \<lparr>ServerId = i, Weight = 100\<rparr>) ?kvs"
  from run d obtain w1 where
    r: "(if length rem > 0 then RemoveBackendServers E ?id rem else ret None) w = (Ret None, w1)" and
    a: "(if length ?add > 0 then AddBackendServers E ?id ?add else ret None) w1 = (Ret None, w')"
    unfolding ensureLBBackends_def by (auto simp: Let_def)
  have v1: "bks w1 = (bks w)(?id := bks w ?id |` (- set rem))"
  proof (cases rem)
    case Nil
    with r show ?thesis by (simp add: restrict_map_def)
  next
    case (Cons x xs)
    with r c show ?thesis unfolding backend_contract_def
      by (fastforce simp: RemoveBackendServers_def)
  qed
  have v2: "bks w' = (bks w1)(?id := bks w1 ?id ++ map_of (map (\<lambda>s. (ServerId s, Weight s)) (rev ?add)))"
  proof (cases "?add = []")
    case True
    then have "w' = w1" using a by simp
    then show ?thesis unfolding True by simp
  next
    case False
    then have "invoke_AddBackendServers E ?id ?add w1 = (None, w')" using a by (simp add: AddBackendServers_def)
    with c show ?thesis unfolding backend_contract_def by fastforce
  qed
  from synced_backends_steps [OF m range_map_keys [OF ro wfm] rem] v1 v2 show ?thesis by simp
qed

section \<open>The load balancer service\<close>

text \<open>The load balancers by identifier, with their names.\<close>

type_synonym 'w name_view = "'w \<Rightarrow> string \<rightharpoonup> string"

definition describes_lbs :: "'w env \<Rightarrow> 'w name_view \<Rightarrow> 'w listener_view \<Rightarrow> 'w backend_view \<Rightarrow> bool" where
  "describes_lbs E nms lsn bks \<longleftrightarrow>
     (\<forall>region w r w'. invoke_DescribeLoadBalancers E region w = (r, w') \<longrightarrow>
        nms w' = nms w \<and>
        (\<forall>lbs. r = Inr lbs \<longrightarrow> (\<forall>lb \<in> set lbs. nms w (LoadBalancerId lb) = Some (LoadBalancerName lb)))) \<and>
     (\<forall>lid w r w'. invoke_DescribeLoadBalancerAttribute E lid w = (r, w') \<longrightarrow>
        nms w' = nms w \<and> lsn w' = lsn w \<and> bks w' = bks w \<and>
        (\<forall>lb. r = Inr lb \<longrightarrow> LoadBalancerId lb = lid \<and> listener_snapshot (lsn w lid) lb \<and>
           int32_backends (lsn w lid) \<and> backend_snapshot (bks w lid) lb))"

text \<open>A request on one kind of resource leaves the other kinds alone.\<close>

definition listener_frame :: "'w env \<Rightarrow> ('w \<Rightarrow> 'v) \<Rightarrow> bool" where
  "listener_frame E f \<longleftrightarrow>
     (\<forall>lb port w. f (snd (invoke_DescribeTCPListenerAttribute E lb port w)) = f w) \<and>
     (\<forall>lb port w. f (snd (invoke_DescribeUDPListenerAttribute E lb port w)) = f w) \<and>
     (\<forall>args w. f (snd (invoke_CreateTCPListener E args w)) = f w) \<and>
     (\<forall>args w. f (snd (invoke_CreateUDPListener E args w)) = f w) \<and>
     (\<forall>lb port w. f (snd (invoke_StartListener E lb port w)) = f w) \<and>
     (\<forall>lb port w. f (snd (invoke_DeleteListener E lb port w)) = f w)"

definition backend_frame :: "'w env \<Rightarrow> ('w \<Rightarrow> 'v) \<Rightarrow> bool" where
  "backend_frame E f \<longleftrightarrow>
     (\<forall>lb ids w. f (snd (invoke_RemoveBackendServers E lb ids w)) = f w) \<and>
     (\<forall>lb servers w. f (snd (invoke_AddBackendServers E lb servers w)) = f w)"

definition slb_contract :: "'w env \<Rightarrow> 'w name_view \<Rightarrow> 'w listener_view \<Rightarrow> 'w backend_view \<Rightarrow> bool" where
  "slb_contract E nms lsn bks \<longleftrightarrow>
     listener_contract E lsn \<and> backend_contract E bks \<and> describes_lbs E nms lsn bks \<and>
     listener_frame E nms \<and> listener_frame E bks \<and> backend_frame E nms \<and> backend_frame E lsn"

lemma keeps_world: "(\<And>w. keeps I (f w)) \<Longrightarrow> keeps I (\<lambda>w. f w w)"
  by (simp add: keeps_def)

lemma keeps_listener_calls [keeps_intros]:
  assumes "listener_frame E f"
  shows "keeps (\<lambda>w. f w = v) (DescribeLoadBalancerTCPListenerAttribute E lb port)"
    and "keeps (\<lambda>w. f w = v) (DescribeLoadBalancerUDPListenerAttribute E lb port)"
    and "keeps (\<lambda>w. f w = v) (CreateLoadBalancerTCPListener E args)"
    and "keeps (\<lambda>w. f w = v) (CreateLoadBalancerUDPListener E args)"
    and "keeps (\<lambda>w. f w = v) (StartLoadBalancerListener E lb port)"
    and "keeps (\<lambda>w. f w = v) (DeleteLoadBalancerListener E lb port)"
  using assms unfolding listener_frame_def
  by (auto simp: client_defs intro!: keeps_intros keeps_call split: sum.splits)

lemma keeps_diff_listeners:
  "listener_frame E f \<Longrightarrow> keeps (\<lambda>w. f w = v) (diff_listeners E lb ls m rem stp)"
proof (induction ls arbitrary: m rem stp)
  case Nil
  then show ?case by (simp add: keeps_intros)
next
  case (Cons l ls)
  have "keeps (\<lambda>w. f w = v) (getLBListenerAttributes E lb l)"
    using Cons.prems unfolding getLBListenerAttributes_def read_listener_def nil_deref_def
    by (auto intro!: keeps_intros split: option.splits prod.splits)
  with Cons show ?case
    by (auto intro!: keeps_intros split: option.splits simp: Let_def)
qed

lemma keeps_listener_changes:
  assumes "listener_frame E f"
  shows "keeps (\<lambda>w. f w = v) (start_listeners E lb ports)"
    and "keeps (\<lambda>w. f w = v) (delete_listeners E lb ports)"
    and "keeps (\<lambda>w. f w = v) (create_listeners E lb options sps)"
proof -
  show "keeps (\<lambda>w. f w = v) (start_listeners E lb ports)"
    by (induction ports) (auto intro!: keeps_intros assms)
  show "keeps (\<lambda>w. f w = v) (delete_listeners E lb ports)"
    by (induction ports) (auto intro!: keeps_intros assms)
  have "keeps (\<lambda>w. f w = v) (create_listener E lb options sp)" for sp
    unfolding create_listener_def by (auto intro!: keeps_intros assms)
  then show "keeps (\<lambda>w. f w = v) (create_listeners E lb options sps)"
    by (induction sps) (auto intro!: keeps_intros assms)
qed

lemma keeps_ensureLBListeners:
  assumes "listener_frame E f"
  shows "keeps (\<lambda>w. f w = v) (ensureLBListeners E lb ports options)"
proof -
  have "keeps (\<lambda>w. f w = v) (\<lambda>w. create_listeners E lb options (map snd (range_map E w m)) w)" for m
    by (rule keeps_world) (rule keeps_listener_changes(3) [OF assms])
  then show ?thesis
    unfolding ensureLBListeners_def
    by (intro keeps_bnd keeps_diff_listeners [OF assms])
       (auto intro!: keeps_ret keeps_tryO keeps_listener_changes assms split: sum.split)
qed

lemma keeps_ensureLBBackends:
  assumes "backend_frame E f"
  shows "keeps (\<lambda>w. f w = v) (ensureLBBackends E lb instances)"
proof (rule keepsI)
  fix w r w' assume "f w = v" and run: "ensureLBBackends E lb instances w = (r, w')"
  obtain m rem where d: "diff_backends (BackendServers lb) (expected_backends instances []) [] = (m, rem)" by fastforce
  let ?add = "map (\<lambda>(ins, _). \<lparr>ServerId = ins, Weight = 100\<rparr>) (range_map E w m)"
  have "keeps (\<lambda>w. f w = v)
      (tryO (if length rem > 0 then RemoveBackendServers E (LoadBalancerId lb) rem else ret None)
         (tryO (if length ?add > 0 then AddBackendServers E (LoadBalancerId lb) ?add else ret None)
           (ret None)))"
    using assms by (auto simp: backend_frame_def client_defs intro!: keeps_intros keeps_call)
  with run d \<open>f w = v\<close> show "f w' = v"
    by (auto simp: ensureLBBackends_def dest: keepsD)
qed

section \<open>Looking up\<close>

lemma describes_lbsD:
  assumes "describes_lbs E nms lsn bks"
  shows "invoke_DescribeLoadBalancers E region w = (r, w') \<Longrightarrow> nms w' = nms w"
    and "invoke_DescribeLoadBalancers E region w = (Inr lbs, w') \<Longrightarrow> lb \<in> set lbs \<Longrightarrow>
      nms w (LoadBalancerId lb) = Some (LoadBalancerName lb)"
    and "invoke_DescribeLoadBalancerAttribute E lid w = (x, w') \<Longrightarrow> nms w' = nms w"
    and "invoke_DescribeLoadBalancerAttribute E lid w = (x, w') \<Longrightarrow> lsn w' = lsn w"
    and "invoke_DescribeLoadBalancerAttribute E lid w = (x, w') \<Longrightarrow> bks w' = bks w"
    and "invoke_DescribeLoadBalancerAttribute E lid w = (Inr lb, w') \<Longrightarrow> LoadBalancerId lb = lid"
    and "invoke_DescribeLoadBalancerAttribute E lid w = (Inr lb, w') \<Longrightarrow> listener_snapshot (lsn w lid) lb"
    and "invoke_DescribeLoadBalancerAttribute E lid w = (Inr lb, w') \<Longrightarrow> int32_backends (lsn w lid)"
    and "invoke_DescribeLoadBalancerAttribute E lid w = (Inr lb, w') \<Longrightarrow> backend_snapshot (bks w lid) lb"
  using assms unfolding describes_lbs_def by blast+

lemma getLoadBalancer_found:
  assumes c: "describes_lbs E nms lsn bks"
    and g: "getLoadBalancer E p name w = (Ret (Inr (Some lb)), w')"
  shows "nms w' (LoadBalancerId lb) = Some name"
    and "listener_snapshot (lsn w' (LoadBalancerId lb)) lb"
    and "int32_backends (lsn w' (LoadBalancerId lb))"
    and "backend_snapshot (bks w' (LoadBalancerId lb)) lb"
proof -
  from g obtain lbs w1 where d: "invoke_DescribeLoadBalancers E (p_region p) w = (Inr lbs, w1)"
    and l: "getLoadBalancer_loop E name lbs w1 = (Ret (Inr (Some lb)), w')"
    by (auto simp: getLoadBalancer_def client_defs)
  from l have "\<exists>lb0 \<in> set lbs. LoadBalancerName lb0 = name \<and>
      invoke_DescribeLoadBalancerAttribute E (LoadBalancerId lb0) w1 = (Inr lb, w')"
    by (induction lbs) (auto simp: client_defs split: if_splits)
  then obtain lb0 where lb0: "lb0 \<in> set lbs" "LoadBalancerName lb0 = name"
    and a: "invoke_DescribeLoadBalancerAttribute E (LoadBalancerId lb0) w1 = (Inr lb, w')" by blast
  from describes_lbsD(1,2) [OF c d] lb0 have n: "nms w1 (LoadBalancerId lb0) = Some name" by simp
  note v = describes_lbsD(3-) [OF c a]
  from n v show "nms w' (LoadBalancerId lb) = Some name" "listener_snapshot (lsn w' (LoadBalancerId lb)) lb"
    "int32_backends (lsn w' (LoadBalancerId lb))" "backend_snapshot (bks w' (LoadBalancerId lb)) lb" by simp_all
qed

lemma getLoadBalancer_loop_nms:
  assumes "describes_lbs E nms lsn bks" and "getLoadBalancer_loop E name lbs w = (r, w')"
  shows "nms w' = nms w"
  using assms(2) describes_lbsD(3) [OF assms(1)]
  by (induction lbs) (auto simp: go_defs client_defs split: if_splits sum.splits prod.splits)

lemma getLoadBalancer_nms:
  assumes "describes_lbs E nms lsn bks" and "getLoadBalancer E p name w = (Ret (Inr x), w')"
  shows "nms w' = nms w"
  using assms(2) describes_lbsD(1) [OF assms(1)] getLoadBalancer_loop_nms [OF assms(1)]
  by (fastforce simp: getLoadBalancer_def client_defs)

lemma wait_created_found:
  assumes "wait_created E p name n err w = (Ret (Some lb, err'), w')"
  shows "\<exists>w1. getLoadBalancer E p name w1 = (Ret (Inr (Some lb)), w')"
  using assms
proof (induction n arbitrary: err w)
  case 0
  then show ?case by simp
next
  case (Suc n)
  then obtain r w1 where g: "getLoadBalancer E p name (env_Sleep E 5 w) = (Ret r, w1)"
    and k: "(case r of Inr (Some lb) \<Rightarrow> ret (Some lb, None) | Inr None \<Rightarrow> wait_created E p name n None
      | Inl e \<Rightarrow> wait_created E p name n (Some e)) w1 = (Ret (Some lb, err'), w')"
    by auto
  show ?case
  proof (cases r)
    case (Inl e)
    with k show ?thesis using Suc.IH by simp
  next
    case (Inr x)
    with g k show ?thesis using Suc.IH by (cases x) auto
  qed
qed

lemma EnsureLoadBalancer_stages:
  assumes "EnsureLoadBalancer E p service nodes w = (Ret (Some status, err), w')"
  obtains instances lb wi wi' wj where
    "getInstancesByNodes E p nodes w = (Ret (Inr instances), wi)"
    "getLoadBalancer E p (GetLoadBalancerName service) wi' = (Ret (Inr (Some lb)), wj)"
    "sync_lb E lb (Ports service) (read_options (Annotations service)) instances wj = (Ret (Some status, err), w')"
proof -
  from assms obtain instances w1 r w2 where
    i: "getInstancesByNodes E p nodes w = (Ret (Inr instances), w1)" and
    g: "getLoadBalancer E p (GetLoadBalancerName service) w1 = (Ret (Inr r), w2)" and
    k: "(case r of Some lb \<Rightarrow> sync_lb E lb (Ports service) (read_options (Annotations service)) instances
        | None \<Rightarrow> bnd (create_lb E p (GetLoadBalancerName service) (read_options (Annotations service)))
            (\<lambda>err. case err of Some e \<Rightarrow> ret (None, Some e)
             | None \<Rightarrow> bnd (wait_created E p (GetLoadBalancerName service) 3 None) (\<lambda>(lb, err). case lb of
                 None \<Rightarrow> ret (None, err)
               | Some lb \<Rightarrow> sync_lb E lb (Ports service) (read_options (Annotations service)) instances)))
        w2 = (Ret (Some status, err), w')"
    unfolding EnsureLoadBalancer_def by (auto simp: Let_def split: if_splits option.splits sum.splits)
  show thesis
  proof (cases r)
    case (Some lb)
    with i g k that show thesis by simp
  next
    case None
    with k obtain w3 lb err' w4 where
      "wait_created E p (GetLoadBalancerName service) 3 None w3 = (Ret (Some lb, err'), w4)"
      "sync_lb E lb (Ports service) (read_options (Annotations service)) instances w4 = (Ret (Some status, err), w')"
      by (auto split: option.splits)
    with wait_created_found [of E p _ 3 None w3 lb err' w4] i that show thesis by blast
  qed
qed

section \<open>Synchronisation\<close>

definition lb_in_sync ::
  "'w listener_view \<Rightarrow> 'w backend_view \<Rightarrow> 'w \<Rightarrow> string \<Rightarrow> ServicePort list \<Rightarrow> InstanceAttributesType list \<Rightarrow> bool" where
  "lb_in_sync lsn bks w lb ports instances \<longleftrightarrow>
     listeners_in_sync (lsn w lb) ports \<and> dom (bks w lb) = InstanceId ` set instances"

lemma sync_steps:
  assumes c: "slb_contract E nms lsn bks" and ro: "range_ok E" and wfp: "wf_ports ports"
    and snap: "listener_snapshot (lsn w (LoadBalancerId lb)) lb" "int32_backends (lsn w (LoadBalancerId lb))"
      "backend_snapshot (bks w (LoadBalancerId lb)) lb"
    and l: "ensureLBListeners E lb ports options w = (Ret None, w1)"
    and m: "nms w2 = nms w1" "lsn w2 = lsn w1" "bks w2 = bks w1"
    and b: "ensureLBBackends E lb instances w2 = (Ret None, w')"
  shows "nms w' = nms w" and "lb_in_sync lsn bks w' (LoadBalancerId lb) ports instances"
proof -
  from c have lc: "listener_contract E lsn" and bc: "backend_contract E bks"
    and fr: "listener_frame E nms" "listener_frame E bks" "backend_frame E nms" "backend_frame E lsn"
    by (simp_all add: slb_contract_def)
  have "nms w1 = nms w" "bks w1 = bks w"
    using keepsD [OF keeps_ensureLBListeners, OF _ refl l] fr by blast+
  moreover have "nms w' = nms w2" "lsn w' = lsn w2"
    using keepsD [OF keeps_ensureLBBackends, OF _ refl b] fr by blast+
  ultimately show "nms w' = nms w" and "lb_in_sync lsn bks w' (LoadBalancerId lb) ports instances"
    using ensureLBListeners_converges [OF lc ro wfp snap(1,2) l]
      ensureLBBackends_converges [OF bc ro _ b] snap(3) m
    by (auto simp: lb_in_sync_def)
qed

lemma sync_lb_in_sync:
  assumes c: "slb_contract E nms lsn bks" and ro: "range_ok E" and wfp: "wf_ports ports"
    and g: "getLoadBalancer E p name wi = (Ret (Inr (Some lb)), w)"
    and s: "sync_lb E lb ports options instances w = (Ret (Some status, err), w')"
  shows "err = None \<and> status = lbToStatus lb \<and> nms w' (LoadBalancerId lb) = Some name \<and>
    lb_in_sync lsn bks w' (LoadBalancerId lb) ports instances"
proof -
  from c have d: "describes_lbs E nms lsn bks" by (simp add: slb_contract_def)
  note f = getLoadBalancer_found [OF d g]
  from s obtain w1 where l: "ensureLBListeners E lb ports options w = (Ret None, w1)"
    and b: "ensureLBBackends E lb instances w1 = (Ret None, w')" and r: "err = None" "status = lbToStatus lb"
    by (auto simp: sync_lb_def split: option.splits)
  from sync_steps [OF c ro wfp f(2-4) l refl refl refl b] f(1) r show ?thesis by simp
qed

lemma EnsureLoadBalancer_in_sync:
  assumes "slb_contract E nms lsn bks" and "range_ok E" and "wf_ports (Ports service)"
    and "EnsureLoadBalancer E p service nodes w = (Ret (Some status, err), w')"
  shows "err = None \<and> (\<exists>instances wi lb.
    getInstancesByNodes E p nodes w = (Ret (Inr instances), wi) \<and> status = lbToStatus lb \<and>
    nms w' (LoadBalancerId lb) = Some (GetLoadBalancerName service) \<and>
    lb_in_sync lsn bks w' (LoadBalancerId lb) (Ports service) instances)"
proof -
  from assms(4) obtain instances lb wi wi' wj where
    i: "getInstancesByNodes E p nodes w = (Ret (Inr instances), wi)" and
    g: "getLoadBalancer E p (GetLoadBalancerName service) wi' = (Ret (Inr (Some lb)), wj)" and
    s: "sync_lb E lb (Ports service) (read_options (Annotations service)) instances wj = (Ret (Some status, err), w')"
    by (rule EnsureLoadBalancer_stages)
  from sync_lb_in_sync [OF assms(1-3) g s] i show ?thesis by blast
qed

section \<open>Updating\<close>

definition instance_frame :: "'w env \<Rightarrow> ('w \<Rightarrow> 'v) \<Rightarrow> bool" where
  "instance_frame E f \<longleftrightarrow> (\<forall>args w. f (snd (invoke_DescribeInstances E args w)) = f w)"

lemma keeps_getInstancesByNodes:
  assumes "instance_frame E f"
  shows "keeps (\<lambda>w. f w = v) (getInstancesByNodes E p nodes)"
  using assms
  by (auto simp: getInstancesByNodes_def getInstancesByNodeNames_def getInstances_def client_defs
      instance_frame_def intro!: keeps_intros keeps_call)

lemma UpdateLoadBalancer_in_sync:
  assumes c: "slb_contract E nms lsn bks" and ro: "range_ok E" and wfp: "wf_ports (Ports service)"
    and fr: "instance_frame E nms" "instance_frame E lsn" "instance_frame E bks"
    and run: "UpdateLoadBalancer E p service nodes w = (Ret None, w')"
  shows "\<exists>lb w0 w1 instances w2.
    getLoadBalancer E p (GetLoadBalancerName service) w = (Ret (Inr (Some lb)), w0) \<and>
    ensureLBListeners E lb (Ports service) (read_options (Annotations service)) w0 = (Ret None, w1) \<and>
    getInstancesByNodes E p nodes w1 = (Ret (Inr instances), w2) \<and>
    nms w' (LoadBalancerId lb) = Some (GetLoadBalancerName service) \<and>
    lb_in_sync lsn bks w' (LoadBalancerId lb) (Ports service) instances"
proof -
  let ?opts = "read_options (Annotations service)"
  from run obtain lb w0 w1 instances w2 where
    g: "getLoadBalancer E p (GetLoadBalancerName service) w = (Ret (Inr (Some lb)), w0)" and
    l: "ensureLBListeners E lb (Ports service) ?opts w0 = (Ret None, w1)" and
    i: "getInstancesByNodes E p nodes w1 = (Ret (Inr instances), w2)" and
    b: "ensureLBBackends E lb instances w2 = (Ret None, w')"
    unfolding UpdateLoadBalancer_def by (auto split: sum.splits option.splits)
  from c have d: "describes_lbs E nms lsn bks" by (simp add: slb_contract_def)
  note f = getLoadBalancer_found [OF d g]
  have "nms w2 = nms w1" "lsn w2 = lsn w1" "bks w2 = bks w1"
    using keepsD [OF keeps_getInstancesByNodes, OF _ refl i] fr by blast+
  from sync_steps [OF c ro wfp f(2-4) l this b] f(1) have
    "nms w' (LoadBalancerId lb) = Some (GetLoadBalancerName service) \<and>
     lb_in_sync lsn bks w' (LoadBalancerId lb) (Ports service) instances" by auto
  with g l i show ?thesis by blast
qed

section \<open>Deleting\<close>

text \<open>
  What deletion relies on: the list is complete, and deleting removes the load balancer
  with the identifier and no other.
\<close>

definition deletes_lbs :: "'w env \<Rightarrow> 'w name_view \<Rightarrow> bool" where
  "deletes_lbs E nms \<longleftrightarrow>
     (\<forall>region w lbs w'. invoke_DescribeLoadBalancers E region w = (Inr lbs, w') \<longrightarrow>
        dom (nms w) = LoadBalancerId ` set lbs) \<and>
     (\<forall>lid w r w'. invoke_DeleteLoadBalancer E lid w = (r, w') \<longrightarrow>
        (case r of Some _ \<Rightarrow> nms w' = nms w | None \<Rightarrow> nms w' = (nms w)(lid := None)))"

lemma deletes_lbsD:
  assumes "deletes_lbs E nms"
  shows "invoke_DescribeLoadBalancers E region w = (Inr lbs, w') \<Longrightarrow> dom (nms w) = LoadBalancerId ` set lbs"
    and "invoke_DeleteLoadBalancer E lid w = (None, w') \<Longrightarrow> nms w' = (nms w)(lid := None)"
  using assms unfolding deletes_lbs_def by (blast, fastforce)

lemma getLoadBalancer_loop_absent:
  "getLoadBalancer_loop E name lbs w = (Ret (Inr None), w') \<longleftrightarrow>
     w' = w \<and> name \<notin> LoadBalancerName ` set lbs"
  by (induction lbs) (auto simp: go_defs client_defs split: sum.splits prod.splits)

lemma getLoadBalancer_absent:
  assumes d: "describes_lbs E nms lsn bks" and c: "deletes_lbs E nms"
    and g: "getLoadBalancer E p name w = (Ret (Inr None), w')"
  shows "nms w' = nms w" and "nms w lid \<noteq> Some name"
proof -
  from g obtain lbs where i: "invoke_DescribeLoadBalancers E (p_region p) w = (Inr lbs, w')"
    and n: "name \<notin> LoadBalancerName ` set lbs"
    by (auto simp: getLoadBalancer_def client_defs getLoadBalancer_loop_absent)
  show "nms w' = nms w" by (rule describes_lbsD(1) [OF d i])
  show "nms w lid \<noteq> Some name"
  proof
    assume "nms w lid = Some name"
    then have "lid \<in> dom (nms w)" by (rule domI)
    then obtain lb where lb: "lb \<in> set lbs" "LoadBalancerId lb = lid"
      unfolding deletes_lbsD(1) [OF c i] by (rule imageE) simp
    with describes_lbsD(2) [OF d i lb(1)] \<open>nms w lid = Some name\<close> have "LoadBalancerName lb = name" by simp
    with n lb(1) show False by blast
  qed
qed

lemma EnsureLoadBalancerDeleted_gone:
  assumes d: "describes_lbs E nms lsn bks" and c: "deletes_lbs E nms"
    and u: "\<And>a b. nms w a = Some (GetLoadBalancerName service) \<Longrightarrow>
        nms w b = Some (GetLoadBalancerName service) \<Longrightarrow> a = b"
    and run: "EnsureLoadBalancerDeleted E p service w = (Ret None, w')"
  shows "nms w' = (\<lambda>lid. if nms w lid = Some (GetLoadBalancerName service) then None else nms w lid)"
proof -
  let ?name = "GetLoadBalancerName service"
  from run obtain r w1 where g: "getLoadBalancer E p ?name w = (Ret (Inr r), w1)"
    and k: "(case r of None \<Rightarrow> ret None | Some lb \<Rightarrow> DeleteLoadBalancer E (LoadBalancerId lb)) w1 = (Ret None, w')"
    unfolding EnsureLoadBalancerDeleted_def by (auto split: sum.splits option.splits)
  show ?thesis
  proof (cases r)
    case None
    with g have "getLoadBalancer E p ?name w = (Ret (Inr None), w1)" by simp
    from getLoadBalancer_absent [OF d c this] k None show ?thesis by (intro ext) simp
  next
    case (Some lb)
    with g have g: "getLoadBalancer E p ?name w = (Ret (Inr (Some lb)), w1)" by simp
    from getLoadBalancer_nms [OF d g] have n: "nms w1 = nms w" .
    from k Some have "invoke_DeleteLoadBalancer E (LoadBalancerId lb) w1 = (None, w')" by (simp add: client_defs)
    then have "nms w' = (nms w1)(LoadBalancerId lb := None)" by (rule deletes_lbsD(2) [OF c])
    moreover have "nms w (LoadBalancerId lb) = Some ?name" using getLoadBalancer_found(1) [OF d g] n by simp
    ultimately have "nms w' lid = (if nms w lid = Some ?name then None else nms w lid)" for lid
      using u [of "LoadBalancerId lb" lid] n by (cases "lid = LoadBalancerId lb") auto
    then show ?thesis by (intro ext)
  qed
qed

section \<open>Names and rejected services\<close>

lemma GetLoadBalancerName_eq:
  "GetLoadBalancerName service = CHR ''a'' # take 31 (filter (\<lambda>c. c \<noteq> CHR ''-'') (UID service))"
  by (simp add: GetLoadBalancerName_def RemoveAll_def Let_def)

lemma EnsureLoadBalancer_rejects:
  assumes "SessionAffinity service \<noteq> ServiceAffinityNone \<or>
    (\<exists>sp \<in> set (Ports service). Protocol sp \<noteq> ProtocolTCP \<and> Protocol sp \<noteq> ProtocolUDP) \<or>
    LoadBalancerIP service \<noteq> ''''"
  shows "\<exists>e. EnsureLoadBalancer E p service nodes = ret (None, Some e)"
proof -
  have "check_protocols (Ports service) \<noteq> None \<longleftrightarrow>
      (\<exists>sp \<in> set (Ports service). Protocol sp \<noteq> ProtocolTCP \<and> Protocol sp \<noteq> ProtocolUDP)"
    unfolding check_protocols_None by blast
  with assms show ?thesis by (auto simp: EnsureLoadBalancer_def split: option.split)
qed

section \<open>A load balancer that stays invisible\<close>

lemma wait_created_invisible:
  assumes "\<And>w. \<exists>w'. getLoadBalancer E p name w = (Ret (Inr None), w')"
  shows "\<exists>w'. wait_created E p name (Suc n) err w = (Ret (None, None), w')"
proof (induction n arbitrary: err w)
  case 0
  from assms [of "env_Sleep E 5 w"] show ?case by (auto simp: bnd_def effect_def)
next
  case (Suc n)
  from assms [of "env_Sleep E 5 w"] obtain w1 where "getLoadBalancer E p name (env_Sleep E 5 w) = (Ret (Inr None), w1)" ..
  with Suc [of None w1] show ?case by (subst wait_created.simps) (simp add: bnd_def effect_def)
qed

lemma EnsureLoadBalancer_invisible:
  assumes ok: "SessionAffinity service = ServiceAffinityNone" "check_protocols (Ports service) = None"
      "LoadBalancerIP service = ''''"
    and i: "\<And>w. \<exists>instances w'. getInstancesByNodes E p nodes w = (Ret (Inr instances), w')"
    and g: "\<And>w. \<exists>w'. getLoadBalancer E p (GetLoadBalancerName service) w = (Ret (Inr None), w')"
    and c: "\<And>w. \<exists>w'. create_lb E p (GetLoadBalancerName service) (read_options (Annotations service)) w = (Ret None, w')"
  shows "\<exists>w'. EnsureLoadBalancer E p service nodes w = (Ret (None, None), w')"
proof -
  let ?name = "GetLoadBalancerName service" and ?opts = "read_options (Annotations service)"
  from i [of w] obtain instances wa where a: "getInstancesByNodes E p nodes w = (Ret (Inr instances), wa)" by blast
  from g [of wa] obtain wb where b: "getLoadBalancer E p ?name wa = (Ret (Inr None), wb)" ..
  from c [of wb] obtain wc where cr: "create_lb E p ?name ?opts wb = (Ret None, wc)" ..
  have "Suc 2 = 3" by simp
  with wait_created_invisible [OF g, of 2 None wc] obtain wd where
    d: "wait_created E p ?name 3 None wc = (Ret (None, None), wd)" by metis
  from ok a b cr d show ?thesis by (simp add: EnsureLoadBalancer_def Let_def bnd_def)
qed

end
