(* ===== verification/Kube_Api.thy ===== *)
theory Kube_Api
  imports Instances
begin

text \<open>
  What the library controllers read and write through the API server: nodes with the fields
  they look at (\<^verbatim>\<open>pkg/api/v1/types.go\<close>), the kinds of errors they tell apart
  (\<^verbatim>\<open>pkg/api/errors\<close>), and conditions of a node.
\<close>

datatype kube_error = NotFound error | Conflict error | OtherError error

definition IsNotFound :: "kube_error \<Rightarrow> bool" where
  "IsNotFound err = (case err of NotFound _ \<Rightarrow> True | _ \<Rightarrow> False)"

definition IsConflict :: "kube_error \<Rightarrow> bool" where
  "IsConflict err = (case err of Conflict _ \<Rightarrow> True | _ \<Rightarrow> False)"

fun kube_message :: "kube_error \<Rightarrow> error" where
  "kube_message (NotFound e) = e"
| "kube_message (Conflict e) = e"
| "kube_message (OtherError e) = e"

record NodeCondition =
  Cond_Type :: string
  Cond_Status :: string
  Cond_Reason :: string
  Cond_Message :: string

record KubeNode = Node +
  Node_UID :: string
  Node_PodCIDR :: string
  Node_Unschedulable :: bool
  Node_Conditions :: "NodeCondition list"

definition NodeReady :: string where "NodeReady = ''Ready''"
definition NodeNetworkUnavailable :: string where "NodeNetworkUnavailable = ''NetworkUnavailable''"
definition ConditionTrue :: string where "ConditionTrue = ''True''"
definition ConditionFalse :: string where "ConditionFalse = ''False''"

fun GetNodeCondition :: "NodeCondition list \<Rightarrow> string \<Rightarrow> NodeCondition option" where
  "GetNodeCondition [] conditionType = None"
| "GetNodeCondition (c # cs) conditionType =
     (if Cond_Type c = conditionType then Some c else GetNodeCondition cs conditionType)"

end
