(* ===== verification/Service_Controller.thy ===== *)
theory Service_Controller
  imports Load_Balancer_Sync Vpc_Routes Kube_Api "HOL-Library.List_Lexorder" "HOL-Library.Char_ord"
begin

text \<open>
  The service controller, which keeps a load balancer for every service that wants one:
  \<^verbatim>\<open>pkg/controller/service/servicecontroller.go\<close> of the Kubernetes library. A method runs in
  the world together with the fields of the controller. The working queue is the list of keys
  that were added to it with their delays; events have no effect on the results and are left
  out.
\<close>

section \<open>Services and the interface of the provider\<close>

record KubeService = Service +
  Svc_Namespace :: string
  Svc_Name :: string
  Svc_Type :: string
  Svc_SourceRanges :: "string list option"
  Svc_ExternalIPs :: "string list"
  Svc_Ingress :: "(string \<times> string) list" \<comment> \<open>IP and host name of the status' ingress points\<close>

record 'w LoadBalancer_methods =
  lm_GetLoadBalancer :: "Service \<Rightarrow> ('w, LoadBalancerStatus option \<times> bool \<times> error option) go"
  lm_EnsureLoadBalancer :: "Service \<Rightarrow> Node list \<Rightarrow> ('w, LoadBalancerStatus option \<times> error option) go"
  lm_UpdateLoadBalancer :: "Service \<Rightarrow> Node list \<Rightarrow> ('w, error option) go"
  lm_EnsureLoadBalancerDeleted :: "Service \<Rightarrow> ('w, error option) go"

definition aliyun_balancer :: "'w env \<Rightarrow> AliyunProvider \<Rightarrow> 'w LoadBalancer_methods" where
  "aliyun_balancer E p =
     \<lparr>lm_GetLoadBalancer = GetLoadBalancer E p, lm_EnsureLoadBalancer = EnsureLoadBalancer E p,
      lm_UpdateLoadBalancer = UpdateLoadBalancer E p, lm_EnsureLoadBalancerDeleted = EnsureLoadBalancerDeleted E p\<rparr>"

text \<open>The listers, the client and the clock of the controller.\<close>

record 'w service_kube =
  sk_GetService :: "string \<Rightarrow> string \<Rightarrow> 'w \<Rightarrow> (kube_error + KubeService) \<times> 'w"
  sk_ListNodes :: "'w \<Rightarrow> (error + KubeNode list) \<times> 'w"
  sk_UpdateStatus :: "KubeService \<Rightarrow> 'w \<Rightarrow> kube_error option \<times> 'w"
  sk_Sleep :: "int \<Rightarrow> 'w \<Rightarrow> 'w"
  sk_range :: "'w \<Rightarrow> string list \<Rightarrow> string list" \<comment> \<open>the order of a \<^verbatim>\<open>range\<close> over a map\<close>

record cachedService =
  cs_state :: "KubeService option"
  cs_lastRetryDelay :: int

record sc_state =
  sc_cache :: "cachedService gomap"
  sc_knownHosts :: "KubeNode list"
  sc_servicesToUpdate :: "KubeService option list"
  sc_queue :: "(string \<times> int) list"

type_synonym ('w, 'a) sc = "('w \<times> sc_state, 'a) go"

section \<open>Which changes matter\<close>

definition wantsLoadBalancer :: "KubeService \<Rightarrow> bool" where
  "wantsLoadBalancer service \<longleftrightarrow> Svc_Type service = ''LoadBalancer''"

fun getPortsForLB_loop :: "bool \<Rightarrow> string \<Rightarrow> ServicePort list \<Rightarrow> ServicePort list \<Rightarrow> error + ServicePort list" where
  "getPortsForLB_loop wants protocol [] ports = Inr ports"
| "getPortsForLB_loop wants protocol (sp # sps) ports =
     (if protocol = '''' then getPortsForLB_loop wants (Protocol sp) sps (ports @ [sp])
      else if protocol \<noteq> Protocol sp \<and> wants
      then Inl ''mixed protocol external load balancers are not supported.''
      else getPortsForLB_loop wants protocol sps (ports @ [sp]))"

definition getPortsForLB :: "KubeService \<Rightarrow> error + ServicePort list" where
  "getPortsForLB service = getPortsForLB_loop (wantsLoadBalancer service) '''' (Ports service) []"

definition portEqualForLB :: "ServicePort \<Rightarrow> ServicePort \<Rightarrow> bool" where
  "portEqualForLB x y \<longleftrightarrow> Port_Name x = Port_Name y \<and> Protocol x = Protocol y \<and> Port x = Port y \<and> NodePort x = NodePort y"

definition portSlicesEqualForLB :: "ServicePort list \<Rightarrow> ServicePort list \<Rightarrow> bool" where
  "portSlicesEqualForLB x y \<longleftrightarrow> length x = length y \<and> list_all2 portEqualForLB x y"

definition portsEqualForLB :: "KubeService \<Rightarrow> KubeService \<Rightarrow> bool" where
  "portsEqualForLB x y =
     (case getPortsForLB x of
        Inl _ \<Rightarrow> False
      | Inr xPorts \<Rightarrow> (case getPortsForLB y of
          Inl _ \<Rightarrow> False
        | Inr yPorts \<Rightarrow> portSlicesEqualForLB xPorts yPorts))"

definition needsUpdate :: "KubeService \<Rightarrow> KubeService \<Rightarrow> bool" where
  "needsUpdate old new =
     (if \<not> wantsLoadBalancer old \<and> \<not> wantsLoadBalancer new then False
      else if wantsLoadBalancer old \<noteq> wantsLoadBalancer new then True
      else if wantsLoadBalancer new \<and> Svc_SourceRanges old \<noteq> Svc_SourceRanges new then True
      else if \<not> portsEqualForLB old new \<or> SessionAffinity old \<noteq> SessionAffinity new then True
      else if LoadBalancerIP old \<noteq> LoadBalancerIP new then True
      else if length (Svc_ExternalIPs old) \<noteq> length (Svc_ExternalIPs new) then True
      else if Svc_ExternalIPs old \<noteq> Svc_ExternalIPs new then True
      else if Annotations old \<noteq> Annotations new then True
      else if UID old \<noteq> UID new then True
      else False)"

section \<open>Keeping one service in sync\<close>

definition minRetryDelay :: int where "minRetryDelay = 5"
definition maxRetryDelay :: int where "maxRetryDelay = 300"
definition clientRetryCount :: nat where "clientRetryCount = 5"
definition clientRetryInterval :: int where "clientRetryInterval = 5"

text \<open>Durations are in seconds.\<close>

definition nextRetryDelay :: "cachedService \<Rightarrow> cachedService" where
  "nextRetryDelay cs =
     (let d = cs_lastRetryDelay cs * 2;
          d = (if d < minRetryDelay then minRetryDelay else d);
          d = (if d > maxRetryDelay then maxRetryDelay else d)
      in cs\<lparr>cs_lastRetryDelay := d\<rparr>)"

definition resetRetryDelay :: "cachedService \<Rightarrow> cachedService" where
  "resetRetryDelay cs = cs\<lparr>cs_lastRetryDelay := 0\<rparr>"

fun persistUpdate_loop :: "'w service_kube \<Rightarrow> KubeService \<Rightarrow> nat \<Rightarrow> error option \<Rightarrow> ('w, error option) go" where
  "persistUpdate_loop K service 0 err = ret err"
| "persistUpdate_loop K service (Suc i) err =
     bnd (call (sk_UpdateStatus K service)) (\<lambda>r. case r of
       None \<Rightarrow> ret None
     | Some e \<Rightarrow>
         if IsNotFound e then ret None
         else if IsConflict e
         then ret (Some (sprintf ''Not persisting update to service '%s/%s' that has been changed since we received it: %v''
                           [Svc_Namespace service, Svc_Name service, kube_message e]))
         else bnd (effect (sk_Sleep K clientRetryInterval)) (\<lambda>_.
              persistUpdate_loop K service i (Some (kube_message e))))"

definition persistUpdate :: "'w service_kube \<Rightarrow> KubeService \<Rightarrow> ('w, error option) go" where
  "persistUpdate K service = persistUpdate_loop K service clientRetryCount None"

definition includeNodeFromNodeList :: "KubeNode \<Rightarrow> bool" where
  "includeNodeFromNodeList n \<longleftrightarrow> \<not> Node_Unschedulable n"

definition createLoadBalancer ::
  "'w LoadBalancer_methods \<Rightarrow> 'w service_kube \<Rightarrow> KubeService \<Rightarrow> ('w, LoadBalancerStatus option \<times> error option) go" where
  "createLoadBalancer B K service =
     bnd (call (sk_ListNodes K)) (\<lambda>r. case r of
       Inl err \<Rightarrow> ret (None, Some err)
     | Inr nodes \<Rightarrow>
         lm_EnsureLoadBalancer B (Service.truncate service) (map Node.truncate (filter includeNodeFromNodeList nodes)))"

text \<open>
  The end of \<^verbatim>\<open>createLoadBalancerIfNeeded\<close>: the new status is compared with the old one and
  written when it differs. A \<^verbatim>\<open>nil\<close> status is dereferenced by the comparison.
\<close>

definition write_status ::
  "'w service_kube \<Rightarrow> KubeService \<Rightarrow> LoadBalancerStatus option \<Rightarrow> ('w, error option \<times> bool) go" where
  "write_status K service newState =
     (case newState of
        None \<Rightarrow> nil_deref
      | Some st \<Rightarrow>
          let ingress = map (\<lambda>ip. (ip, '''')) (Ingress st)
          in if Svc_Ingress service \<noteq> ingress
             then bnd (persistUpdate K (service\<lparr>Svc_Ingress := ingress\<rparr>)) (\<lambda>err. case err of
                    Some e \<Rightarrow> ret (Some (sprintf ''Failed to persist updated status to apiserver, even after retries. Giving up: %v'' [e]), False)
                  | None \<Rightarrow> ret (None, False))
             else ret (None, False))"

definition createLoadBalancerIfNeeded ::
  "'w LoadBalancer_methods \<Rightarrow> 'w service_kube \<Rightarrow> string \<Rightarrow> KubeService \<Rightarrow> ('w, error option \<times> bool) go" where
  "createLoadBalancerIfNeeded B K key service =
     (if \<not> wantsLoadBalancer service
      then bnd (lm_GetLoadBalancer B (Service.truncate service)) (\<lambda>(_, exists, err). case err of
             Some e \<Rightarrow> ret (Some (sprintf ''Error getting LB for service %s: %v'' [key, e]), True)
           | None \<Rightarrow>
               if exists
               then bnd (lm_EnsureLoadBalancerDeleted B (Service.truncate service)) (\<lambda>err. case err of
                      Some e \<Rightarrow> ret (Some e, True)
                    | None \<Rightarrow> write_status K service (Some \<lparr>Ingress = []\<rparr>))
               else write_status K service (Some \<lparr>Ingress = []\<rparr>))
      else bnd (createLoadBalancer B K service) (\<lambda>(newState, err). case err of
             Some e \<Rightarrow> ret (Some (sprintf ''Failed to create load balancer for service %s: %v'' [key, e]), True)
           | None \<Rightarrow> write_status K service newState))"

definition set_cached :: "string \<Rightarrow> cachedService \<Rightarrow> sc_state \<Rightarrow> sc_state" where
  "set_cached key cs s = s\<lparr>sc_cache := gm_set key cs (sc_cache s)\<rparr>"

text \<open>
  The cached service is shared between the method and the cache, so every change of it is a
  change of the cache.
\<close>

definition processServiceUpdate ::
  "'w LoadBalancer_methods \<Rightarrow> 'w service_kube \<Rightarrow> cachedService \<Rightarrow> KubeService \<Rightarrow> string \<Rightarrow> ('w, error option \<times> int) sc" where
  "processServiceUpdate B K cs service key =
     (let cs = cs\<lparr>cs_state := Some service\<rparr>
      in bnd (modify (set_cached key cs)) (\<lambda>_.
         bnd (lift_world (createLoadBalancerIfNeeded B K key service)) (\<lambda>(err, retry). case err of
           Some e \<Rightarrow>
             let cs = nextRetryDelay cs
             in bnd (modify (set_cached key cs)) (\<lambda>_. ret (Some e, cs_lastRetryDelay cs))
         | None \<Rightarrow> bnd (modify (set_cached key (resetRetryDelay cs))) (\<lambda>_. ret (None, 0)))))"

definition processServiceDeletion :: "'w LoadBalancer_methods \<Rightarrow> string \<Rightarrow> ('w, error option \<times> int) sc" where
  "processServiceDeletion B key =
     bnd (gets (\<lambda>s. map_of (sc_cache s) key)) (\<lambda>c. case c of
       None \<Rightarrow> ret (Some (sprintf ''Service %s not in cache even though the watcher thought it was. Ignoring the deletion.'' [key]), 0)
     | Some cs \<Rightarrow> (case cs_state cs of
         None \<Rightarrow> nil_deref
       | Some service \<Rightarrow>
           if \<not> wantsLoadBalancer service then ret (None, 0)
           else bnd (lift_world (lm_EnsureLoadBalancerDeleted B (Service.truncate service))) (\<lambda>err. case err of
                  Some e \<Rightarrow>
                    let cs = nextRetryDelay cs
                    in bnd (modify (set_cached key cs)) (\<lambda>_. ret (Some e, cs_lastRetryDelay cs))
                | None \<Rightarrow> bnd (modify (\<lambda>s. s\<lparr>sc_cache := gm_delete key (sc_cache s)\<rparr>)) (\<lambda>_. ret (None, 0)))))"

definition SplitMetaNamespaceKey :: "string \<Rightarrow> error + string \<times> string" where
  "SplitMetaNamespaceKey key =
     (case Split key CHR ''/'' of
        [name] \<Rightarrow> Inr ('''', name)
      | [namespace, name] \<Rightarrow> Inr (namespace, name)
      | _ \<Rightarrow> Inl (sprintf ''unexpected key format: %q'' [Quote key]))"

definition enqueue :: "string \<Rightarrow> int \<Rightarrow> ('w, unit) sc" where
  "enqueue key delay = modify (\<lambda>s. s\<lparr>sc_queue := sc_queue s @ [(key, delay)]\<rparr>)"

definition getOrCreate :: "string \<Rightarrow> ('w, cachedService) sc" where
  "getOrCreate key =
     bnd (gets (\<lambda>s. map_of (sc_cache s) key)) (\<lambda>c. case c of
       Some cs \<Rightarrow> ret cs
     | None \<Rightarrow> let cs = \<lparr>cs_state = None, cs_lastRetryDelay = 0\<rparr>
               in bnd (modify (set_cached key cs)) (\<lambda>_. ret cs))"

definition syncService :: "'w LoadBalancer_methods \<Rightarrow> 'w service_kube \<Rightarrow> string \<Rightarrow> ('w, error option) sc" where
  "syncService B K key =
     (case SplitMetaNamespaceKey key of
        Inl err \<Rightarrow> ret (Some err)
      | Inr (namespace, name) \<Rightarrow>
          bnd (lift_world (call (sk_GetService K namespace name))) (\<lambda>r.
            let retry = (\<lambda>(err, delay). if delay \<noteq> 0 then bnd (enqueue key delay) (\<lambda>_. ret None) else ret None)
            in case r of
                 Inl e \<Rightarrow>
                   if IsNotFound e then bnd (processServiceDeletion B key) retry
                   else bnd (enqueue key 0) (\<lambda>_. ret (Some (kube_message e)))
               | Inr service \<Rightarrow>
                   bnd (getOrCreate key) (\<lambda>cs. bnd (processServiceUpdate B K cs service key) retry)))"

section \<open>Following the nodes\<close>

definition getNodeConditionPredicate :: "KubeNode \<Rightarrow> bool" where
  "getNodeConditionPredicate n \<longleftrightarrow> \<not> Node_Unschedulable n \<and> Node_Conditions n \<noteq> [] \<and>
     (\<forall>c \<in> set (Node_Conditions n). \<not> (Cond_Type c = NodeReady \<and> Cond_Status c \<noteq> ConditionTrue))"

definition stringSlicesEqual :: "string list \<Rightarrow> string list \<Rightarrow> bool" where
  "stringSlicesEqual x y \<longleftrightarrow> length x = length y \<and> sort x = sort y"

definition nodeSlicesEqualForLB :: "KubeNode list \<Rightarrow> KubeNode list \<Rightarrow> bool" where
  "nodeSlicesEqualForLB x y \<longleftrightarrow> length x = length y \<and> stringSlicesEqual (map Node_Name x) (map Node_Name y)"

definition lockedUpdateLoadBalancerHosts ::
  "'w LoadBalancer_methods \<Rightarrow> KubeService \<Rightarrow> KubeNode list \<Rightarrow> ('w, error option) go" where
  "lockedUpdateLoadBalancerHosts B service hosts =
     (if \<not> wantsLoadBalancer service then ret None
      else bnd (lm_UpdateLoadBalancer B (Service.truncate service) (map Node.truncate hosts)) (\<lambda>err. case err of
             None \<Rightarrow> ret None
           | Some e \<Rightarrow>
               bnd (lm_GetLoadBalancer B (Service.truncate service)) (\<lambda>(_, exists, err2).
                 if err2 = None \<and> \<not> exists then ret None else ret (Some e))))"

fun updateLoadBalancerHosts ::
  "'w LoadBalancer_methods \<Rightarrow> KubeService option list \<Rightarrow> KubeNode list \<Rightarrow> KubeService option list \<Rightarrow>
   ('w, KubeService option list) go" where
  "updateLoadBalancerHosts B [] hosts again = ret again"
| "updateLoadBalancerHosts B (s # ss) hosts again =
     (case s of
        None \<Rightarrow> updateLoadBalancerHosts B ss hosts again
      | Some service \<Rightarrow> bnd (lockedUpdateLoadBalancerHosts B service hosts) (\<lambda>err.
          updateLoadBalancerHosts B ss hosts (if err = None then again else again @ [s])))"

definition allServices :: "'w service_kube \<Rightarrow> ('w, KubeService option list) sc" where
  "allServices K = call (\<lambda>(w, s).
     (map (\<lambda>k. Option.bind (map_of (sc_cache s) k) cs_state) (sk_range K w (map fst (sc_cache s))), (w, s)))"

definition nodeSyncLoop :: "'w LoadBalancer_methods \<Rightarrow> 'w service_kube \<Rightarrow> ('w, unit) sc" where
  "nodeSyncLoop B K =
     bnd (lift_world (call (sk_ListNodes K))) (\<lambda>r. case r of
       Inl err \<Rightarrow> ret ()
     | Inr nodes \<Rightarrow>
         let newHosts = filter getNodeConditionPredicate nodes
         in bnd (gets sc_knownHosts) (\<lambda>known.
            if nodeSlicesEqualForLB newHosts known
            then bnd (gets sc_servicesToUpdate) (\<lambda>services.
                 bnd (lift_world (updateLoadBalancerHosts B services newHosts [])) (\<lambda>again.
                 modify (\<lambda>s. s\<lparr>sc_servicesToUpdate := again\<rparr>)))
            else bnd (allServices K) (\<lambda>services.
                 bnd (lift_world (updateLoadBalancerHosts B services newHosts [])) (\<lambda>again.
                 modify (\<lambda>s. s\<lparr>sc_servicesToUpdate := again, sc_knownHosts := newHosts\<rparr>)))))"

section \<open>Steps of the controller\<close>

text \<open>\<^verbatim>\<open>init\<close>: what the provider must offer, and the zone.\<close>

definition service_init :: "'w env \<Rightarrow> AliyunProvider \<Rightarrow> ('w, error + 'w LoadBalancer_methods \<times> Zone) go" where
  "service_init E p =
     (case LoadBalancer p of
        None \<Rightarrow> ret (Inl ''the cloud provider does not support external load balancers.'')
      | Some balancer \<Rightarrow> (case Zones p of
          None \<Rightarrow> ret (Inl ''the cloud provider does not support zone enumeration, which is required for creating load balancers.'')
        | Some zones \<Rightarrow> bnd (GetZone E zones) (\<lambda>r. case r of
            Inl err \<Rightarrow> ret (Inl (sprintf ''failed to get zone from cloud provider, will not be able to create load balancers: %v'' [err]))
          | Inr zone \<Rightarrow> ret (Inr (aliyun_balancer E balancer, zone)))))"

text \<open>
  A worker takes any key of the queue that is due; handlers of the informers add keys (for an
  update only when it matters); the node loop runs; and the rest of the world moves.
\<close>

inductive sc_step :: "'w LoadBalancer_methods \<Rightarrow> 'w service_kube \<Rightarrow> 'w \<times> sc_state \<Rightarrow> 'w \<times> sc_state \<Rightarrow> bool"
  for B K where
  worker: "item \<in> set (sc_queue s) \<Longrightarrow>
    syncService B K (fst item) (w, s\<lparr>sc_queue := remove1 item (sc_queue s)\<rparr>) = (Ret r, t) \<Longrightarrow> sc_step B K (w, s) t"
| event: "enqueue key 0 (w, s) = (Ret (), t) \<Longrightarrow> sc_step B K (w, s) t"
| nodes: "nodeSyncLoop B K (w, s) = (Ret (), t) \<Longrightarrow> sc_step B K (w, s) t"
| world: "sc_step B K (w, s) (w', s)"

definition sc_start :: sc_state where
  "sc_start = \<lparr>sc_cache = [], sc_knownHosts = [], sc_servicesToUpdate = [], sc_queue = []\<rparr>"

end
