(* ===== verification/Service_Laws.thy ===== *)
theory Service_Laws
  imports Service_Controller Go_Map
begin

text \<open>
  What the service controller achieves over a load balancer provider. The locale \<open>balancer\<close>
  is the interface \<^verbatim>\<open>cloudprovider.LoadBalancer\<close> with its contract, and \<open>service_controller\<close> adds
  the API server; both are interpreted on the Aliyun provider.
\<close>

section \<open>Changes that do not matter\<close>

lemma getPortsForLB_loop_ports: "getPortsForLB_loop wants protocol sps ports = Inr ps \<Longrightarrow> ps = ports @ sps"
  by (induction wants protocol sps ports rule: getPortsForLB_loop.induct) (auto split: if_splits)

lemma getPortsForLB_ports: "getPortsForLB service = Inr ps \<Longrightarrow> ps = Ports service"
  using getPortsForLB_loop_ports by (fastforce simp: getPortsForLB_def)

lemma portEqualForLB_eq: "portEqualForLB = (=)"
  by (auto simp: portEqualForLB_def fun_eq_iff)

lemma portsEqualForLB_ports: "portsEqualForLB x y \<Longrightarrow> Ports x = Ports y"
  unfolding portsEqualForLB_def portSlicesEqualForLB_def
  by (auto simp: portEqualForLB_eq list.rel_eq split: sum.splits dest!: getPortsForLB_ports)

lemma not_needsUpdate:
  assumes "\<not> needsUpdate old new" and "wantsLoadBalancer new"
  shows "wantsLoadBalancer old" and "Service.truncate old = Service.truncate new"
proof -
  from assms show "wantsLoadBalancer old" by (auto simp: needsUpdate_def split: if_splits)
  from assms have "Ports old = Ports new" "SessionAffinity old = SessionAffinity new" "LoadBalancerIP old = LoadBalancerIP new"
    "Annotations old = Annotations new" "UID old = UID new"
    by (auto simp: needsUpdate_def split: if_splits dest: portsEqualForLB_ports)
  then show "Service.truncate old = Service.truncate new" by (simp add: Service.truncate_def)
qed

section \<open>Delays\<close>

lemma nextRetryDelay_bounds:
  "minRetryDelay \<le> cs_lastRetryDelay (nextRetryDelay cs)" "cs_lastRetryDelay (nextRetryDelay cs) \<le> maxRetryDelay"
  by (simp_all add: nextRetryDelay_def Let_def minRetryDelay_def maxRetryDelay_def)

lemma nextRetryDelay_eq: "cs_lastRetryDelay (nextRetryDelay cs) = min 300 (max 5 (2 * cs_lastRetryDelay cs))"
  by (simp add: nextRetryDelay_def Let_def minRetryDelay_def maxRetryDelay_def)

lemma nextRetryDelay_iter:
  "cs_lastRetryDelay cs = 0 \<Longrightarrow> cs_lastRetryDelay ((nextRetryDelay ^^ Suc n) cs) = min 300 (5 * 2 ^ n)"
proof (induction n)
  case (Suc n)
  define x where "x = (2 :: int) ^ n"
  have "1 \<le> x" by (simp add: x_def)
  from Suc have "cs_lastRetryDelay ((nextRetryDelay ^^ Suc n) cs) = min 300 (5 * x)" by (simp add: x_def)
  with nextRetryDelay_eq [of "(nextRetryDelay ^^ Suc n) cs"]
  have "cs_lastRetryDelay ((nextRetryDelay ^^ Suc (Suc n)) cs) = min 300 (max 5 (2 * min 300 (5 * x)))" by simp
  also have "\<dots> = min 300 (5 * (2 * x))" using \<open>1 \<le> x\<close> by (auto simp: min_def max_def)
  finally show ?case by (simp add: x_def)
qed (simp add: nextRetryDelay_eq)

lemma nextRetryDelay_state [simp]: "cs_state (nextRetryDelay cs) = cs_state cs"
  by (simp add: nextRetryDelay_def Let_def)

section \<open>Comparing node lists\<close>

lemma stringSlicesEqual_mset: "stringSlicesEqual x y \<longleftrightarrow> mset x = mset y"
  unfolding stringSlicesEqual_def by (metis mset_sort properties_for_sort size_mset sorted_sort)

lemma nodeSlicesEqualForLB_mset: "nodeSlicesEqualForLB x y \<longleftrightarrow> mset (map Node_Name x) = mset (map Node_Name y)"
  unfolding nodeSlicesEqualForLB_def stringSlicesEqual_mset by (metis length_map size_mset)

section \<open>A missing result\<close>

lemma createLoadBalancerIfNeeded_nil:
  assumes "wantsLoadBalancer service" and "sk_ListNodes K w = (Inr nodes, w1)"
    and "lm_EnsureLoadBalancer B (Service.truncate service) (map Node.truncate (filter includeNodeFromNodeList nodes)) w1 =
      (Ret (None, None), w')"
  shows "createLoadBalancerIfNeeded B K key service w =
    (Panic ''runtime error: invalid memory address or nil pointer dereference'', w')"
  using assms
  by (simp add: createLoadBalancerIfNeeded_def createLoadBalancer_def bnd_def call_def write_status_def nil_deref_def panic_def)

lemma syncService_panics:
  assumes "SplitMetaNamespaceKey key = Inr (ns, name)" and "sk_GetService K ns name w = (Inr service, w1)"
    and "createLoadBalancerIfNeeded B K key service w1 = (Panic msg, w')"
  shows "\<exists>s'. syncService B K key (w, s) = (Panic msg, (w', s'))"
  using assms
  by (simp add: syncService_def bnd_def lift_world_def call_def getOrCreate_def gets_def modify_def effect_def ret_def
      processServiceUpdate_def Let_def split: option.split)

section \<open>The interface\<close>

locale balancer =
  fixes B :: "'w LoadBalancer_methods"
    and synced :: "'w \<Rightarrow> Service \<Rightarrow> Node list \<Rightarrow> LoadBalancerStatus \<Rightarrow> bool"
    and gone :: "'w \<Rightarrow> Service \<Rightarrow> bool"
    and single :: "'w \<Rightarrow> Service \<Rightarrow> bool" \<comment> \<open>the service has at most one load balancer\<close>
  assumes ensure_law: "lm_EnsureLoadBalancer B s ns w = (Ret (Some st, err), w') \<Longrightarrow> synced w' s ns st"
    and delete_law: "lm_EnsureLoadBalancerDeleted B s w = (Ret None, w') \<Longrightarrow> single w s \<Longrightarrow> gone w' s"
    and get_law: "lm_GetLoadBalancer B s w = (Ret (st', exists, None), w') \<Longrightarrow> single w s \<Longrightarrow> single w' s"
    and absent_law: "lm_GetLoadBalancer B s w = (Ret (st', False, None), w') \<Longrightarrow> gone w' s"

locale service_controller = balancer B synced gone single for B :: "'w LoadBalancer_methods" and synced gone single +
  fixes K :: "'w service_kube"
  assumes status_frame: "sk_UpdateStatus K svc w = (r, w') \<Longrightarrow>
      (synced w s ns st \<longrightarrow> synced w' s ns st) \<and> (gone w s \<longrightarrow> gone w' s)"
    and sleep_frame: "(synced w s ns st \<longrightarrow> synced (sk_Sleep K t w) s ns st) \<and> (gone w s \<longrightarrow> gone (sk_Sleep K t w) s)"
begin

lemma persist_frame:
  "persistUpdate_loop K svc i err w = (r, w') \<Longrightarrow>
   (synced w s ns st \<longrightarrow> synced w' s ns st) \<and> (gone w s \<longrightarrow> gone w' s)"
proof (induction i arbitrary: err w)
  case (Suc i)
  obtain e w1 where e: "sk_UpdateStatus K svc w = (e, w1)" by fastforce
  note f = status_frame [OF e, of s ns st] sleep_frame [of w1 s ns st clientRetryInterval]
  show ?case
  proof (cases e)
    case None
    with Suc.prems e f show ?thesis by (simp add: bnd_def call_def)
  next
    case (Some x)
    with Suc.prems e consider "w' = w1"
      | "persistUpdate_loop K svc i (Some (kube_message x)) (sk_Sleep K clientRetryInterval w1) = (r, w')"
      by (auto simp: bnd_def call_def effect_def split: if_splits)
    then show ?thesis
    proof cases
      case 2
      from Suc.IH [OF this] f show ?thesis by blast
    qed (use f in blast)
  qed
qed simp

lemma write_frame:
  assumes "write_status K svc new w = (Ret r, w')"
  shows "(synced w s ns st \<longrightarrow> synced w' s ns st) \<and> (gone w s \<longrightarrow> gone w' s)"
proof (cases new)
  case (Some st')
  with assms consider "w' = w" | e where "persistUpdate K (svc\<lparr>Svc_Ingress := map (\<lambda>ip. (ip, '''')) (Ingress st')\<rparr>) w = (Ret e, w')"
    by (auto simp: write_status_def Let_def split: if_splits option.splits)
  then show ?thesis
  proof cases
    case 2
    then show ?thesis unfolding persistUpdate_def by (rule persist_frame)
  qed simp
qed (use assms in \<open>simp add: write_status_def nil_deref_def\<close>)

lemma create_in_sync:
  assumes run: "createLoadBalancerIfNeeded B K key service w = (Ret (None, retry), w')" and "wantsLoadBalancer service"
  shows "\<exists>nodes wn st. sk_ListNodes K w = (Inr nodes, wn) \<and>
    synced w' (Service.truncate service) (map Node.truncate (filter includeNodeFromNodeList nodes)) st"
proof -
  from assms obtain new w1 where c: "createLoadBalancer B K service w = (Ret (new, None), w1)"
    and s: "write_status K service new w1 = (Ret (None, retry), w')"
    by (auto simp: createLoadBalancerIfNeeded_def split: option.splits)
  from c obtain nodes wn where n: "sk_ListNodes K w = (Inr nodes, wn)"
    and e: "lm_EnsureLoadBalancer B (Service.truncate service) (map Node.truncate (filter includeNodeFromNodeList nodes)) wn = (Ret (new, None), w1)"
    by (auto simp: createLoadBalancer_def split: sum.splits)
  from s obtain st where "new = Some st" by (cases new) (auto simp: write_status_def nil_deref_def)
  with e ensure_law have "synced w1 (Service.truncate service) (map Node.truncate (filter includeNodeFromNodeList nodes)) st" by blast
  with write_frame [OF s] n show ?thesis by blast
qed

lemma create_gone:
  assumes "createLoadBalancerIfNeeded B K key service w = (Ret (None, retry), w')" and "\<not> wantsLoadBalancer service"
    and "single w (Service.truncate service)"
  shows "gone w' (Service.truncate service)"
proof -
  from assms(1,2) obtain st ex w1 w2 where g: "lm_GetLoadBalancer B (Service.truncate service) w = (Ret (st, ex, None), w1)"
    and d: "if ex then lm_EnsureLoadBalancerDeleted B (Service.truncate service) w1 = (Ret None, w2) else w2 = w1"
    and s: "write_status K service (Some \<lparr>Ingress = []\<rparr>) w2 = (Ret (None, retry), w')"
    by (auto simp: createLoadBalancerIfNeeded_def split: option.splits if_splits)
  from g d delete_law absent_law get_law [OF g assms(3)] have "gone w2 (Service.truncate service)" by (cases ex) auto
  with write_frame [OF s] show ?thesis by blast
qed

end

section \<open>One run of syncService\<close>

lemma processServiceUpdate_cases:
  assumes "processServiceUpdate B K cs service key (w, s) = (Ret (err, delay), (w', s'))"
  obtains (ok) retry where "createLoadBalancerIfNeeded B K key service w = (Ret (None, retry), w')" "err = None" "delay = 0"
      "s' = s\<lparr>sc_cache := sc_cache s'\<rparr>" "map_of (sc_cache s') = (map_of (sc_cache s))(key \<mapsto> \<lparr>cs_state = Some service, cs_lastRetryDelay = 0\<rparr>)"
  | (failed) e retry where "createLoadBalancerIfNeeded B K key service w = (Ret (Some e, retry), w')" "err = Some e"
      "minRetryDelay \<le> delay" "delay \<le> maxRetryDelay" "s' = s\<lparr>sc_cache := sc_cache s'\<rparr>"
      "map_of (sc_cache s') = (map_of (sc_cache s))(key \<mapsto> \<lparr>cs_state = Some service, cs_lastRetryDelay = delay\<rparr>)"
proof -
  from assms obtain e retry w1 where c: "createLoadBalancerIfNeeded B K key service w = (Ret (e, retry), w1)"
    by (auto simp: processServiceUpdate_def Let_def)
  define cs1 where "cs1 = cs\<lparr>cs_state := Some service\<rparr>"
  show thesis
  proof (cases e)
    case None
    with assms c have "err = None" "delay = 0" "w1 = w'" "s' = set_cached key (resetRetryDelay cs1) (set_cached key cs1 s)"
      by (auto simp: processServiceUpdate_def Let_def cs1_def)
    moreover have "resetRetryDelay cs1 = \<lparr>cs_state = Some service, cs_lastRetryDelay = 0\<rparr>"
      by (cases cs) (simp add: resetRetryDelay_def cs1_def)
    ultimately show thesis using ok [of retry] c None by (simp add: set_cached_def gm.lookup_assign)
  next
    case (Some x)
    with assms c have "err = Some x" "delay = cs_lastRetryDelay (nextRetryDelay cs1)" "w1 = w'"
      "s' = set_cached key (nextRetryDelay cs1) (set_cached key cs1 s)"
      by (auto simp: processServiceUpdate_def Let_def cs1_def)
    moreover have "nextRetryDelay cs1 = \<lparr>cs_state = Some service, cs_lastRetryDelay = cs_lastRetryDelay (nextRetryDelay cs1)\<rparr>"
      by (simp add: nextRetryDelay_def Let_def cs1_def)
    ultimately show thesis
      using failed [of x retry] c Some nextRetryDelay_bounds [of cs1] by (simp add: set_cached_def gm.lookup_assign)
  qed
qed

lemma getOrCreate_run:
  "\<exists>cs s1. getOrCreate key (w, s) = (Ret cs, (w, s1)) \<and> s1 = s\<lparr>sc_cache := sc_cache s1\<rparr> \<and>
     (\<forall>v. (map_of (sc_cache s1))(key \<mapsto> v) = (map_of (sc_cache s))(key \<mapsto> v))"
proof (cases "map_of (sc_cache s) key")
  case None
  then show ?thesis
    by (simp add: getOrCreate_def bnd_def gets_def call_def modify_def effect_def ret_def Let_def set_cached_def gm.lookup_assign)
next
  case (Some cs)
  then show ?thesis by (simp add: getOrCreate_def bnd_def gets_def call_def ret_def)
qed

lemma syncService_update:
  assumes k: "SplitMetaNamespaceKey key = Inr (ns, name)" and g: "sk_GetService K ns name w = (Inr service, w0)"
    and run: "syncService B K key (w, s) = (Ret r, (w', s'))"
  obtains (ok) retry where "createLoadBalancerIfNeeded B K key service w0 = (Ret (None, retry), w')" "r = None"
      "sc_queue s' = sc_queue s" "map_of (sc_cache s') = (map_of (sc_cache s))(key \<mapsto> \<lparr>cs_state = Some service, cs_lastRetryDelay = 0\<rparr>)"
  | (failed) e retry delay where "createLoadBalancerIfNeeded B K key service w0 = (Ret (Some e, retry), w')" "r = None"
      "minRetryDelay \<le> delay" "delay \<le> maxRetryDelay" "sc_queue s' = sc_queue s @ [(key, delay)]"
      "map_of (sc_cache s') = (map_of (sc_cache s))(key \<mapsto> \<lparr>cs_state = Some service, cs_lastRetryDelay = delay\<rparr>)"
proof -
  from getOrCreate_run [of key w0 s] obtain cs s1 where c: "getOrCreate key (w0, s) = (Ret cs, (w0, s1))" "s1 = s\<lparr>sc_cache := sc_cache s1\<rparr>"
    "\<And>v. (map_of (sc_cache s1))(key \<mapsto> v) = (map_of (sc_cache s))(key \<mapsto> v)" by blast
  have "lift_world (call (sk_GetService K ns name)) (w, s) = (Ret (Inr service), (w0, s))" using g by simp
  with run k c(1) obtain err delay s2 where p: "processServiceUpdate B K cs service key (w0, s1) = (Ret (err, delay), (w', s2))"
    and t: "r = None" "s' = (if delay \<noteq> 0 then s2\<lparr>sc_queue := sc_queue s2 @ [(key, delay)]\<rparr> else s2)"
    by (auto simp: syncService_def Let_def enqueue_def bnd_Ret split: if_splits)
  from p show thesis
  proof (cases rule: processServiceUpdate_cases)
    case (ok retry)
    then have "sc_queue s2 = sc_queue s" using c(2) by (metis sc_state.select_convs(4) sc_state.surjective sc_state.update_convs(1))
    with ok t c(3) that(1) show thesis by simp
  next
    case (failed e retry)
    then have "sc_queue s2 = sc_queue s" using c(2) by (metis sc_state.select_convs(4) sc_state.surjective sc_state.update_convs(1))
    with failed t c(3) that(2) [of e retry delay] show thesis by (simp add: minRetryDelay_def)
  qed
qed

lemma syncService_deletion:
  assumes k: "SplitMetaNamespaceKey key = Inr (ns, name)" and g: "sk_GetService K ns name w = (Inl e, w0)" "IsNotFound e"
    and run: "syncService B K key (w, s) = (Ret r, (w', s'))"
  obtains (unknown) "map_of (sc_cache s) key = None" "s' = s" "w' = w0"
  | (unwanted) cs service where "map_of (sc_cache s) key = Some cs" "cs_state cs = Some service" "\<not> wantsLoadBalancer service"
      "s' = s" "w' = w0"
  | (deleted) cs service where "map_of (sc_cache s) key = Some cs" "cs_state cs = Some service" "wantsLoadBalancer service"
      "lm_EnsureLoadBalancerDeleted B (Service.truncate service) w0 = (Ret None, w')"
      "sc_queue s' = sc_queue s" "map_of (sc_cache s') = (map_of (sc_cache s))(key := None)"
  | (failed) cs service x where "map_of (sc_cache s) key = Some cs" "cs_state cs = Some service" "wantsLoadBalancer service"
      "lm_EnsureLoadBalancerDeleted B (Service.truncate service) w0 = (Ret (Some x), w')"
      "sc_queue s' = sc_queue s @ [(key, cs_lastRetryDelay (nextRetryDelay cs))]"
      "map_of (sc_cache s') = (map_of (sc_cache s))(key \<mapsto> nextRetryDelay cs)"
proof -
  have "lift_world (call (sk_GetService K ns name)) (w, s) = (Ret (Inl e), (w0, s))" using g by simp
  with run k g(2) obtain err delay s2 where p: "processServiceDeletion B key (w0, s) = (Ret (err, delay), (w', s2))"
    and t: "s' = (if delay \<noteq> 0 then s2\<lparr>sc_queue := sc_queue s2 @ [(key, delay)]\<rparr> else s2)"
    by (auto simp: syncService_def Let_def enqueue_def bnd_Ret split: if_splits)
  show thesis
  proof (cases "map_of (sc_cache s) key")
    case None
    with p t unknown show thesis by (auto simp: processServiceDeletion_def)
  next
    case (Some cs)
    note cs = this
    with p obtain service where sv: "cs_state cs = Some service"
      by (cases "cs_state cs") (auto simp: processServiceDeletion_def nil_deref_def)
    show thesis
    proof (cases "wantsLoadBalancer service")
      case False
      with p t cs sv unwanted show thesis by (auto simp: processServiceDeletion_def)
    next
      case True
      with p cs sv obtain x where d: "lm_EnsureLoadBalancerDeleted B (Service.truncate service) w0 = (Ret x, w')"
        by (auto simp: processServiceDeletion_def Let_def split: option.splits)
      show thesis
      proof (cases x)
        case None
        with p t True cs sv d deleted show thesis by (auto simp: processServiceDeletion_def gm.lookup_remove)
      next
        case x: (Some y)
        have "cs_lastRetryDelay (nextRetryDelay cs) \<noteq> 0" using nextRetryDelay_bounds(1) [of cs] by (simp add: minRetryDelay_def)
        with p t True cs sv d x failed [of cs service y] show thesis
          by (auto simp: processServiceDeletion_def Let_def set_cached_def gm.lookup_assign)
      qed
    qed
  qed
qed

section \<open>No failure is forgotten\<close>

text \<open>
  Every cached service that wants a load balancer and whose last synchronisation failed is in
  the queue; the delays are in range and the keys of the cache are well formed.
\<close>

definition cached_ok :: "sc_state \<Rightarrow> string \<Rightarrow> cachedService \<Rightarrow> bool" where
  "cached_ok s key cs \<longleftrightarrow> (\<exists>x. SplitMetaNamespaceKey key = Inr x) \<and>
     0 \<le> cs_lastRetryDelay cs \<and> cs_lastRetryDelay cs \<le> maxRetryDelay \<and>
     (cs_lastRetryDelay cs \<noteq> 0 \<and> (\<exists>service. cs_state cs = Some service \<and> wantsLoadBalancer service) \<longrightarrow>
        key \<in> fst ` set (sc_queue s))"

definition sc_inv :: "sc_state \<Rightarrow> bool" where
  "sc_inv s \<longleftrightarrow> (\<forall>key cs. map_of (sc_cache s) key = Some cs \<longrightarrow> cached_ok s key cs)"

lemma queue_kept: "k \<noteq> fst item \<Longrightarrow> k \<in> fst ` set q \<Longrightarrow> k \<in> fst ` set (remove1 item q)"
proof -
  assume "k \<noteq> fst item" and "k \<in> fst ` set q"
  then obtain x where "x \<in> set q" "fst x = k" "x \<noteq> item" by auto
  then show ?thesis by (auto simp: in_set_remove1)
qed

lemma sc_invD: "sc_inv s \<Longrightarrow> map_of (sc_cache s) key = Some cs \<Longrightarrow> cached_ok s key cs"
  by (simp add: sc_inv_def)

lemma sc_invI:
  assumes "sc_inv s"
    and others: "\<And>k. k \<noteq> key \<Longrightarrow> map_of (sc_cache s') k = map_of (sc_cache s) k"
      "\<And>k. k \<noteq> key \<Longrightarrow> k \<in> fst ` set (sc_queue s) \<Longrightarrow> k \<in> fst ` set (sc_queue s')"
    and own: "\<And>cs. map_of (sc_cache s') key = Some cs \<Longrightarrow> cached_ok s' key cs"
  shows "sc_inv s'"
  unfolding sc_inv_def
proof (intro allI impI)
  fix k cs assume c: "map_of (sc_cache s') k = Some cs"
  show "cached_ok s' k cs"
  proof (cases "k = key")
    case False
    with c others assms(1) show ?thesis by (auto simp: sc_inv_def cached_ok_def)
  qed (use c own in simp)
qed

lemma sc_inv_deletion:
  assumes inv: "sc_inv s" and k: "SplitMetaNamespaceKey (fst item) = Inr (ns, name)"
    and g: "sk_GetService K ns name w = (Inl e, w0)" "IsNotFound e"
    and run: "syncService B K (fst item) (w, s\<lparr>sc_queue := remove1 item (sc_queue s)\<rparr>) = (Ret r, (w', s'))"
  shows "sc_inv s'"
proof (cases rule: syncService_deletion [OF k g run])
  case 1
  then show ?thesis by (intro sc_invI [OF inv, of "fst item"]) (simp_all add: queue_kept)
next
  case (2 cs service)
  with inv show ?thesis by (intro sc_invI [OF inv, of "fst item"]) (auto simp: queue_kept sc_inv_def cached_ok_def)
next
  case (3 cs service)
  then show ?thesis by (intro sc_invI [OF inv, of "fst item"]) (simp_all add: queue_kept)
next
  case (4 cs service y)
  then show ?thesis
    using nextRetryDelay_bounds [of cs]
    by (intro sc_invI [OF inv, of "fst item"]) (auto simp: queue_kept cached_ok_def k minRetryDelay_def)
qed

lemma sc_inv_worker:
  assumes inv: "sc_inv s"
    and run: "syncService B K (fst item) (w, s\<lparr>sc_queue := remove1 item (sc_queue s)\<rparr>) = (Ret r, (w', s'))"
  shows "sc_inv s'"
proof -
  let ?key = "fst item" and ?s = "s\<lparr>sc_queue := remove1 item (sc_queue s)\<rparr>"
  note q = queue_kept [of _ item "sc_queue s"]
  show ?thesis
  proof (cases "SplitMetaNamespaceKey ?key")
    case (Inl e)
    with sc_invD [OF inv, of ?key] have "map_of (sc_cache s) ?key = None"
      by (cases "map_of (sc_cache s) ?key") (auto simp: cached_ok_def)
    moreover from run Inl have "s' = ?s" by (simp add: syncService_def)
    ultimately show ?thesis by (intro sc_invI [OF inv, of ?key]) (simp_all add: q)
  next
    case (Inr x)
    obtain ns name where x: "x = (ns, name)" by fastforce
    with Inr have k: "SplitMetaNamespaceKey ?key = Inr (ns, name)" by simp
    obtain g w0 where g: "sk_GetService K ns name w = (g, w0)" by fastforce
    show ?thesis
    proof (cases g)
      case (Inr service)
      with g have "sk_GetService K ns name w = (Inr service, w0)" by simp
      from syncService_update [OF k this run] show ?thesis
        by cases (rule sc_invI [OF inv, of ?key]; auto simp: q cached_ok_def k minRetryDelay_def maxRetryDelay_def)+
    next
      case (Inl e)
      with g have g: "sk_GetService K ns name w = (Inl e, w0)" by simp
      show ?thesis
      proof (cases "IsNotFound e")
        case True
        show ?thesis by (rule sc_inv_deletion [OF inv k g True run])
      next
        case False
        with run k g have "s' = ?s\<lparr>sc_queue := sc_queue ?s @ [(?key, 0)]\<rparr>"
          by (auto simp: syncService_def Let_def enqueue_def)
        with inv show ?thesis by (intro sc_invI [OF inv, of ?key]) (auto simp: q sc_inv_def cached_ok_def)
      qed
    qed
  qed
qed

lemma nodeSyncLoop_frame:
  assumes "nodeSyncLoop B K (w, s) = (Ret (), (w', s'))"
  shows "sc_cache s' = sc_cache s \<and> sc_queue s' = sc_queue s"
proof -
  from assms obtain r w1 where r: "sk_ListNodes K w = (r, w1)" by fastforce
  show ?thesis
  proof (cases r)
    case (Inl e)
    with assms r show ?thesis by (auto simp: nodeSyncLoop_def)
  next
    case (Inr nodes)
    with assms r show ?thesis
      by (auto simp: nodeSyncLoop_def Let_def allServices_def call_def split: if_splits)
  qed
qed

lemma sc_inv_step: "sc_step B K x y \<Longrightarrow> sc_inv (snd x) \<Longrightarrow> sc_inv (snd y)"
proof (induction rule: sc_step.induct)
  case (worker item s w r t)
  then show ?case using sc_inv_worker [of s B K item w r "fst t" "snd t"] by simp
next
  case (event key w s t)
  then show ?case by (cases t) (auto simp: enqueue_def sc_inv_def cached_ok_def)
next
  case (nodes w s t)
  then show ?case using nodeSyncLoop_frame [of B K w s "fst t" "snd t"] by (simp add: sc_inv_def cached_ok_def)
qed simp

lemma sc_inv_reachable: "(sc_step B K)\<^sup>*\<^sup>* (w, sc_start) x \<Longrightarrow> sc_inv (snd x)"
proof (induction rule: rtranclp_induct)
  case base
  show ?case by (simp add: sc_inv_def sc_start_def)
qed (rule sc_inv_step)

section \<open>Following the nodes\<close>

text \<open>A service is settled for a list of hosts when its update succeeded or it has no load balancer.\<close>

definition hosts_settled :: "'w LoadBalancer_methods \<Rightarrow> KubeNode list \<Rightarrow> KubeService \<Rightarrow> bool" where
  "hosts_settled B hosts service \<longleftrightarrow>
     (\<exists>w w'. lm_UpdateLoadBalancer B (Service.truncate service) (map Node.truncate hosts) w = (Ret None, w')) \<or>
     (\<exists>w st w'. lm_GetLoadBalancer B (Service.truncate service) w = (Ret (st, False, None), w'))"

lemma lockedUpdate_settled:
  assumes "lockedUpdateLoadBalancerHosts B service hosts w = (Ret None, w')" and "wantsLoadBalancer service"
  shows "hosts_settled B hosts service"
proof -
  from assms obtain err w1 where u: "lm_UpdateLoadBalancer B (Service.truncate service) (map Node.truncate hosts) w = (Ret err, w1)"
    by (auto simp: lockedUpdateLoadBalancerHosts_def)
  show ?thesis
  proof (cases err)
    case None
    with u show ?thesis unfolding hosts_settled_def by blast
  next
    case (Some e)
    with assms u obtain st ex err2 w2 where g: "lm_GetLoadBalancer B (Service.truncate service) w1 = (Ret (st, ex, err2), w2)"
      and "(if err2 = None \<and> \<not> ex then ret None else ret (Some e)) w2 = (Ret None, w')"
      by (auto simp: lockedUpdateLoadBalancerHosts_def bnd_Ret)
    then have "err2 = None" "\<not> ex" by (auto split: if_splits)
    with g show ?thesis unfolding hosts_settled_def by auto
  qed
qed

lemma updateLoadBalancerHosts_all:
  "updateLoadBalancerHosts B services hosts again w = (Ret res, w') \<Longrightarrow>
   set again \<subseteq> set res \<and> (\<forall>service. Some service \<in> set services \<and> wantsLoadBalancer service \<longrightarrow>
     Some service \<in> set res \<or> hosts_settled B hosts service)"
proof (induction services arbitrary: again w)
  case (Cons s ss)
  show ?case
  proof (cases s)
    case None
    with Cons show ?thesis by simp
  next
    case (Some service)
    with Cons.prems obtain err w1 where l: "lockedUpdateLoadBalancerHosts B service hosts w = (Ret err, w1)"
      and r: "updateLoadBalancerHosts B ss hosts (if err = None then again else again @ [s]) w1 = (Ret res, w')"
      by auto
    from Cons.IH [OF r] lockedUpdate_settled [of B service hosts w w1] l Some show ?thesis
      by (cases err) auto
  qed
qed auto

definition to_update :: "KubeNode list \<Rightarrow> sc_state \<Rightarrow> KubeService set" where
  "to_update hosts s =
     (if mset (map Node_Name hosts) = mset (map Node_Name (sc_knownHosts s))
      then {service. Some service \<in> set (sc_servicesToUpdate s)}
      else {service. \<exists>key cs. map_of (sc_cache s) key = Some cs \<and> cs_state cs = Some service})"

lemma nodeSyncLoop_all:
  assumes l: "sk_ListNodes K w = (Inr nodes, w0)" and range: "\<And>ks. set (sk_range K w0 ks) = set ks"
    and run: "nodeSyncLoop B K (w, s) = (Ret (), (w', s'))"
  defines "hosts \<equiv> filter getNodeConditionPredicate nodes"
  shows "mset (map Node_Name (sc_knownHosts s')) = mset (map Node_Name hosts) \<and>
    (\<forall>service \<in> to_update hosts s. wantsLoadBalancer service \<longrightarrow>
       Some service \<in> set (sc_servicesToUpdate s') \<or> hosts_settled B hosts service)"
proof (cases "nodeSlicesEqualForLB hosts (sc_knownHosts s)")
  case True
  with run l obtain again where u: "updateLoadBalancerHosts B (sc_servicesToUpdate s) hosts [] w0 = (Ret again, w')"
    and s': "s' = s\<lparr>sc_servicesToUpdate := again\<rparr>"
    by (auto simp: nodeSyncLoop_def hosts_def Let_def)
  from updateLoadBalancerHosts_all [OF u] True s' show ?thesis
    by (auto simp: to_update_def nodeSlicesEqualForLB_mset)
next
  case False
  define services where "services = map (\<lambda>k. Option.bind (map_of (sc_cache s) k) cs_state) (sk_range K w0 (map fst (sc_cache s)))"
  from False run l obtain again where u: "updateLoadBalancerHosts B services hosts [] w0 = (Ret again, w')"
    and s': "s' = s\<lparr>sc_servicesToUpdate := again, sc_knownHosts := hosts\<rparr>"
    by (auto simp: nodeSyncLoop_def hosts_def Let_def allServices_def call_def services_def)
  have "Some service \<in> set services" if "map_of (sc_cache s) key = Some cs" "cs_state cs = Some service" for key cs service
  proof -
    from that(1) have "key \<in> set (sk_range K w0 (map fst (sc_cache s)))"
      by (auto simp: range dest!: map_of_SomeD intro: rev_image_eqI)
    moreover from that have "Option.bind (map_of (sc_cache s) key) cs_state = Some service" by simp
    ultimately show ?thesis unfolding services_def by (force simp: image_iff)
  qed
  with updateLoadBalancerHosts_all [OF u] False s' show ?thesis
    by (auto simp: to_update_def nodeSlicesEqualForLB_mset)
qed

section \<open>The Aliyun provider\<close>

text \<open>The API server and the clock have no part in the load balancers of the cloud.\<close>

definition service_frame :: "'w service_kube \<Rightarrow> 'w name_view \<Rightarrow> 'w listener_view \<Rightarrow> 'w backend_view \<Rightarrow> bool" where
  "service_frame K nms lsn bks \<longleftrightarrow>
     (\<forall>svc w r w'. sk_UpdateStatus K svc w = (r, w') \<longrightarrow> nms w' = nms w \<and> lsn w' = lsn w \<and> bks w' = bks w) \<and>
     (\<forall>t w. nms (sk_Sleep K t w) = nms w \<and> lsn (sk_Sleep K t w) = lsn w \<and> bks (sk_Sleep K t w) = bks w)"

definition unique_name :: "'w name_view \<Rightarrow> 'w \<Rightarrow> Service \<Rightarrow> bool" where
  "unique_name nms w s \<longleftrightarrow>
     (\<forall>a b. nms w a = Some (GetLoadBalancerName s) \<longrightarrow> nms w b = Some (GetLoadBalancerName s) \<longrightarrow> a = b)"

text \<open>
  A load balancer with the service's name and the reported address is in sync with the ports
  of the service and with the instances the nodes are resolved to.
\<close>

definition service_in_sync ::
  "'w env \<Rightarrow> AliyunProvider \<Rightarrow> 'w name_view \<Rightarrow> 'w listener_view \<Rightarrow> 'w backend_view \<Rightarrow>
   'w \<Rightarrow> Service \<Rightarrow> Node list \<Rightarrow> LoadBalancerStatus \<Rightarrow> bool" where
  "service_in_sync E p nms lsn bks w s ns st \<longleftrightarrow> (\<exists>w0 instances wi lb.
     getInstancesByNodes E p ns w0 = (Ret (Inr instances), wi) \<and> st = lbToStatus lb \<and>
     nms w (LoadBalancerId lb) = Some (GetLoadBalancerName s) \<and>
     lb_in_sync lsn bks w (LoadBalancerId lb) (Ports s) instances)"

interpretation aliyun_lb: balancer "aliyun_balancer E p"
  "\<lambda>w s ns st. slb_contract E nms lsn bks \<and> range_ok E \<and> wf_ports (Ports s) \<and> service_frame K nms lsn bks \<longrightarrow>
     service_in_sync E p nms lsn bks w s ns st"
  "\<lambda>w s. describes_lbs E nms lsn bks \<and> deletes_lbs E nms \<and> service_frame K nms lsn bks \<longrightarrow>
     (\<forall>lid. nms w lid \<noteq> Some (GetLoadBalancerName s))"
  "\<lambda>w s. describes_lbs E nms lsn bks \<longrightarrow> unique_name nms w s"
  for E p nms lsn bks K
proof (unfold_locales, goal_cases)
  case (1 s ns w st err w')
  then have "EnsureLoadBalancer E p s ns w = (Ret (Some st, err), w')" by (simp add: aliyun_balancer_def)
  then show ?case unfolding service_in_sync_def using EnsureLoadBalancer_in_sync [of E nms lsn bks s p ns w st err w'] by blast
next
  case (2 s w w')
  then have r: "EnsureLoadBalancerDeleted E p s w = (Ret None, w')" by (simp add: aliyun_balancer_def)
  show ?case
  proof
    assume "describes_lbs E nms lsn bks \<and> deletes_lbs E nms \<and> service_frame K nms lsn bks"
    with 2(2) show "\<forall>lid. nms w' lid \<noteq> Some (GetLoadBalancerName s)"
      using EnsureLoadBalancerDeleted_gone [OF _ _ _ r, of nms lsn bks] unfolding unique_name_def by simp
  qed
next
  case (3 s w st' found w')
  then obtain x where "getLoadBalancer E p (GetLoadBalancerName s) w = (Ret (Inr x), w')"
    by (auto simp: aliyun_balancer_def GetLoadBalancer_def split: sum.splits option.splits)
  with 3(2) show ?case using getLoadBalancer_nms [of E nms lsn bks p "GetLoadBalancerName s" w x w'] by (simp add: unique_name_def)
next
  case (4 s w st' w')
  then have "getLoadBalancer E p (GetLoadBalancerName s) w = (Ret (Inr None), w')"
    by (auto simp: aliyun_balancer_def GetLoadBalancer_def split: sum.splits option.splits)
  then show ?case using getLoadBalancer_absent [of E nms lsn bks p "GetLoadBalancerName s" w w'] by simp
qed

lemma in_sync_frame:
  assumes "nms w' = nms w" "lsn w' = lsn w" "bks w' = bks w"
  shows "service_in_sync E p nms lsn bks w' s ns st = service_in_sync E p nms lsn bks w s ns st"
  using assms by (simp add: service_in_sync_def lb_in_sync_def)

interpretation aliyun_sc: service_controller "aliyun_balancer E p"
  "\<lambda>w s ns st. slb_contract E nms lsn bks \<and> range_ok E \<and> wf_ports (Ports s) \<and> service_frame K nms lsn bks \<longrightarrow>
     service_in_sync E p nms lsn bks w s ns st"
  "\<lambda>w s. describes_lbs E nms lsn bks \<and> deletes_lbs E nms \<and> service_frame K nms lsn bks \<longrightarrow>
     (\<forall>lid. nms w lid \<noteq> Some (GetLoadBalancerName s))"
  "\<lambda>w s. describes_lbs E nms lsn bks \<longrightarrow> unique_name nms w s" K
  for E p nms lsn bks K
proof (unfold_locales, goal_cases)
  case (1 svc w r w' s ns st)
  then show ?case using in_sync_frame [of nms w' w lsn bks E p s ns st] unfolding service_frame_def by metis
next
  case (2 w s ns st t)
  then show ?case using in_sync_frame [of nms "sk_Sleep K t w" w lsn bks E p s ns st] unfolding service_frame_def by metis
qed

end
