(* ===== verification/Reference_Cloud.thy ===== *)
theory Reference_Cloud
  imports Route_Sync Provision_Laws Service_Laws
begin

text \<open>
  A small cloud that can be run. The properties of the provider assume a cloud with the
  documented behaviour (\<open>slb_contract\<close>, \<open>route_contract\<close>, \<open>disk_contract\<close>) and an API server; this
  theory has both, proves that they satisfy these contracts, and gives the provider, the
  service, the nodes and the claim on which the properties are evaluated.
\<close>

section \<open>State\<close>

record cloud =
  cl_instances :: "InstanceAttributesType list"
  cl_entries :: "RouteEntrySetType list"
  cl_disks :: "(string \<times> disk_state) list"
  cl_names :: "(string \<times> string) list"
  cl_listeners :: "string \<Rightarrow> (int \<times> listener_state) list"
  cl_backends :: "string \<Rightarrow> (string \<times> int) list"
  cl_volumes :: "(string \<times> SavedVolume) list" \<comment> \<open>volume objects of the API server\<close>
  cl_settles :: bool \<comment> \<open>whether disks reach their final status while one waits\<close>

definition view_listeners :: "cloud listener_view" where
  "view_listeners c lb = map_of (cl_listeners c lb)"

definition view_backends :: "cloud backend_view" where
  "view_backends c lb = map_of (cl_backends c lb)"

definition view_names :: "cloud name_view" where
  "view_names c = map_of (cl_names c)"

definition view_disks :: "cloud disk_view" where
  "view_disks c = map_of (cl_disks c)"

section \<open>Requests\<close>

definition page_of :: "Pagination \<Rightarrow> 'a list \<Rightarrow> 'a list \<times> PaginationResult" where
  "page_of pg xs =
     (let n = max 1 (PageNumber pg)
      in (take (nat (PageSize pg)) (drop (nat ((n - 1) * PageSize pg)) xs),
          \<lparr>TotalCount = int (length xs), Result_PageNumber = n, Result_PageSize = PageSize pg\<rparr>))"

definition one_page :: "'a list \<Rightarrow> 'a list \<times> PaginationResult" where
  "one_page xs = (xs, \<lparr>TotalCount = int (length xs), Result_PageNumber = 1, Result_PageSize = 50\<rparr>)"

definition ref_describe_disks ::
  "DescribeDisksArgs \<Rightarrow> cloud \<Rightarrow> (error + DiskItemType list \<times> PaginationResult) \<times> cloud" where
  "ref_describe_disks args c =
     (case DescribeDisks_DiskIds args of
        [diskId] \<Rightarrow> (Inr (one_page (case map_of (cl_disks c) diskId of
            None \<Rightarrow> [] | Some st \<Rightarrow> [disk_item diskId st])), c)
      | _ \<Rightarrow> (Inr (page_of (DescribeDisks_Pagination args)
            (map (\<lambda>(d, st). disk_item d st)
              (filter (\<lambda>(d, st). ds_instance st = DescribeDisks_InstanceId args) (cl_disks c)))), c))"

definition ref_attach :: "AttachDiskArgs \<Rightarrow> cloud \<Rightarrow> error option \<times> cloud" where
  "ref_attach args c =
     (case map_of (cl_disks c) (AttachDisk_DiskId args) of
        None \<Rightarrow> (Some ''InvalidDiskId.NotFound'', c)
      | Some st \<Rightarrow>
          if ds_status st = DiskStatusAvailable
          then (None, c\<lparr>cl_disks := AList.update (AttachDisk_DiskId args)
                 \<lparr>ds_status = DiskStatusAttaching, ds_instance = AttachDisk_InstanceId args,
                  ds_device = ''/dev/xvdb''\<rparr> (cl_disks c)\<rparr>)
          else (Some ''IncorrectDiskStatus'', c))"

definition ref_detach :: "DetachDiskArgs \<Rightarrow> cloud \<Rightarrow> error option \<times> cloud" where
  "ref_detach args c =
     (case map_of (cl_disks c) (DetachDisk_DiskId args) of
        None \<Rightarrow> (Some ''InvalidDiskId.NotFound'', c)
      | Some st \<Rightarrow>
          if ds_instance st = DetachDisk_InstanceId args
          then (None, c\<lparr>cl_disks := AList.update (DetachDisk_DiskId args)
                 (st\<lparr>ds_status := DiskStatusDetaching\<rparr>) (cl_disks c)\<rparr>)
          else (Some ''InvalidInstanceId.NotAttached'', c))"

definition settle :: "disk_state \<Rightarrow> disk_state" where
  "settle st =
     (if ds_status st = DiskStatusAttaching then st\<lparr>ds_status := DiskStatusInUse\<rparr>
      else if ds_status st = DiskStatusDetaching
      then \<lparr>ds_status = DiskStatusAvailable, ds_instance = '''', ds_device = ''''\<rparr>
      else st)"

definition ref_sleep :: "int \<Rightarrow> cloud \<Rightarrow> cloud" where
  "ref_sleep t c = (if cl_settles c then c\<lparr>cl_disks := map (\<lambda>(d, st). (d, settle st)) (cl_disks c)\<rparr> else c)"

definition ref_create_route :: "RouteEntryArgs \<Rightarrow> cloud \<Rightarrow> error option \<times> cloud" where
  "ref_create_route args c =
     (if Args_DestinationCidrBlock args \<in> set (map DestinationCidrBlock (cl_entries c))
      then (Some ''InvalidCIDRBlock.Duplicate'', c)
      else (None, c\<lparr>cl_entries := cl_entries c @
        [\<lparr>DestinationCidrBlock = Args_DestinationCidrBlock args, NextHopType = NextHopInstance,
          RouteEntry_InstanceId = NextHopId args\<rparr>]\<rparr>))"

definition ref_delete_route :: "RouteEntryArgs \<Rightarrow> cloud \<Rightarrow> error option \<times> cloud" where
  "ref_delete_route args c =
     (None, c\<lparr>cl_entries := filter (\<lambda>e. \<not> (DestinationCidrBlock e = Args_DestinationCidrBlock args \<and>
        RouteEntry_InstanceId e = NextHopId args)) (cl_entries c)\<rparr>)"

text \<open>A load balancer as the service lists and describes it.\<close>

definition ref_lb :: "cloud \<Rightarrow> string \<Rightarrow> string \<Rightarrow> LoadBalancerType" where
  "ref_lb c lid name =
     \<lparr>LoadBalancerId = lid, LoadBalancerName = name, Address = ''47.88.0.1'',
      ListenerPortsAndProtocol =
        map (\<lambda>(port, st). \<lparr>ListenerPort = port, ListenerProtocol = ls_protocol st\<rparr>) (cl_listeners c lid),
      BackendServers = map (\<lambda>(i, wt). \<lparr>ServerId = i, Weight = wt\<rparr>) (cl_backends c lid)\<rparr>"

definition wf_listener :: "int \<times> listener_state \<Rightarrow> bool" where
  "wf_listener l \<longleftrightarrow> is_int32 (ls_backend (snd l)) \<and> ToLower (ls_protocol (snd l)) = ls_protocol (snd l)"

definition wf_lb :: "cloud \<Rightarrow> string \<Rightarrow> bool" where
  "wf_lb c lid \<longleftrightarrow>
     distinct (map fst (cl_listeners c lid)) \<and> distinct (map fst (cl_backends c lid)) \<and>
     list_all wf_listener (cl_listeners c lid)"

definition ref_describe_lbs :: "string \<Rightarrow> cloud \<Rightarrow> (error + LoadBalancerType list) \<times> cloud" where
  "ref_describe_lbs region c =
     (if distinct (map fst (cl_names c))
      then (Inr (map (\<lambda>(lid, name). ref_lb c lid name) (cl_names c)), c)
      else (Inl ''InternalError'', c))"

definition ref_describe_lb :: "string \<Rightarrow> cloud \<Rightarrow> (error + LoadBalancerType) \<times> cloud" where
  "ref_describe_lb lid c =
     (case map_of (cl_names c) lid of
        None \<Rightarrow> (Inl ''InvalidLoadBalancerId.NotFound'', c)
      | Some name \<Rightarrow> (if wf_lb c lid then Inr (ref_lb c lid name) else Inl ''InternalError'', c))"

definition ref_create_lb :: "CreateLoadBalancerArgs \<Rightarrow> cloud \<Rightarrow> error option \<times> cloud" where
  "ref_create_lb args c =
     (None, c\<lparr>cl_names := cl_names c @ [(''lb-'' @ Itoa (int (length (cl_names c))), CreateLoadBalancer_Name args)]\<rparr>)"

definition ref_delete_lb :: "string \<Rightarrow> cloud \<Rightarrow> error option \<times> cloud" where
  "ref_delete_lb lid c = (None, c\<lparr>cl_names := AList.delete lid (cl_names c)\<rparr>)"

definition set_listeners :: "cloud \<Rightarrow> string \<Rightarrow> (int \<times> listener_state) list \<Rightarrow> cloud" where
  "set_listeners c lb ls = c\<lparr>cl_listeners := (cl_listeners c)(lb := ls)\<rparr>"

definition ref_describe_listener ::
  "string \<Rightarrow> string \<Rightarrow> int \<Rightarrow> cloud \<Rightarrow> (error + ListenerAttributeResponse) \<times> cloud" where
  "ref_describe_listener proto lb port c =
     (case map_of (cl_listeners c lb) port of
        None \<Rightarrow> (Inl ''ListenerNotFound'', c)
      | Some st \<Rightarrow>
          (if ls_protocol st = proto
           then Inr \<lparr>BackendServerPort = ls_backend st, ListenerStatus = ls_status st\<rparr>
           else Inl ''ListenerNotFound'', c))"

definition ref_create_listener :: "string \<Rightarrow> CreateListenerArgs \<Rightarrow> cloud \<Rightarrow> error option \<times> cloud" where
  "ref_create_listener proto args c =
     (case map_of (cl_listeners c (Listener_LoadBalancerId args)) (Listener_Port args) of
        Some _ \<Rightarrow> (Some ''ListenerAlreadyExists'', c)
      | None \<Rightarrow> (None, set_listeners c (Listener_LoadBalancerId args)
          (AList.update (Listener_Port args)
             \<lparr>ls_protocol = proto, ls_backend = Listener_BackendServerPort args, ls_status = Stopped\<rparr>
             (cl_listeners c (Listener_LoadBalancerId args)))))"

definition ref_start_listener :: "string \<Rightarrow> int \<Rightarrow> cloud \<Rightarrow> error option \<times> cloud" where
  "ref_start_listener lb port c =
     (case map_of (cl_listeners c lb) port of
        None \<Rightarrow> (Some ''ListenerNotFound'', c)
      | Some st \<Rightarrow> (None, set_listeners c lb
          (AList.update port (st\<lparr>ls_status := ''running''\<rparr>) (cl_listeners c lb))))"

definition ref_delete_listener :: "string \<Rightarrow> int \<Rightarrow> cloud \<Rightarrow> error option \<times> cloud" where
  "ref_delete_listener lb port c = (None, set_listeners c lb (AList.delete port (cl_listeners c lb)))"

definition ref_add_backends :: "string \<Rightarrow> BackendServerType list \<Rightarrow> cloud \<Rightarrow> error option \<times> cloud" where
  "ref_add_backends lb servers c =
     (None, c\<lparr>cl_backends := (cl_backends c)
        (lb := map (\<lambda>s. (ServerId s, Weight s)) (rev servers) @ cl_backends c lb)\<rparr>)"

definition ref_remove_backends :: "string \<Rightarrow> string list \<Rightarrow> cloud \<Rightarrow> error option \<times> cloud" where
  "ref_remove_backends lb ids c =
     (None, c\<lparr>cl_backends := (cl_backends c)
        (lb := filter (\<lambda>(i, wt). i \<notin> set ids) (cl_backends c lb))\<rparr>)"

definition ref_create_disk :: "CreateDiskArgs \<Rightarrow> cloud \<Rightarrow> (error + string) \<times> cloud" where
  "ref_create_disk args c =
     (let d = ''d-'' @ CreateDisk_DiskName args
      in if map_of (cl_disks c) d \<noteq> None then (Inl ''InvalidDiskName.Duplicate'', c)
         else (Inr d, c\<lparr>cl_disks := (d, \<lparr>ds_status = DiskStatusAvailable, ds_instance = '''', ds_device = ''''\<rparr>) # cl_disks c\<rparr>))"

definition ref_env :: "cloud env" where
  "ref_env =
     \<lparr>invoke_DescribeInstances = (\<lambda>args c. (Inr (one_page (cl_instances c)), c)),
      invoke_DescribeDisks = ref_describe_disks,
      invoke_CreateDisk = ref_create_disk,
      invoke_DeleteDisk = (\<lambda>d c. (None, c\<lparr>cl_disks := AList.delete d (cl_disks c)\<rparr>)),
      invoke_AttachDisk = ref_attach,
      invoke_DetachDisk = ref_detach,
      invoke_DescribeRouteTables = (\<lambda>args c. (Inr (one_page [\<lparr>RouteEntry = cl_entries c\<rparr>]), c)),
      invoke_CreateRouteEntry = ref_create_route,
      invoke_DeleteRouteEntry = ref_delete_route,
      invoke_DescribeVSwitches = (\<lambda>args c. (Inr (one_page [\<lparr>ZoneId = ''cn-beijing-a''\<rparr>]), c)),
      invoke_DescribeLoadBalancers = ref_describe_lbs,
      invoke_DescribeLoadBalancerAttribute = ref_describe_lb,
      invoke_CreateLoadBalancer = ref_create_lb,
      invoke_DeleteLoadBalancer = ref_delete_lb,
      invoke_DescribeTCPListenerAttribute = ref_describe_listener ''tcp'',
      invoke_DescribeUDPListenerAttribute = ref_describe_listener ''udp'',
      invoke_CreateTCPListener = ref_create_listener ''tcp'',
      invoke_CreateUDPListener = ref_create_listener ''udp'',
      invoke_StartListener = ref_start_listener,
      invoke_DeleteListener = ref_delete_listener,
      invoke_AddBackendServers = ref_add_backends,
      invoke_RemoveBackendServers = ref_remove_backends,
      env_Sleep = ref_sleep,
      env_CreateRandomString = (\<lambda>c. (''token'', c)),
      env_range_order = (\<lambda>c ks. rev ks),
      env_Metadata = (\<lambda>key c. (Inl ''no metadata service'', c)),
      env_PathMissing = (\<lambda>path c. (True, c)),
      env_MkdirAll = (\<lambda>path c. (None, c)),
      env_FormatAndMount = (\<lambda>device dir fstype flags c. (None, c)),
      env_Unmount = (\<lambda>dir c. (None, c))\<rparr>"

section \<open>The contracts hold\<close>

lemma ref_range_ok: "range_ok ref_env"
  by (simp add: range_ok_def ref_env_def)

lemma view_listeners_set:
  "view_listeners (set_listeners c lb ls) = (view_listeners c)(lb := map_of ls)"
  by (simp add: fun_eq_iff view_listeners_def set_listeners_def)

lemma ref_listener_contract: "listener_contract ref_env view_listeners"
proof -
  have "describes_listeners (ref_describe_listener proto) proto view_listeners" for proto
    by (auto simp: describes_listeners_def ref_describe_listener_def view_listeners_def split: option.splits if_splits)
  moreover have "creates_listeners (ref_create_listener proto) proto view_listeners" for proto
    by (auto simp: creates_listeners_def ref_create_listener_def view_listeners_set view_listeners_def
        update_conv' split: option.splits)
  moreover have "starts_listeners ref_env view_listeners"
    by (auto simp: starts_listeners_def ref_env_def ref_start_listener_def view_listeners_set view_listeners_def
        update_conv' Stopped_def split: option.splits intro!: exI [of _ "''running''"])
  moreover have "deletes_listeners ref_env view_listeners"
    by (auto simp: deletes_listeners_def ref_env_def ref_delete_listener_def view_listeners_set view_listeners_def
        delete_conv' split: option.splits)
  ultimately show ?thesis by (simp add: listener_contract_def ref_env_def)
qed

lemma ref_listener_reliable: "listener_reliable ref_env view_listeners"
  by (auto simp: listener_reliable_def ref_env_def ref_describe_listener_def ref_create_listener_def
      ref_start_listener_def ref_delete_listener_def view_listeners_def)

lemma ref_backend_contract: "backend_contract ref_env view_backends"
proof -
  have "map_of (filter (\<lambda>(i, wt). i \<notin> set ids) bs) = map_of bs |` (- set ids)" for ids and bs :: "(string \<times> int) list"
    by (induction bs) (auto simp: fun_eq_iff restrict_map_def)
  then show ?thesis
    by (auto simp: backend_contract_def ref_env_def ref_add_backends_def ref_remove_backends_def
        view_backends_def fun_eq_iff map_add_def split: option.splits)
qed

lemma ref_snapshots:
  assumes "wf_lb c lid"
  shows "listener_snapshot (view_listeners c lid) (ref_lb c lid name)"
    and "int32_backends (view_listeners c lid)" and "backend_snapshot (view_backends c lid) (ref_lb c lid name)"
proof -
  from assms have d: "distinct (map fst (cl_listeners c lid))" "distinct (map fst (cl_backends c lid))"
    and l: "\<forall>x \<in> set (cl_listeners c lid). wf_listener x"
    by (auto simp: wf_lb_def list_all_iff)
  show "listener_snapshot (view_listeners c lid) (ref_lb c lid name)"
    using d(1) l
    by (auto simp: listener_snapshot_def ref_lb_def view_listeners_def dom_map_of_conv_image_fst comp_def
        split_beta image_image wf_listener_def dest: eq_key_imp_eq_value)
  show "int32_backends (view_listeners c lid)"
    using l by (auto simp: int32_backends_def view_listeners_def wf_listener_def dest!: map_of_SomeD)
  show "backend_snapshot (view_backends c lid) (ref_lb c lid name)"
    using d(2) by (auto simp: backend_snapshot_def ref_lb_def view_backends_def dom_map_of_conv_image_fst comp_def
        split_beta image_image)
qed

lemma ref_describes_lbs: "describes_lbs ref_env view_names view_listeners view_backends"
  using ref_snapshots
  by (auto simp: describes_lbs_def ref_env_def ref_describe_lbs_def ref_describe_lb_def view_names_def
      ref_lb_def split: option.splits if_splits)

lemma ref_frames:
  "listener_frame ref_env view_names" "listener_frame ref_env view_backends"
  "backend_frame ref_env view_names" "backend_frame ref_env view_listeners"
  by (auto simp: listener_frame_def backend_frame_def ref_env_def ref_describe_listener_def ref_create_listener_def
      ref_start_listener_def ref_delete_listener_def ref_add_backends_def ref_remove_backends_def set_listeners_def
      view_names_def view_backends_def view_listeners_def fun_eq_iff split: option.splits)

lemma ref_slb_contract: "slb_contract ref_env view_names view_listeners view_backends"
  by (simp add: slb_contract_def ref_listener_contract ref_backend_contract ref_describes_lbs ref_frames)

lemma ref_deletes_lbs: "deletes_lbs ref_env view_names"
  by (auto simp: deletes_lbs_def ref_env_def ref_describe_lbs_def ref_delete_lb_def view_names_def ref_lb_def
      dom_map_of_conv_image_fst delete_conv' image_image split_beta split: if_splits)

lemma ref_instance_frame: "instance_frame ref_env f"
  by (simp add: instance_frame_def ref_env_def)

lemma ref_route_contract: "route_contract ref_env cl_entries cl_instances"
  by (auto simp: route_contract_def describes_inventory_def describes_routes_def changes_routes_def ref_env_def
      one_page_def ref_create_route_def ref_delete_route_def split: if_splits)

lemma map_of_map_value: "map_of (map (\<lambda>(k, v). (k, f v)) kvs) x = map_option f (map_of kvs x)"
  by (induction kvs) auto

lemma ref_disk_contract: "disk_contract ref_env view_disks"
proof -
  have "describes_disks ref_env view_disks"
    by (auto simp: describes_disks_def ref_env_def ref_describe_disks_def one_page_def view_disks_def
        split: list.splits)
  moreover have "attaches_disks ref_env view_disks"
    by (auto simp: attaches_disks_def ref_env_def ref_attach_def view_disks_def update_conv' attached_status_def
        split: option.splits if_splits intro!: exI)
  moreover have "detaches_disks ref_env view_disks"
    by (auto simp: detaches_disks_def ref_env_def ref_detach_def view_disks_def update_conv' released_status_def
        split: option.splits if_splits intro!: exI)
  moreover have "disks_settle ref_env view_disks"
    by (auto simp: disks_settle_def ref_env_def ref_sleep_def view_disks_def map_of_map_value settle_def
        attached_status_def DiskStatusAttaching_def DiskStatusInUse_def DiskStatusDetaching_def)
  ultimately show ?thesis by (simp add: disk_contract_def ref_env_def)
qed

section \<open>The API server\<close>

definition view_disk_set :: "cloud \<Rightarrow> string set" where
  "view_disk_set c = dom (map_of (cl_disks c))"

definition view_volumes :: "cloud volume_view" where
  "view_volumes c = map_of (cl_volumes c)"

definition ref_create_volume :: "SavedVolume \<Rightarrow> cloud \<Rightarrow> error option \<times> cloud" where
  "ref_create_volume v c =
     (if map_of (cl_volumes c) (pv_Name v) \<noteq> None then (Some ''already exists'', c)
      else (None, c\<lparr>cl_volumes := (pv_Name v, v) # cl_volumes c\<rparr>))"

definition sample_class :: StorageClass where
  "sample_class = \<lparr>class_Name = ''ssd'', class_Provisioner = ProvisionerName_value,
     class_Parameters = Some [''diskCategory'' \<mapsto> ''cloud_ssd'']\<rparr>"

definition ref_server :: "cloud ProvisionController" where
  "ref_server =
     \<lparr>pc_provisionerName = '''', pc_provisioner = \<lparr>pm_Provision = (\<lambda>_. ret (Inl '''')), pm_Delete = (\<lambda>_. ret None)\<rparr>,
      pc_is1dot4 = False, pc_failedRetryThreshold = 0,
      pc_GetPV = (\<lambda>n c. (case map_of (cl_volumes c) n of None \<Rightarrow> Inl ''not found'' | Some v \<Rightarrow> Inr v, c)),
      pc_CreatePV = ref_create_volume,
      pc_DeletePV = (\<lambda>n c. (None, c\<lparr>cl_volumes := AList.delete n (cl_volumes c)\<rparr>)),
      pc_GetClass = (\<lambda>n c. (Inr (if n = class_Name sample_class then Some sample_class else None), c)),
      pc_GetReference = (\<lambda>claim. Inr \<lparr>Ref_Kind = ''PersistentVolumeClaim'', Ref_Namespace = claim_Namespace claim,
        Ref_Name = claim_Name claim, Ref_UID = claim_UID claim\<rparr>),
      pc_Sleep = (\<lambda>t c. c)\<rparr>"

lemma ref_makes_disks: "makes_disks ref_env view_disk_set view_volumes"
  by (auto simp: makes_disks_def ref_env_def ref_create_disk_def Let_def view_disk_set_def view_volumes_def
      delete_conv' split: if_splits)

lemma ref_keeps_volumes: "keeps_volumes ref_server view_disk_set view_volumes"
  by (auto simp: keeps_volumes_def ref_server_def ref_create_volume_def view_disk_set_def view_volumes_def
      delete_conv' split: if_splits option.splits)

text \<open>The objects of the service controller do not change.\<close>

definition ref_services :: "(kube_error + KubeService) \<Rightarrow> KubeNode list \<Rightarrow> cloud service_kube" where
  "ref_services service nodes =
     \<lparr>sk_GetService = (\<lambda>_ _ c. (service, c)), sk_ListNodes = (\<lambda>c. (Inr nodes, c)), sk_UpdateStatus = (\<lambda>_ c. (None, c)),
      sk_Sleep = (\<lambda>_ c. c), sk_range = (\<lambda>_ ks. ks)\<rparr>"

lemma ref_service_frame: "service_frame (ref_services service nodes) nms lsn bks"
  by (simp add: service_frame_def ref_services_def)

section \<open>Sample data\<close>

definition sample_provider :: AliyunProvider where
  "sample_provider =
     \<lparr>p_accessKey = ''key'', p_accessKeySecret = ''secret'', p_region = ''cn-beijing'', p_zone = ''cn-beijing-a'',
      p_vpcID = ''vpc-1'', p_vrouterID = ''vr-1'', p_vswitch = ''vs-1'', p_routeTable = ''rt-1'', p_loadbalancer = '''',
      p_instance = ''i-1'', p_hostname = ''host1'', p_nodeNameType = NodeNameTypePrivateIP\<rparr>"

definition instance1 :: InstanceAttributesType where
  "instance1 = \<lparr>InstanceId = ''i-1'', HostName = ''host1'', PrivateIpAddress = [''10.0.0.1'']\<rparr>"

definition instance2 :: InstanceAttributesType where
  "instance2 = \<lparr>InstanceId = ''i-2'', HostName = ''host2'', PrivateIpAddress = [''10.0.0.2'']\<rparr>"

text \<open>
  Two instances, one route, a free disk and one in use, and a load balancer whose name is
  that of the sample service, with one listener to keep, one to replace and a stale backend.
\<close>

definition sample_cloud :: cloud where
  "sample_cloud =
     \<lparr>cl_instances = [instance1, instance2],
      cl_entries = [\<lparr>DestinationCidrBlock = ''172.16.1.0/24'', NextHopType = NextHopInstance, RouteEntry_InstanceId = ''i-1''\<rparr>],
      cl_disks = [(''d-1'', \<lparr>ds_status = DiskStatusAvailable, ds_instance = '''', ds_device = ''''\<rparr>),
                  (''d-2'', \<lparr>ds_status = DiskStatusInUse, ds_instance = ''i-1'', ds_device = ''/dev/xvdc''\<rparr>)],
      cl_names = [(''lb-0'', ''a6f1d22'')],
      cl_listeners = (\<lambda>lb. if lb = ''lb-0''
        then [(80, \<lparr>ls_protocol = ''tcp'', ls_backend = 30080, ls_status = Stopped\<rparr>),
              (53, \<lparr>ls_protocol = ''udp'', ls_backend = 30099, ls_status = ''running''\<rparr>)] else []),
      cl_backends = (\<lambda>lb. if lb = ''lb-0'' then [(''i-9'', 100)] else []),
      cl_volumes = [], cl_settles = True\<rparr>"

definition sample_node :: Node where
  "sample_node = \<lparr>Node_Name = ''10.0.0.1'', Node_Addresses = []\<rparr>"

definition sample_service :: Service where
  "sample_service =
     \<lparr>UID = ''6f1d-22'', Annotations = None, SessionAffinity = ''None'',
      Ports = [\<lparr>Port_Name = ''http'', Protocol = ''TCP'', Port = 80, NodePort = 30080\<rparr>,
               \<lparr>Port_Name = ''dns'', Protocol = ''UDP'', Port = 53, NodePort = 30053\<rparr>],
      LoadBalancerIP = ''''\<rparr>"

lemma sample_ports_wf: "wf_ports (Ports sample_service)"
  by (simp add: wf_ports_def wanted_ports_def sample_service_def is_int32_def)

lemma sample_lb_wf: "wf_lb sample_cloud ''lb-0''"
  by code_simp

lemma sample_inventory_wf: "wf_inventory sample_provider (cl_instances sample_cloud)"
  by (auto simp: wf_inventory_def sample_provider_def sample_cloud_def instance1_def instance2_def
      node_name_of_def name_by_ip_def by_node_name_def byPrivateIP_def)

lemma sample_provider_wf: "wf_provider sample_provider"
  by (simp add: wf_provider_def sample_provider_def)

lemma sample_route_invar: "route_invar ref_env sample_provider cl_entries cl_instances sample_cloud"
  by (simp add: route_invar_def ref_route_contract sample_provider_wf sample_inventory_wf)

end
