(* ===== verification/Flexv.thy ===== *)
theory Flexv
  imports Volume_Laws
begin

text \<open>
  The flexvolume plugin \<^verbatim>\<open>cmd/aliyun-flexv/main.go\<close>: one volume operation per run of the
  program, its result printed as JSON, its success told by the exit code.

  The plugin runs on the world of the provider together with what it has printed so far.
  The provider is used through the interface \<^verbatim>\<open>cloudprovider.Volume\<close>, a record of its
  methods; the locale \<open>volume_driver\<close> says what the plugin relies on.
\<close>

section \<open>The interface\<close>

record 'w Volume_methods =
  vm_Init :: "('w, VolumeError) go"
  vm_Attach :: "VolumeOptions \<Rightarrow> string \<Rightarrow> ('w, VolumeError) go"
  vm_Detach :: "string \<Rightarrow> string \<Rightarrow> ('w, VolumeError) go"
  vm_MountDevice :: "string \<Rightarrow> string \<Rightarrow> VolumeOptions \<Rightarrow> ('w, VolumeError) go"
  vm_UnmountDevice :: "string \<Rightarrow> ('w, VolumeError) go"
  vm_WaitForAttach :: "string \<Rightarrow> VolumeOptions \<Rightarrow> ('w, VolumeError) go"
  vm_GetVolumeName :: "VolumeOptions \<Rightarrow> ('w, VolumeError) go"
  vm_IsAttached :: "VolumeOptions \<Rightarrow> string \<Rightarrow> ('w, VolumeError) go"

definition aliyun_volume :: "'w env \<Rightarrow> AliyunProvider \<Rightarrow> 'w Volume_methods" where
  "aliyun_volume E p =
     \<lparr>vm_Init = Init p, vm_Attach = Attach E p, vm_Detach = Detach E p,
      vm_MountDevice = MountDevice E p, vm_UnmountDevice = UnmountDevice E p,
      vm_WaitForAttach = WaitForAttach E p, vm_GetVolumeName = GetVolumeName E p,
      vm_IsAttached = IsAttached E p\<rparr>"

section \<open>JSON output\<close>

text \<open>
  \<^verbatim>\<open>json.Marshal\<close> of a string: quotes, backslashes and control characters are escaped,
  and the three characters that are special in HTML.
\<close>

definition hex_digit :: "nat \<Rightarrow> char" where
  "hex_digit n = (if n < 10 then char_of (48 + n) else char_of (87 + n))"

definition json_char :: "char \<Rightarrow> string" where
  "json_char c =
     (if c = CHR 0x22 then [CHR 0x5C, CHR 0x22]
      else if c = CHR 0x5C then [CHR 0x5C, CHR 0x5C]
      else if c = CHR 0x0A then [CHR 0x5C, CHR ''n'']
      else if c = CHR 0x0D then [CHR 0x5C, CHR ''r'']
      else if c = CHR 0x09 then [CHR 0x5C, CHR ''t'']
      else if of_char c < (32 :: nat) \<or> c = CHR ''<'' \<or> c = CHR ''>'' \<or> c = CHR ''&''
      then [CHR 0x5C, CHR ''u'', CHR ''0'', CHR ''0'', hex_digit (of_char c div 16), hex_digit (of_char c mod 16)]
      else [c])"

definition json_string :: "string \<Rightarrow> string" where
  "json_string s = CHR 0x22 # concat (map json_char s) @ [CHR 0x22]"

fun json_members :: "(string \<times> string) list \<Rightarrow> string" where
  "json_members [] = ''''"
| "json_members [(k, v)] = json_string k @ '':'' @ v"
| "json_members ((k, v) # kvs) = json_string k @ '':'' @ v @ '','' @ json_members kvs"

text \<open>\<^verbatim>\<open>VolumeError.ToJson\<close>, with the tags of \<^verbatim>\<open>flexvolume.DriverStatus\<close>.\<close>

definition ToJson :: "VolumeError \<Rightarrow> string" where
  "ToJson v =
     ''{'' @ json_members
       ([(''status'', json_string (ve_Status v))] @
        (if ve_Message v \<noteq> '''' then [(''message'', json_string (ve_Message v))] else []) @
        (if ve_DevicePath v \<noteq> '''' then [(''device'', json_string (ve_DevicePath v))] else []) @
        (if ve_VolumeName v \<noteq> '''' then [(''volumeName'', json_string (ve_VolumeName v))] else []) @
        (if ve_Attached v then [(''attached'', ''true'')] else [])) @ ''}''"

section \<open>The program\<close>

type_synonym ('w, 'a) cmd = "('w \<times> string, 'a) go"

text \<open>\<^verbatim>\<open>fmt.Printf\<close> with one argument: the text is the format.\<close>

definition Printf :: "string \<Rightarrow> ('w, unit) cmd" where
  "Printf s = effect (\<lambda>(w, out). (w, out @ sprintf s []))"

definition fatalf :: "string \<Rightarrow> string list \<Rightarrow> ('w, 'a) cmd" where
  "fatalf msg args =
     bnd (Printf (ToJson (volume_status ''Failure'' (sprintf msg args)))) (\<lambda>_. os_Exit 1)"

text \<open>The values of Go's \<^verbatim>\<open>error\<close> that reach \<^verbatim>\<open>printResult\<close>.\<close>

datatype volume_result = NilError | IsVolumeError VolumeError | OtherError string

definition printResult :: "volume_result \<Rightarrow> ('w, 'a) cmd" where
  "printResult err =
     (case err of
        OtherError msg \<Rightarrow> fatalf ''Unknown error: %v'' [msg]
      | _ \<Rightarrow>
          let ve = (case err of IsVolumeError v \<Rightarrow> v | _ \<Rightarrow> VolumeSuccess)
          in bnd (Printf (ToJson ve)) (\<lambda>_. if ve_Status ve = ''Success'' then os_Exit 0 else os_Exit 1))"

text \<open>\<open>Unmarshal\<close> is \<^verbatim>\<open>json.Unmarshal\<close> into the map of options; \<open>None\<close> is an error.\<close>

definition ensureVolumeOptions :: "(string \<Rightarrow> VolumeOptions option) \<Rightarrow> string \<Rightarrow> ('w, VolumeOptions) cmd" where
  "ensureVolumeOptions Unmarshal v =
     (case Unmarshal v of
        None \<Rightarrow> fatalf ''Invalid json options: %s'' [v]
      | Some vo \<Rightarrow> ret vo)"

text \<open>The \<^verbatim>\<open>switch op\<close> of \<^verbatim>\<open>main\<close>. The case \<^verbatim>\<open>isattached\<close> calls \<^verbatim>\<open>Attach\<close>, as in the source.\<close>

definition run_op ::
  "(string \<Rightarrow> VolumeOptions option) \<Rightarrow> 'w Volume_methods \<Rightarrow> string \<Rightarrow> string list \<Rightarrow> ('w, VolumeError) cmd" where
  "run_op Unmarshal p op args =
     (if op = ''init'' then lift_world (vm_Init p)
      else if op = ''attach'' then
        (if length args < 2 then fatalf ''attach requires options in json format and a node name'' []
         else bnd (ensureVolumeOptions Unmarshal (args ! 0)) (\<lambda>vo. lift_world (vm_Attach p vo (args ! 1))))
      else if op = ''isattached'' then
        (if length args < 2 then fatalf ''isattached requires options in json format and a node name'' []
         else bnd (ensureVolumeOptions Unmarshal (args ! 0)) (\<lambda>vo. lift_world (vm_Attach p vo (args ! 1))))
      else if op = ''detach'' then
        (if length args < 2 then fatalf ''detach requires a device path and a node name'' []
         else lift_world (vm_Detach p (args ! 0) (args ! 1)))
      else if op = ''mountdevice'' then
        (if length args < 3 then fatalf ''mountdevice requires a mount path, a device path and mount options'' []
         else bnd (ensureVolumeOptions Unmarshal (args ! 2)) (\<lambda>vo. lift_world (vm_MountDevice p (args ! 0) (args ! 1) vo)))
      else if op = ''unmountdevice'' then
        (if length args < 1 then fatalf ''unmountdevice requires a mount path'' []
         else lift_world (vm_UnmountDevice p (args ! 0)))
      else if op = ''waitforattach'' then
        (if length args < 2 then fatalf ''waitforattach requires a device path and options in json format'' []
         else bnd (ensureVolumeOptions Unmarshal (args ! 1)) (\<lambda>vo. lift_world (vm_WaitForAttach p (args ! 0) vo)))
      else if op = ''getvolumename'' then
        (if length args < 1 then fatalf ''getvolumename requires options in json format'' []
         else bnd (ensureVolumeOptions Unmarshal (args ! 0)) (\<lambda>vo. lift_world (vm_GetVolumeName p vo)))
      else ret (NewVolumeNotSupported op))"

definition dispatch ::
  "(string \<Rightarrow> VolumeOptions option) \<Rightarrow> 'w Volume_methods \<Rightarrow> string \<Rightarrow> string list \<Rightarrow> ('w, unit) cmd" where
  "dispatch Unmarshal p arg0 args =
     (case args of
        [] \<Rightarrow> fatalf ''Usage: %s init|attach|detach|mountdevice|unmountdevice|waitforattach|getvolumename|isattached'' [arg0]
      | op # rest \<Rightarrow> bnd (run_op Unmarshal p op rest) (\<lambda>v. printResult (IsVolumeError v)))"

text \<open>
  \<^verbatim>\<open>main\<close>: \<open>test\<close> is the flag, \<open>args\<close> are the arguments that are not flags. The call that
  makes the log directory is kept, the settings of the logger are not.
\<close>

definition flexv_main ::
  "'w env \<Rightarrow> (string \<Rightarrow> VolumeOptions option) \<Rightarrow> (string \<Rightarrow> string) \<Rightarrow> string \<Rightarrow> bool \<Rightarrow> string \<Rightarrow> string list \<Rightarrow>
   ('w, unit) cmd" where
  "flexv_main E Unmarshal getenv hostname test arg0 args =
     bnd (lift_world (call (env_MkdirAll E ''/opt/logs/flexv''))) (\<lambda>_.
     if test then ret ()
     else bnd (lift_world (GetProvider (registered E getenv hostname) ''aliyun'')) (\<lambda>r. case r of
            Inl _ \<Rightarrow> fatalf ''Error getting provider'' []
          | Inr pp \<Rightarrow> (case Volume pp of
              None \<Rightarrow> fatalf ''Provider doesn't support volume'' []
            | Some p \<Rightarrow> dispatch Unmarshal (aliyun_volume E p) arg0 args)))"

text \<open>A command returns a result, or it ends the run with a failure printed.\<close>

definition ends_well :: "('w, VolumeError) cmd \<Rightarrow> bool" where
  "ends_well m \<longleftrightarrow> (\<forall>w out.
     (\<exists>v w'. m (w, out) = (Ret v, (w', out)) \<and> known_status v) \<or>
     (\<exists>v. m (w, out) = (Exit 1, (w, out @ sprintf (ToJson v) [])) \<and> ve_Status v = ''Failure''))"

lemma ends_well_lift: "returns known_status m \<Longrightarrow> ends_well (lift_world m)"
  unfolding ends_well_def
proof (intro allI disjI1)
  fix w out
  assume "returns known_status m"
  from returnsD [OF this, of w] obtain v w' where "m w = (Ret v, w')" "known_status v" by blast
  then show "\<exists>v w'. lift_world m (w, out) = (Ret v, (w', out)) \<and> known_status v"
    by (simp add: lift_world_def)
qed

lemma fatalf_run: "fatalf msg args (w, out) =
    (Exit 1, (w, out @ sprintf (ToJson (volume_status ''Failure'' (sprintf msg args))) []))"
  by (simp add: fatalf_def Printf_def bnd_def effect_def os_Exit_def)

lemma ends_well_fatalf: "ends_well (fatalf msg args)"
  unfolding ends_well_def fatalf_run
  by (intro allI disjI2 exI [of _ "volume_status ''Failure'' (sprintf msg args)"])
     (simp add: volume_status_def)

lemma bnd_fatalf: "bnd (fatalf msg args) f = fatalf msg args"
  by (simp add: fatalf_def bnd_assoc)

lemma ends_well_if: "ends_well m \<Longrightarrow> ends_well n \<Longrightarrow> ends_well (if b then m else n)"
  by simp

lemma ends_well_options:
  assumes "\<And>vo. ends_well (f vo)"
  shows "ends_well (bnd (ensureVolumeOptions Unmarshal s) f)"
proof (cases "Unmarshal s")
  case None
  then show ?thesis unfolding ensureVolumeOptions_def None option.case bnd_fatalf by (intro ends_well_fatalf)
next
  case (Some vo)
  then show ?thesis using assms by (simp add: ensureVolumeOptions_def)
qed

section \<open>What the plugin relies on\<close>

text \<open>
  A volume driver answers every call with a result that has one of the three statuses of
  the flexvolume protocol. This is all the plugin needs to end every run with one printed
  result and a matching exit code.
\<close>

locale volume_driver =
  fixes methods :: "'w Volume_methods"
  assumes answers:
    "returns known_status (vm_Init methods)"
    "returns known_status (vm_Attach methods options node)"
    "returns known_status (vm_Detach methods device node)"
    "returns known_status (vm_MountDevice methods dir device options)"
    "returns known_status (vm_UnmountDevice methods dir)"
    "returns known_status (vm_WaitForAttach methods device options)"
    "returns known_status (vm_GetVolumeName methods options)"
    "returns known_status (vm_IsAttached methods options node)"
begin

lemma run_op_ends: "ends_well (run_op Unmarshal methods op args)"
proof -
  have "ends_well (ret (NewVolumeNotSupported op))" by (simp add: ends_well_def)
  then show ?thesis
    unfolding run_op_def
    by (intro ends_well_if ends_well_fatalf ends_well_options ends_well_lift answers)
qed

text \<open>Every run prints one result and exits, with code 0 exactly for a success.\<close>

lemma dispatch_result:
  "\<exists>v w'. dispatch Unmarshal methods arg args (w, out) =
     (Exit (if ve_Status v = ''Success'' then 0 else 1), (w', out @ sprintf (ToJson v) [])) \<and>
     (known_status v \<or> ve_Status v = ''Failure'')"
proof (cases args)
  case Nil
  have "\<exists>v w'. fatalf msg xs (w, out) =
     (Exit (if ve_Status v = ''Success'' then 0 else 1), (w', out @ sprintf (ToJson v) [])) \<and>
     (known_status v \<or> ve_Status v = ''Failure'')" for msg xs
    unfolding fatalf_run
    by (rule exI [of _ "volume_status ''Failure'' (sprintf msg xs)"]) (simp add: volume_status_def)
  then show ?thesis unfolding Nil dispatch_def list.case .
next
  case (Cons op rest)
  from run_op_ends [of Unmarshal op rest] consider
    (res) v w' where "run_op Unmarshal methods op rest (w, out) = (Ret v, (w', out))" "known_status v"
    | (stop) v where "run_op Unmarshal methods op rest (w, out) = (Exit 1, (w, out @ sprintf (ToJson v) []))"
        "ve_Status v = ''Failure''"
    unfolding ends_well_def by blast
  then show ?thesis
  proof cases
    case res
    with Cons show ?thesis
      by (auto simp: dispatch_def printResult_def Printf_def bnd_def effect_def os_Exit_def intro!: exI [of _ v])
  next
    case stop
    with Cons show ?thesis by (auto simp: dispatch_def bnd_def intro!: exI [of _ v])
  qed
qed

end

interpretation aliyun: volume_driver "aliyun_volume E p" for E p
  by unfold_locales (simp_all add: aliyun_volume_def volume_statuses)

end
