(* ===== verification/Flexv_Protocol.thy ===== *)
theory Flexv_Protocol
  imports Flexv
begin

text \<open>
  The other end of the flexvolume protocol: how the kubelet calls the plugin and reads what
  it prints (\<^verbatim>\<open>DriverCall.Run\<close> and \<^verbatim>\<open>handleCmdResponse\<close> of \<^verbatim>\<open>pkg/volume/flexvolume/driver-call.go\<close>
  in the vendored Kubernetes). The theory composes it with the plugin and shows that the
  kubelet gets the result of the driver's operation.
\<close>

section \<open>Reading the output\<close>

text \<open>
  \<^verbatim>\<open>json.Unmarshal\<close> into a \<^verbatim>\<open>DriverStatus\<close>, for the objects that \<^verbatim>\<open>json.Marshal\<close> writes: no
  white space, and strings and booleans as the values of members. An escape \<^verbatim>\<open>\u00XX\<close>
  stands for one byte.
\<close>

definition hex_val :: "char \<Rightarrow> nat option" where
  "hex_val c =
     (let n = of_char c in
      if 48 \<le> n \<and> n \<le> 57 then Some (n - 48)
      else if 97 \<le> n \<and> n \<le> 102 then Some (n - 87)
      else None)"

fun unescape :: "char \<Rightarrow> char option" where
  "unescape c =
     (if c = CHR 0x22 \<or> c = CHR 0x5C then Some c
      else if c = CHR ''n'' then Some (CHR 0x0A)
      else if c = CHR ''r'' then Some (CHR 0x0D)
      else if c = CHR ''t'' then Some (CHR 0x09)
      else None)"

definition read_unicode :: "string \<Rightarrow> (char \<times> string) option" where
  "read_unicode s =
     (case s of
        a # b # h # l # rest \<Rightarrow>
          if a = CHR ''0'' \<and> b = CHR ''0''
          then (case (hex_val h, hex_val l) of
                  (Some m, Some n) \<Rightarrow> Some (char_of (16 * m + n), rest)
                | _ \<Rightarrow> None)
          else None
      | _ \<Rightarrow> None)"

text \<open>One character of a string literal; \<open>None\<close> at a malformed escape.\<close>

definition read_char :: "char \<Rightarrow> string \<Rightarrow> (char \<times> string) option" where
  "read_char c s =
     (if c \<noteq> CHR 0x5C then Some (c, s)
      else case s of
        [] \<Rightarrow> None
      | e # rest \<Rightarrow>
          if e = CHR ''u'' then read_unicode rest
          else map_option (\<lambda>x. (x, rest)) (unescape e))"

lemma read_unicode_length: "read_unicode s = Some (x, rest) \<Longrightarrow> length rest < length s"
  by (auto simp: read_unicode_def split: list.splits if_splits option.splits)

lemma read_char_length: "read_char c s = Some (x, rest) \<Longrightarrow> length rest \<le> length s"
  by (auto simp: read_char_def simp del: unescape.simps split: list.splits if_splits dest: read_unicode_length)

text \<open>The characters up to the closing quote, and what follows it.\<close>

function read_chars :: "string \<Rightarrow> (string \<times> string) option" where
  "read_chars [] = None"
| "read_chars (c # s) =
     (if c = CHR 0x22 then Some ([], s)
      else case read_char c s of
        None \<Rightarrow> None
      | Some (x, rest) \<Rightarrow> map_option (\<lambda>(xs, r). (x # xs, r)) (read_chars rest))"
  by pat_completeness auto
termination
  by (relation "measure length") (auto simp: less_Suc_eq_le dest: read_char_length)

lemma read_chars_length: "read_chars s = Some (xs, rest) \<Longrightarrow> length rest < length s"
proof (induction s arbitrary: xs rest rule: read_chars.induct)
  case (2 c s)
  then show ?case
    by (fastforce split: if_splits option.splits dest: read_char_length)
qed simp

datatype json_scalar = JS string | JB bool

definition read_scalar :: "string \<Rightarrow> (json_scalar \<times> string) option" where
  "read_scalar s =
     (case s of
        [] \<Rightarrow> None
      | c # rest \<Rightarrow>
          if c = CHR 0x22 then map_option (\<lambda>(x, r). (JS x, r)) (read_chars rest)
          else case strip_prefix ''true'' s of
            Some r \<Rightarrow> Some (JB True, r)
          | None \<Rightarrow> map_option (\<lambda>r. (JB False, r)) (strip_prefix ''false'' s))"

text \<open>A member and what follows it.\<close>

definition read_member :: "string \<Rightarrow> ((string \<times> json_scalar) \<times> string) option" where
  "read_member s =
     (case s of
        c # r1 \<Rightarrow> if c \<noteq> CHR 0x22 then None else
          (case read_chars r1 of
             Some (k, d # r2) \<Rightarrow> if d \<noteq> CHR '':'' then None else map_option (\<lambda>(v, r). ((k, v), r)) (read_scalar r2)
           | _ \<Rightarrow> None)
      | [] \<Rightarrow> None)"

lemma read_scalar_length: "read_scalar s = Some (v, rest) \<Longrightarrow> length rest < length s"
  by (fastforce simp: read_scalar_def strip_prefix_Some split: list.splits if_splits option.splits dest: read_chars_length)

lemma read_member_length: "read_member s = Some (kv, rest) \<Longrightarrow> length rest < length s"
  by (fastforce simp: read_member_def split: list.splits if_splits option.splits dest: read_scalar_length read_chars_length)

function read_members :: "string \<Rightarrow> (string \<times> json_scalar) list option" where
  "read_members s =
     (case read_member s of
        None \<Rightarrow> None
      | Some (kv, r) \<Rightarrow>
          if r = ''}'' then Some [kv]
          else case r of
            [] \<Rightarrow> None
          | c # rest \<Rightarrow> if c = CHR '','' then map_option (Cons kv) (read_members rest) else None)"
  by pat_completeness auto
termination
  by (relation "measure length") (auto dest: read_member_length)
declare read_members.simps [simp del]

fun set_status :: "(string \<times> json_scalar) list \<Rightarrow> VolumeError \<Rightarrow> VolumeError" where
  "set_status [] v = v"
| "set_status ((k, JS s) # kvs) v =
     set_status kvs
       (if k = ''status'' then v\<lparr>ve_Status := s\<rparr>
        else if k = ''message'' then v\<lparr>ve_Message := s\<rparr>
        else if k = ''device'' then v\<lparr>ve_DevicePath := s\<rparr>
        else if k = ''volumeName'' then v\<lparr>ve_VolumeName := s\<rparr>
        else v)"
| "set_status ((k, JB b) # kvs) v = set_status kvs (if k = ''attached'' then v\<lparr>ve_Attached := b\<rparr> else v)"

definition zero_status :: VolumeError where
  "zero_status = \<lparr>ve_Status = '''', ve_Message = '''', ve_DevicePath = '''', ve_VolumeName = '''', ve_Attached = False\<rparr>"

definition Unmarshal_status :: "string \<Rightarrow> VolumeError option" where
  "Unmarshal_status s =
     (case s of
        c # rest \<Rightarrow> if c = CHR ''{'' then map_option (\<lambda>kvs. set_status kvs zero_status) (read_members rest) else None
      | [] \<Rightarrow> None)"

section \<open>The kubelet's side\<close>

definition handleCmdResponse :: "string \<Rightarrow> string \<Rightarrow> error + VolumeError" where
  "handleCmdResponse cmd output =
     (case Unmarshal_status output of
        None \<Rightarrow> Inl ''invalid output''
      | Some status \<Rightarrow>
          if ve_Status status = StatusNotSupported then Inl (ve_Status status)
          else if ve_Status status \<noteq> StatusSuccess
          then Inl (sprintf ''%s command failed, status: %s, reason: %s'' [cmd, ve_Status status, ve_Message status])
          else Inr status)"

definition isCmdNotSupportedErr :: "error option \<Rightarrow> bool" where
  "isCmdNotSupportedErr err \<longleftrightarrow> err = Some StatusNotSupported"

text \<open>
  \<^verbatim>\<open>DriverCall.Run\<close> for a call without a timeout. The plugin remembers the commands that are
  not supported in a list. \<open>exec\<close> runs the executable: it gives the exit code and the output.
\<close>

definition DriverCall_Run ::
  "(string list \<Rightarrow> ('w, int \<times> string) go) \<Rightarrow> string list \<Rightarrow> string \<Rightarrow> string list \<Rightarrow>
   ('w, (error + VolumeError) \<times> string list) go" where
  "DriverCall_Run exec unsupported cmd args =
     (if cmd \<in> set unsupported then ret (Inl StatusNotSupported, unsupported)
      else bnd (exec (cmd # args)) (\<lambda>(code, output).
        let r = handleCmdResponse cmd output;
            unsupported' = (case r of
              Inl err \<Rightarrow> if isCmdNotSupportedErr (Some err) then unsupported @ [cmd] else unsupported
            | Inr _ \<Rightarrow> unsupported)
        in if code \<noteq> 0
           then (case r of
                   Inr _ \<Rightarrow> ret (Inl (''exit status '' @ Itoa code), unsupported)
                 | Inl err \<Rightarrow> ret (Inl err, unsupported'))
           else ret (r, unsupported')))"

text \<open>
  The plugin as a process: what \<^verbatim>\<open>main\<close> has printed when it ends, and the exit code. A return
  from \<^verbatim>\<open>main\<close> is code 0, a panic is code 2.
\<close>

definition exec_flexv ::
  "'w env \<Rightarrow> (string \<Rightarrow> VolumeOptions option) \<Rightarrow> (string \<Rightarrow> string) \<Rightarrow> string \<Rightarrow> string \<Rightarrow> string list \<Rightarrow>
   ('w, int \<times> string) go" where
  "exec_flexv E Unmarshal getenv hostname arg0 args w =
     (case flexv_main E Unmarshal getenv hostname False arg0 args (w, '''') of
        (r, (w', out)) \<Rightarrow>
          (Ret ((case r of Exit n \<Rightarrow> n | Ret _ \<Rightarrow> 0 | Panic _ \<Rightarrow> 2), out), w'))"

section \<open>Printing and reading\<close>

lemma hex_val_digit: "n < 16 \<Longrightarrow> hex_val (hex_digit n) = Some n"
  by (auto simp: hex_val_def hex_digit_def of_char_of Let_def)

lemma read_unicode_escape:
  "read_unicode (CHR ''0'' # CHR ''0'' # hex_digit (of_char c div 16) # hex_digit (of_char c mod 16) # s) = Some (c, s)"
proof -
  have "of_char c div 16 < (16 :: nat)" by (intro less_mult_imp_div_less) simp
  then show ?thesis
    by (simp add: read_unicode_def hex_val_digit)
qed

lemma read_chars_char: "read_chars (json_char c @ s) = map_option (\<lambda>(xs, r). (c # xs, r)) (read_chars s)"
  by (simp add: json_char_def read_char_def read_unicode_escape split: option.split)

lemma read_chars_string: "read_chars (concat (map json_char s) @ CHR 0x22 # rest) = Some (s, rest)"
  by (induction s) (simp_all add: read_chars_char)

text \<open>How a value is written.\<close>

fun write_scalar :: "json_scalar \<Rightarrow> string" where
  "write_scalar (JS s) = json_string s"
| "write_scalar (JB b) = (if b then ''true'' else ''false'')"

lemma read_member_write:
  "read_member (json_string k @ CHR '':'' # write_scalar v @ s) = Some ((k, v), s)"
  by (cases v) (simp_all add: json_string_def read_member_def read_scalar_def read_chars_string)

lemma read_members_write:
  "kvs \<noteq> [] \<Longrightarrow> read_members (json_members (map (\<lambda>kv. (fst kv, write_scalar (snd kv))) kvs) @ ''}'') = Some kvs"
proof (induction kvs rule: list_nonempty_induct)
  case (single kv)
  then show ?case
    using read_member_write [of "fst kv" "snd kv" "''}''"]
    by (subst read_members.simps) simp
next
  case (cons kv kvs)
  obtain kv' kvs' where k: "kvs = kv' # kvs'" using cons.hyps by (cases kvs) auto
  show ?case
    using cons.IH read_member_write [of "fst kv" "snd kv" "'','' @ json_members (map (\<lambda>kv. (fst kv, write_scalar (snd kv))) kvs) @ ''}''"]
    unfolding k by (subst read_members.simps) simp
qed

definition status_members :: "VolumeError \<Rightarrow> (string \<times> json_scalar) list" where
  "status_members v =
     [(''status'', JS (ve_Status v))] @
     (if ve_Message v \<noteq> '''' then [(''message'', JS (ve_Message v))] else []) @
     (if ve_DevicePath v \<noteq> '''' then [(''device'', JS (ve_DevicePath v))] else []) @
     (if ve_VolumeName v \<noteq> '''' then [(''volumeName'', JS (ve_VolumeName v))] else []) @
     (if ve_Attached v then [(''attached'', JB True)] else [])"

lemma ToJson_members: "ToJson v = CHR ''{'' # json_members (map (\<lambda>kv. (fst kv, write_scalar (snd kv))) (status_members v)) @ ''}''"
  by (simp add: ToJson_def status_members_def)

lemma Unmarshal_ToJson: "Unmarshal_status (ToJson v) = Some v"
proof -
  have "status_members v \<noteq> []" by (simp add: status_members_def)
  then have "Unmarshal_status (ToJson v) = Some (set_status (status_members v) zero_status)"
    by (simp add: Unmarshal_status_def ToJson_members read_members_write)
  also have "set_status (status_members v) zero_status = v"
    by (simp add: status_members_def zero_status_def)
  finally show ?thesis .
qed

text \<open>A percent sign in a result is the only thing that spoils the printed text.\<close>

definition plain_status :: "VolumeError \<Rightarrow> bool" where
  "plain_status v \<longleftrightarrow>
     CHR ''%'' \<notin> set (ve_Status v @ ve_Message v @ ve_DevicePath v @ ve_VolumeName v)"

lemma hex_digit_plain: "n < 16 \<Longrightarrow> hex_digit n \<noteq> CHR ''%''"
  using hex_val_digit [of n] by (auto simp: hex_val_def of_char_def)

lemma json_char_plain: "CHR ''%'' \<noteq> c \<Longrightarrow> CHR ''%'' \<notin> set (json_char c)"
proof -
  have "hex_digit (of_char c div 16) \<noteq> CHR ''%''" by (intro hex_digit_plain less_mult_imp_div_less) simp
  moreover have "hex_digit (of_char c mod 16) \<noteq> CHR ''%''" by (intro hex_digit_plain) simp
  ultimately show "CHR ''%'' \<noteq> c \<Longrightarrow> CHR ''%'' \<notin> set (json_char c)"
    by (simp add: json_char_def eq_commute [of "CHR ''%''"])
qed

lemma json_string_plain: "CHR ''%'' \<notin> set s \<Longrightarrow> CHR ''%'' \<notin> set (json_string s)"
  by (induction s) (auto simp: json_string_def dest: json_char_plain)

lemma json_members_plain:
  "\<forall>kv \<in> set kvs. CHR ''%'' \<notin> set (fst kv) \<and> CHR ''%'' \<notin> set (snd kv) \<Longrightarrow> CHR ''%'' \<notin> set (json_members kvs)"
  by (induction kvs rule: json_members.induct) (auto simp: json_string_plain)

lemma ToJson_plain:
  assumes "plain_status v"
  shows "sprintf (ToJson v) [] = ToJson v"
proof (intro sprintf_plain)
  have "CHR ''%'' \<notin> set (json_members (map (\<lambda>kv. (fst kv, write_scalar (snd kv))) (status_members v)))"
    using assms by (intro json_members_plain) (auto simp: status_members_def plain_status_def json_string_plain)
  then show "CHR ''%'' \<notin> set (ToJson v)" by (simp add: ToJson_members)
qed

section \<open>A call of the driver\<close>

text \<open>What the plugin does before it looks at its arguments.\<close>

definition start_plugin :: "'w env \<Rightarrow> (string \<Rightarrow> string) \<Rightarrow> string \<Rightarrow> ('w, AliyunProvider) go" where
  "start_plugin E getenv hostname =
     bnd (call (env_MkdirAll E ''/opt/logs/flexv'')) (\<lambda>_. NewProvider E getenv hostname)"

lemma flexv_main_dispatch:
  assumes "start_plugin E getenv hostname w = (Ret p, w1)"
  shows "flexv_main E U getenv hostname False arg0 args (w, out) =
    dispatch U (aliyun_volume E p) arg0 args (w1, out)"
proof -
  obtain r w0 where m: "env_MkdirAll E ''/opt/logs/flexv'' w = (r, w0)" by fastforce
  with assms have n: "NewProvider E getenv hostname w0 = (Ret p, w1)"
    by (simp add: start_plugin_def bnd_def call_def)
  show ?thesis
    by (simp add: flexv_main_def lift_world_def GetProvider_registered bnd_def call_def m n ret_def Volume_def)
qed

text \<open>The answer the kubelet should get for a result of the driver.\<close>

definition driver_answer :: "string \<Rightarrow> VolumeError \<Rightarrow> error + VolumeError" where
  "driver_answer op v =
     (if ve_Status v = StatusSuccess then Inr v
      else if ve_Status v = StatusNotSupported then Inl StatusNotSupported
      else Inl (sprintf ''%s command failed, status: %s, reason: %s'' [op, ve_Status v, ve_Message v]))"

lemma handleCmdResponse_ToJson: "handleCmdResponse op (ToJson v) = driver_answer op v"
  by (simp add: handleCmdResponse_def Unmarshal_ToJson driver_answer_def StatusSuccess_def StatusNotSupported_def)

lemma dispatch_run_op:
  assumes "run_op U m op args (w, out) = (Ret v, (w', out))" and "plain_status v"
  shows "dispatch U m arg0 (op # args) (w, out) =
    (Exit (if ve_Status v = ''Success'' then 0 else 1), (w', out @ ToJson v))"
  using assms
  by (simp add: dispatch_def printResult_def Printf_def bnd_def effect_def os_Exit_def ToJson_plain)

lemma driver_answer_not_supported:
  "isCmdNotSupportedErr (case driver_answer op v of Inl e \<Rightarrow> Some e | Inr _ \<Rightarrow> None) \<longleftrightarrow> ve_Status v = StatusNotSupported"
proof -
  have "length (sprintf '' command failed, status: %s, reason: %s'' xs) > 20" for xs :: "string list"
    by (cases xs; cases "tl xs") (simp_all add: is_flag_def)
  then have "sprintf ''%s command failed, status: %s, reason: %s'' (op # xs) \<noteq> ''Not supported''" for xs
    by (auto simp: is_flag_def dest: arg_cong [where f = length])
  then show ?thesis
    by (auto simp: isCmdNotSupportedErr_def driver_answer_def StatusNotSupported_def StatusSuccess_def)
qed

lemma DriverCall_answer:
  assumes "start_plugin E getenv hostname w = (Ret p, w1)"
    and "run_op U (aliyun_volume E p) op args (w1, '''') = (Ret v, (w', ''''))"
    and "plain_status v" and "op \<notin> set unsupported"
  shows "DriverCall_Run (exec_flexv E U getenv hostname arg0) unsupported op args w =
    (Ret (driver_answer op v,
          if ve_Status v = StatusNotSupported then unsupported @ [op] else unsupported), w')"
proof -
  have "exec_flexv E U getenv hostname arg0 (op # args) w =
      (Ret (if ve_Status v = ''Success'' then 0 else 1, ToJson v), w')"
    using dispatch_run_op [OF assms(2,3), of arg0]
    by (simp add: exec_flexv_def flexv_main_dispatch [OF assms(1)])
  then show ?thesis
    using assms(4) driver_answer_not_supported [of op v]
    by (auto simp: DriverCall_Run_def bnd_def handleCmdResponse_ToJson ret_def Let_def driver_answer_def
        StatusSuccess_def StatusNotSupported_def isCmdNotSupportedErr_def split: sum.splits if_splits)
qed

end
