(* ===== verification/Go_Net.thy ===== *)
theory Go_Net
  imports Go_Strings "HOL-Library.Word"
begin

text \<open>
  The part of Go's \<^verbatim>\<open>net\<close> package behind the cluster's address range: addresses as byte
  slices, \<^verbatim>\<open>ParseCIDR\<close> for both address families, masks and \<^verbatim>\<open>IPNet.Contains\<close>. A \<^verbatim>\<open>nil\<close> slice
  is the empty list where Go does not tell the two apart.
\<close>

unbundle bit_operations_syntax

type_synonym byte = "8 word"
type_synonym IP = "byte list"

record IPNet =
  Net_IP :: IP
  Net_Mask :: "byte list"

section \<open>Numbers\<close>

text \<open>\<^verbatim>\<open>dtoi\<close> and \<^verbatim>\<open>xtoi\<close>: the number, how many characters it took, and whether there is one.\<close>

definition big :: int where "big = 16777215"

definition hex_value :: "char \<Rightarrow> nat option" where
  "hex_value c =
     (let n = of_char c :: nat
      in if 48 \<le> n \<and> n \<le> 57 then Some (n - 48)
         else if 97 \<le> n \<and> n \<le> 102 then Some (n - 97 + 10)
         else if 65 \<le> n \<and> n \<le> 70 then Some (n - 65 + 10)
         else None)"

fun toi_loop :: "(char \<Rightarrow> nat option) \<Rightarrow> int \<Rightarrow> int \<Rightarrow> string \<Rightarrow> int \<Rightarrow> nat \<Rightarrow> int \<times> nat \<times> bool" where
  "toi_loop digit base overflow [] n i = (n, i, i \<noteq> 0)"
| "toi_loop digit base overflow (c # s) n i =
     (case digit c of
        None \<Rightarrow> (n, i, i \<noteq> 0)
      | Some d \<Rightarrow>
          if n * base + int d \<ge> big then (overflow, i, False)
          else toi_loop digit base overflow s (n * base + int d) (Suc i))"

definition dtoi :: "string \<Rightarrow> int \<times> nat \<times> bool" where
  "dtoi s = toi_loop digit_val 10 big s 0 0"

definition xtoi :: "string \<Rightarrow> int \<times> nat \<times> bool" where
  "xtoi s = toi_loop hex_value 16 0 s 0 0"

section \<open>Addresses\<close>

definition v4InV6Prefix :: IP where
  "v4InV6Prefix = [0, 0, 0, 0, 0, 0, 0, 0, 0, 0, 255, 255]"

text \<open>The loop of \<^verbatim>\<open>parseIPv4\<close>; the first argument is the number of octets still to read.\<close>

fun parseIPv4_loop :: "nat \<Rightarrow> string \<Rightarrow> byte list \<Rightarrow> IP option" where
  "parseIPv4_loop 0 s p = (if s \<noteq> [] then None else Some (v4InV6Prefix @ p))"
| "parseIPv4_loop (Suc k) s p =
     (if s = [] then None
      else if k < 3 \<and> hd s \<noteq> CHR ''.'' then None
      else let s' = (if k < 3 then tl s else s)
           in case dtoi s' of (n, c, ok) \<Rightarrow>
                if \<not> ok \<or> n > 255 then None
                else parseIPv4_loop k (drop c s') (p @ [word_of_int n]))"

definition parseIPv4 :: "string \<Rightarrow> IP option" where
  "parseIPv4 s = parseIPv4_loop 4 s []"

text \<open>
  The loop of \<^verbatim>\<open>parseIPv6\<close>; the first argument is the number of 16-bit groups still missing.
  The result is the unread text, the bytes and the place of the ellipsis.
\<close>

fun parseIPv6_loop :: "nat \<Rightarrow> string \<Rightarrow> byte list \<Rightarrow> nat option \<Rightarrow> (string \<times> byte list \<times> nat option) option" where
  "parseIPv6_loop 0 s ip ellipsis = Some (s, ip, ellipsis)"
| "parseIPv6_loop (Suc k) s ip ellipsis =
     (case xtoi s of (n, c, ok) \<Rightarrow>
        if \<not> ok \<or> n > 65535 then None
        else if c < length s \<and> s ! c = CHR ''.'' then
          if ellipsis = None \<and> length ip \<noteq> 12 then None
          else if length ip + 4 > 16 then None
          else map_option (\<lambda>ip4. ([], ip @ drop 12 ip4, ellipsis)) (parseIPv4 s)
        else
          let ip = ip @ [word_of_int (n div 256), word_of_int n]; s = drop c s
          in if s = [] then Some ([], ip, ellipsis)
             else if hd s \<noteq> CHR '':'' \<or> length s = 1 then None
             else if hd (tl s) = CHR '':''
             then if ellipsis \<noteq> None then None
                  else if tl (tl s) = [] then Some ([], ip, Some (length ip))
                  else parseIPv6_loop k (tl (tl s)) ip (Some (length ip))
             else parseIPv6_loop k (tl s) ip ellipsis)"

definition expand_ellipsis :: "string \<times> byte list \<times> nat option \<Rightarrow> IP option" where
  "expand_ellipsis r =
     (case r of (s, ip, ellipsis) \<Rightarrow>
        if s \<noteq> [] then None
        else if length ip < 16
        then map_option (\<lambda>j. take j ip @ replicate (16 - length ip) 0 @ drop j ip) ellipsis
        else if ellipsis \<noteq> None then None else Some ip)"

definition parseIPv6 :: "string \<Rightarrow> IP option" where
  "parseIPv6 s =
     (if take 2 s = ''::''
      then if drop 2 s = [] then Some (replicate 16 0)
           else Option.bind (parseIPv6_loop 8 (drop 2 s) [] (Some 0)) expand_ellipsis
      else Option.bind (parseIPv6_loop 8 s [] None) expand_ellipsis)"

definition To4 :: "IP \<Rightarrow> IP option" where
  "To4 ip =
     (if length ip = 4 then Some ip
      else if length ip = 16 \<and> take 12 ip = v4InV6Prefix then Some (drop 12 ip)
      else None)"

section \<open>Networks\<close>

fun CIDRMask_loop :: "nat \<Rightarrow> nat \<Rightarrow> byte list" where
  "CIDRMask_loop 0 n = []"
| "CIDRMask_loop (Suc l) n =
     (if n \<ge> 8 then 255 # CIDRMask_loop l (n - 8)
      else NOT (drop_bit n 255) # CIDRMask_loop l 0)"

definition CIDRMask :: "nat \<Rightarrow> nat \<Rightarrow> byte list" where
  "CIDRMask ones bits = CIDRMask_loop (bits div 8) ones"

definition and_bytes :: "byte list \<Rightarrow> byte list \<Rightarrow> byte list" where
  "and_bytes = map2 (AND)"

definition IP_Mask :: "IP \<Rightarrow> byte list \<Rightarrow> IP" where
  "IP_Mask ip msk =
     (let msk = (if length msk = 16 \<and> length ip = 4 \<and> (\<forall>b \<in> set (take 12 msk). b = 255) then drop 12 msk else msk);
          ip = (if length msk = 4 \<and> length ip = 16 \<and> take 12 ip = v4InV6Prefix then drop 12 ip else ip)
      in if length ip \<noteq> length msk then [] else and_bytes ip msk)"

definition ParseCIDR :: "string \<Rightarrow> error + IP \<times> IPNet" where
  "ParseCIDR s =
     (let err = Inl (''invalid CIDR address: '' @ s)
      in if CHR ''/'' \<notin> set s then err
         else let addr = takeWhile (\<lambda>c. c \<noteq> CHR ''/'') s; msk = tl (dropWhile (\<lambda>c. c \<noteq> CHR ''/'') s)
           in case (case parseIPv4 addr of Some ip \<Rightarrow> Some (ip, 4) | None \<Rightarrow> map_option (\<lambda>ip. (ip, 16)) (parseIPv6 addr)) of
                None \<Rightarrow> err
              | Some (ip, iplen) \<Rightarrow> (case dtoi msk of (n, i, ok) \<Rightarrow>
                  if \<not> ok \<or> i \<noteq> length msk \<or> n < 0 \<or> n > int (8 * iplen) then err
                  else let m = CIDRMask (nat n) (8 * iplen)
                       in Inr (ip, \<lparr>Net_IP = IP_Mask ip m, Net_Mask = m\<rparr>)))"

definition networkNumberAndMask :: "IPNet \<Rightarrow> IP \<times> byte list" where
  "networkNumberAndMask n =
     (let m = Net_Mask n
      in case (case To4 (Net_IP n) of Some ip \<Rightarrow> Some ip
               | None \<Rightarrow> if length (Net_IP n) \<noteq> 16 then None else Some (Net_IP n)) of
           None \<Rightarrow> ([], [])
         | Some ip \<Rightarrow>
             if length m = 4 then if length ip \<noteq> 4 then ([], []) else (ip, m)
             else if length m = 16 then if length ip = 4 then (ip, drop 12 m) else (ip, m)
             else ([], []))"

definition Contains :: "IPNet \<Rightarrow> IP \<Rightarrow> bool" where
  "Contains n ip =
     (case networkNumberAndMask n of (nn, m) \<Rightarrow>
        let ip = (case To4 ip of Some x \<Rightarrow> x | None \<Rightarrow> ip)
        in length ip = length nn \<and> and_bytes nn m = and_bytes ip m)"

section \<open>Well-formed networks\<close>

definition wf_net :: "IPNet \<Rightarrow> bool" where
  "wf_net n \<longleftrightarrow> length (Net_IP n) = length (Net_Mask n) \<and> length (Net_Mask n) \<in> {4, 16} \<and>
     and_bytes (Net_IP n) (Net_Mask n) = Net_IP n"

lemma length_CIDRMask_loop [simp]: "length (CIDRMask_loop l n) = l"
  by (induction l n rule: CIDRMask_loop.induct) simp_all

lemma length_CIDRMask [simp]: "length (CIDRMask n bits) = bits div 8"
  by (simp add: CIDRMask_def)

lemma length_and_bytes [simp]: "length (and_bytes x m) = min (length x) (length m)"
  by (simp add: and_bytes_def)

lemma nth_and_bytes [simp]: "i < length x \<Longrightarrow> i < length m \<Longrightarrow> and_bytes x m ! i = x ! i AND m ! i"
  by (simp add: and_bytes_def)

lemma and_bytes_idem: "and_bytes (and_bytes x m) m = and_bytes x m"
  by (rule nth_equalityI) (simp_all add: and.assoc)

lemma length_v4InV6Prefix [simp]: "length v4InV6Prefix = 12"
  by (simp add: v4InV6Prefix_def)

lemma parseIPv4_loop_length: "parseIPv4_loop k s p = Some ip \<Longrightarrow> \<exists>q. ip = v4InV6Prefix @ q \<and> length q = length p + k"
  by (induction k s p rule: parseIPv4_loop.induct) (auto simp: Let_def split: if_splits prod.splits)

lemma parseIPv4_length: "parseIPv4 s = Some ip \<Longrightarrow> \<exists>q. ip = v4InV6Prefix @ q \<and> length q = 4"
  using parseIPv4_loop_length [of 4 s "[]"] by (simp add: parseIPv4_def)

lemma parseIPv6_loop_length:
  "parseIPv6_loop k s ip e = Some (s', ip', e') \<Longrightarrow> length ip + 2 * k \<le> 16 \<Longrightarrow> length ip' \<le> 16"
proof (induction k arbitrary: s ip e)
  case (Suc k)
  obtain n c ok where x: "xtoi s = (n, c, ok)" by (cases "xtoi s")
  let ?ip = "ip @ [word_of_int (n div 256), word_of_int n]"
  from Suc.prems(1) x consider
      ip4 where "parseIPv4 s = Some ip4" "ip' = ip @ drop 12 ip4" "length ip + 4 \<le> 16"
    | "ip' = ?ip"
    | t e2 where "parseIPv6_loop k t ?ip e2 = Some (s', ip', e')"
    by (simp add: Let_def split: if_splits) auto
  then show ?case
  proof cases
    case 1
    then show ?thesis using parseIPv4_length [of s] by auto
  next
    case 2
    then show ?thesis using Suc.prems(2) by simp
  next
    case 3
    from Suc.IH [OF 3] Suc.prems(2) show ?thesis by simp
  qed
qed simp

lemma expand_ellipsis_length: "expand_ellipsis (s, ip, e) = Some ip' \<Longrightarrow> length ip \<le> 16 \<Longrightarrow> length ip' = 16"
  by (auto simp: expand_ellipsis_def split: if_splits)

lemma parseIPv6_length: "parseIPv6 s = Some ip \<Longrightarrow> length ip = 16"
  by (auto simp: parseIPv6_def bind_eq_Some_conv split: if_splits
      dest!: parseIPv6_loop_length intro: expand_ellipsis_length)

lemma IP_Mask_wf:
  assumes "length m = iplen" and "iplen = 4 \<and> (\<exists>q. ip = v4InV6Prefix @ q \<and> length q = 4) \<or> iplen = 16 \<and> length ip = 16"
  shows "wf_net \<lparr>Net_IP = IP_Mask ip m, Net_Mask = m\<rparr>"
  using assms by (auto simp: IP_Mask_def wf_net_def and_bytes_idem)

lemma ParseCIDR_wf: "ParseCIDR s = Inr (ip, n) \<Longrightarrow> wf_net n"
  by (auto simp: ParseCIDR_def Let_def split: if_splits option.splits prod.splits
      dest!: parseIPv4_length parseIPv6_length intro!: IP_Mask_wf)

section \<open>Inclusion of networks\<close>

text \<open>The last address of a network: all bits outside of the mask are set.\<close>

definition last_ip :: "IPNet \<Rightarrow> IP" where
  "last_ip n = map2 (\<lambda>a m. a OR NOT m) (Net_IP n) (Net_Mask n)"

lemma Contains_4:
  assumes "wf_net n" and "length (Net_IP n) = 4"
  shows "Contains n ip \<longleftrightarrow> (\<exists>x. To4 ip = Some x \<and> and_bytes x (Net_Mask n) = Net_IP n)"
proof -
  from assms have "networkNumberAndMask n = (Net_IP n, Net_Mask n)"
    by (simp add: networkNumberAndMask_def wf_net_def To4_def)
  with assms show ?thesis
    by (auto simp: Contains_def wf_net_def To4_def split: if_splits)
qed

text \<open>The bytes of the addresses of a network and of one that has its first and its last address.\<close>

lemma byte_between:
  fixes a m c k x :: byte
  assumes "a AND m = a" and "a AND k = c" and "(a OR NOT m) AND k = c" and "x AND m = a"
  shows "x AND k = c"
proof (rule bit_word_eqI)
  fix n assume "n < LENGTH(8)"
  with arg_cong [OF assms(1), of "\<lambda>w. bit w n"] arg_cong [OF assms(2), of "\<lambda>w. bit w n"]
    arg_cong [OF assms(3), of "\<lambda>w. bit w n"] arg_cong [OF assms(4), of "\<lambda>w. bit w n"]
  show "bit (x AND k) n = bit c n" by (auto simp: bit_simps)
qed

lemma last_byte: "a AND m = a \<Longrightarrow> (a OR NOT m) AND m = (a :: byte)"
  by (simp add: bit.conj_disj_distrib2)

lemma Contains_first:
  assumes "wf_net n" and "length (Net_IP n) = 4"
  shows "Contains n (Net_IP n)"
  using assms by (simp add: Contains_4) (simp add: To4_def wf_net_def)

lemma Contains_last:
  assumes "wf_net n" and "length (Net_IP n) = 4"
  shows "Contains n (last_ip n)"
proof -
  from assms have l: "length (last_ip n) = 4" by (simp add: last_ip_def wf_net_def)
  have "and_bytes (last_ip n) (Net_Mask n) = Net_IP n"
  proof (rule nth_equalityI)
    fix i assume "i < length (and_bytes (last_ip n) (Net_Mask n))"
    with assms l have i: "i < length (Net_IP n)" "i < length (Net_Mask n)" by (simp_all add: wf_net_def)
    from assms have "and_bytes (Net_IP n) (Net_Mask n) ! i = Net_IP n ! i" by (simp add: wf_net_def)
    with i have "Net_IP n ! i AND Net_Mask n ! i = Net_IP n ! i" by simp
    from last_byte [OF this] i l show "and_bytes (last_ip n) (Net_Mask n) ! i = Net_IP n ! i"
      by (simp add: last_ip_def)
  qed (use assms l in \<open>simp add: wf_net_def\<close>)
  with assms l show ?thesis by (simp add: Contains_4 To4_def)
qed

text \<open>A network is inside another one exactly when its first and its last address are.\<close>

lemma Contains_ends:
  assumes n: "wf_net n" "length (Net_IP n) = 4" and m: "wf_net m" "length (Net_IP m) = 4"
  shows "Contains m (Net_IP n) \<and> Contains m (last_ip n) \<longleftrightarrow> (\<forall>ip. Contains n ip \<longrightarrow> Contains m ip)"
proof (intro iffI allI impI)
  fix ip assume e: "Contains m (Net_IP n) \<and> Contains m (last_ip n)" and "Contains n ip"
  then obtain x where x: "To4 ip = Some x" "and_bytes x (Net_Mask n) = Net_IP n" by (auto simp: Contains_4 [OF n])
  from x(1) have lx: "length x = 4" by (auto simp: To4_def split: if_splits)
  from e n have f: "and_bytes (Net_IP n) (Net_Mask m) = Net_IP m" "and_bytes (last_ip n) (Net_Mask m) = Net_IP m"
    by (auto simp: Contains_4 [OF m] To4_def last_ip_def wf_net_def)
  have "and_bytes x (Net_Mask m) = Net_IP m"
  proof (rule nth_equalityI)
    fix i assume "i < length (and_bytes x (Net_Mask m))"
    with n m lx have i: "i < length (Net_IP n)" "i < length (Net_Mask n)" "i < length (Net_IP m)" "i < length (Net_Mask m)"
      "i < length x" by (auto simp: wf_net_def)
    have "x ! i AND Net_Mask m ! i = Net_IP m ! i"
    proof (rule byte_between)
      show "Net_IP n ! i AND Net_Mask n ! i = Net_IP n ! i"
        using n(1) i nth_and_bytes [of i "Net_IP n" "Net_Mask n"] by (simp add: wf_net_def)
      show "Net_IP n ! i AND Net_Mask m ! i = Net_IP m ! i" using f(1) i nth_and_bytes [of i "Net_IP n" "Net_Mask m"] by simp
      show "(Net_IP n ! i OR NOT (Net_Mask n ! i)) AND Net_Mask m ! i = Net_IP m ! i"
        using f(2) i nth_and_bytes [of i "last_ip n" "Net_Mask m"] by (simp add: last_ip_def)
      show "x ! i AND Net_Mask n ! i = Net_IP n ! i" using x(2) i nth_and_bytes [of i x "Net_Mask n"] by simp
    qed
    with i show "and_bytes x (Net_Mask m) ! i = Net_IP m ! i" by simp
  qed (use m lx in \<open>simp add: wf_net_def\<close>)
  with x(1) show "Contains m ip" by (simp add: Contains_4 [OF m])
qed (use Contains_first [OF n] Contains_last [OF n] in blast)

section \<open>Printed networks\<close>

lemma digits_val_ge: "digits_val acc xs = Some v \<Longrightarrow> acc \<le> v"
  by (induction acc xs rule: digits_val.induct) (auto split: option.splits)

lemma toi_loop_digits:
  "digits_val n xs = Some v \<Longrightarrow> int v < big \<Longrightarrow> rest = [] \<or> digit_val (hd rest) = None \<Longrightarrow> xs \<noteq> [] \<or> i \<noteq> 0 \<Longrightarrow>
   toi_loop digit_val 10 overflow (xs @ rest) (int n) i = (int v, i + length xs, True)"
proof (induction n xs arbitrary: i rule: digits_val.induct)
  case (1 acc)
  then show ?case by (cases rest) auto
next
  case (2 acc c cs)
  from 2(2) obtain d where d: "digit_val c = Some d" "digits_val (10 * acc + d) cs = Some v"
    by (auto split: option.splits)
  from digits_val_ge [OF d(2)] have "int acc * 10 + int d \<le> int v" by linarith
  with 2 d show ?case by (simp add: mult.commute)
qed

lemma dtoi_show_nat:
  "int n < big \<Longrightarrow> rest = [] \<or> digit_val (hd rest) = None \<Longrightarrow> dtoi (show_nat n @ rest) = (int n, length (show_nat n), True)"
  using toi_loop_digits [OF digits_val_show_nat, of n rest 0 big] by (simp add: dtoi_def)

definition print_ipv4 :: "nat \<Rightarrow> nat \<Rightarrow> nat \<Rightarrow> nat \<Rightarrow> string" where
  "print_ipv4 a b c d = show_nat a @ ''.'' @ show_nat b @ ''.'' @ show_nat c @ ''.'' @ show_nat d"

lemma octets_not_big [simp]: "n \<le> 255 \<Longrightarrow> int n < big"
  by (simp add: big_def)

lemma dot_no_digit [simp]: "digit_val CHR ''.'' = None" "digit_val CHR ''/'' = None"
  by (simp_all add: digit_val_def)

lemma parseIPv4_print:
  assumes "a \<le> 255" "b \<le> 255" "c \<le> 255" "d \<le> 255"
  shows "parseIPv4 (print_ipv4 a b c d) = Some (v4InV6Prefix @ map word_of_nat [a, b, c, d])"
  using assms dtoi_show_nat [of d "[]"]
  by (simp add: parseIPv4_def print_ipv4_def dtoi_show_nat numeral_eq_Suc)

lemma slash_no_print: "CHR ''/'' \<notin> set (print_ipv4 a b c d)"
  using show_nat_digits [of "CHR ''/''"] by (auto simp: print_ipv4_def)

lemma ParseCIDR_print:
  assumes "a \<le> 255" "b \<le> 255" "c \<le> 255" "d \<le> 255" and "n \<le> 32"
  shows "ParseCIDR (print_ipv4 a b c d @ ''/'' @ show_nat n) =
    Inr (v4InV6Prefix @ map word_of_nat [a, b, c, d],
         \<lparr>Net_IP = and_bytes (map word_of_nat [a, b, c, d]) (CIDRMask n 32), Net_Mask = CIDRMask n 32\<rparr>)"
proof -
  let ?s = "print_ipv4 a b c d"
  have "\<forall>x \<in> set ?s. x \<noteq> CHR ''/''" using slash_no_print by blast
  then have "takeWhile (\<lambda>c. c \<noteq> CHR ''/'') (?s @ ''/'' @ show_nat n) = ?s"
    "dropWhile (\<lambda>c. c \<noteq> CHR ''/'') (?s @ ''/'' @ show_nat n) = ''/'' @ show_nat n"
    by (simp_all add: takeWhile_sep dropWhile_append)
  moreover have "dtoi (show_nat n) = (int n, length (show_nat n), True)"
    using dtoi_show_nat [of n "[]"] assms(5) by (simp add: big_def)
  ultimately show ?thesis using parseIPv4_print [OF assms(1-4)] assms(5)
    by (simp add: ParseCIDR_def IP_Mask_def Let_def)
qed

end
