(* ===== verification/Controller.thy ===== *)
theory Controller
  imports Provider Volume_Driver Go_Net Service_Controller Leader_Election
begin

text \<open>
  The controller daemon: its options and flags (\<^verbatim>\<open>pkg/controller/options.go\<close>), its construction
  (\<^verbatim>\<open>NewController\<close> of \<^verbatim>\<open>pkg/controller/controller.go\<close>) and \<^verbatim>\<open>cmd/aliyun-controller/main.go\<close> up to
  the call of \<^verbatim>\<open>Run\<close>, which is the subject of \<^verbatim>\<open>Replicas\<close>.

  The Kubernetes client library and the allocation of the three controllers the daemon runs are
  behind a record of operations; the objects they create are handles of an arbitrary type. The
  part of a constructor that can fail, \<^verbatim>\<open>init\<close> of the service controller, is the modelled one.
\<close>

section \<open>Options\<close>

record ConfigOverrides = \<comment> \<open>the parts of \<^verbatim>\<open>clientcmd.ConfigOverrides\<close> that the program reads\<close>
  ClusterInfo_Server :: string
  Context_Cluster :: string

record Options =
  o_Name :: string
  o_Kubeconfig :: string
  o_ClusterCIDR :: string
  o_InCluster :: bool
  o_ProvisionRetry :: int
  o_ConcurrentServiceSyncs :: int
  o_ShutdownGracePeriod :: int
  o_RouteReconcilationPeriod :: int
  o_LeaderElect :: bool \<comment> \<open>\<^verbatim>\<open>LeaderElection.LeaderElect\<close>\<close>
  o_LeaderElection :: LeaderElectionConfig
  o_Overrides :: ConfigOverrides

definition NewOptions :: Options where
  "NewOptions =
     \<lparr>o_Name = '''', o_Kubeconfig = '''', o_ClusterCIDR = '''', o_InCluster = False, o_ProvisionRetry = 0,
      o_ConcurrentServiceSyncs = 0, o_ShutdownGracePeriod = 0, o_RouteReconcilationPeriod = 0,
      o_LeaderElect = False, o_LeaderElection = DefaultLeaderElectionConfiguration,
      o_Overrides = \<lparr>ClusterInfo_Server = '''', Context_Cluster = ''''\<rparr>\<rparr>"

section \<open>Flags\<close>

text \<open>
  A registered flag: whether its value may be left out (a boolean flag), and how a value sets
  the options; \<open>None\<close> is a value that does not parse. \<^verbatim>\<open>strconv.ParseInt(s, 0, 64)\<close> and
  \<^verbatim>\<open>time.ParseDuration\<close> are parameters.
\<close>

record flag =
  fl_bool :: bool
  fl_set :: "string \<Rightarrow> Options \<Rightarrow> Options option"

record parsers =
  ParseInt :: "string \<Rightarrow> int option"
  ParseDuration :: "string \<Rightarrow> int option"

definition StringVar :: "(string \<Rightarrow> Options \<Rightarrow> Options) \<Rightarrow> flag" where
  "StringVar upd = \<lparr>fl_bool = False, fl_set = (\<lambda>s opts. Some (upd s opts))\<rparr>"

definition BoolVar :: "(bool \<Rightarrow> Options \<Rightarrow> Options) \<Rightarrow> flag" where
  "BoolVar upd = \<lparr>fl_bool = True, fl_set = (\<lambda>s opts. case ParseBool s of Inl _ \<Rightarrow> None | Inr b \<Rightarrow> Some (upd b opts))\<rparr>"

definition NumVar :: "(string \<Rightarrow> int option) \<Rightarrow> (int \<Rightarrow> Options \<Rightarrow> Options) \<Rightarrow> flag" where
  "NumVar parse upd = \<lparr>fl_bool = False, fl_set = (\<lambda>s opts. map_option (\<lambda>n. upd n opts) (parse s))\<rparr>"

text \<open>\<^verbatim>\<open>leaderelection.BindFlags\<close>; its defaults are the present values, so the options stay as they are.\<close>

definition BindFlags :: "parsers \<Rightarrow> (string \<times> flag) list" where
  "BindFlags P =
     [(''leader-elect'', BoolVar (\<lambda>b opts. opts\<lparr>o_LeaderElect := b\<rparr>)),
      (''leader-elect-lease-duration'', NumVar (ParseDuration P)
         (\<lambda>d opts. opts\<lparr>o_LeaderElection := (o_LeaderElection opts)\<lparr>LeaseDuration := d\<rparr>\<rparr>)),
      (''leader-elect-renew-deadline'', NumVar (ParseDuration P)
         (\<lambda>d opts. opts\<lparr>o_LeaderElection := (o_LeaderElection opts)\<lparr>RenewDeadline := d\<rparr>\<rparr>)),
      (''leader-elect-retry-period'', NumVar (ParseDuration P)
         (\<lambda>d opts. opts\<lparr>o_LeaderElection := (o_LeaderElection opts)\<lparr>RetryPeriod := d\<rparr>\<rparr>))]"

text \<open>\<^verbatim>\<open>clientcmd.BindOverrideFlags\<close>; the flags for parts of the overrides that the program never reads set nothing.\<close>

definition BindOverrideFlags :: "(string \<times> flag) list" where
  "BindOverrideFlags =
     [(''server'', StringVar (\<lambda>s opts. opts\<lparr>o_Overrides := (o_Overrides opts)\<lparr>ClusterInfo_Server := s\<rparr>\<rparr>)),
      (''cluster'', StringVar (\<lambda>s opts. opts\<lparr>o_Overrides := (o_Overrides opts)\<lparr>Context_Cluster := s\<rparr>\<rparr>)),
      (''insecure-skip-tls-verify'', BoolVar (\<lambda>b opts. opts))] @
     map (\<lambda>name. (name, StringVar (\<lambda>s opts. opts)))
       [''client-certificate'', ''client-key'', ''token'', ''as'', ''username'', ''password'', ''api-version'',
        ''certificate-authority'', ''user'', ''namespace'', ''context'', ''request-timeout'']"

text \<open>\<^verbatim>\<open>Options.AddFlags\<close>: registering a flag stores its default.\<close>

definition AddFlags :: "parsers \<Rightarrow> string \<Rightarrow> Options \<Rightarrow> Options \<times> (string \<times> flag) list" where
  "AddFlags P hostname opts =
     (opts\<lparr>o_ClusterCIDR := '''', o_Name := hostname, o_InCluster := False, o_ConcurrentServiceSyncs := 3,
           o_ShutdownGracePeriod := 3 * Second, o_RouteReconcilationPeriod := 30 * Second, o_ProvisionRetry := 10\<rparr>,
      [(''cluster-cidr'', StringVar (\<lambda>s opts. opts\<lparr>o_ClusterCIDR := s\<rparr>)),
       (''instance-name'', StringVar (\<lambda>s opts. opts\<lparr>o_Name := s\<rparr>)),
       (''in-cluster'', BoolVar (\<lambda>b opts. opts\<lparr>o_InCluster := b\<rparr>)),
       (''concurrent-service-syncs'', NumVar (ParseInt P) (\<lambda>n opts. opts\<lparr>o_ConcurrentServiceSyncs := n\<rparr>)),
       (''shutdown-grace-period'', NumVar (ParseDuration P) (\<lambda>d opts. opts\<lparr>o_ShutdownGracePeriod := d\<rparr>)),
       (''route-reconcilation-period'', NumVar (ParseDuration P) (\<lambda>d opts. opts\<lparr>o_RouteReconcilationPeriod := d\<rparr>)),
       (''kubeconfig'', StringVar (\<lambda>s opts. opts\<lparr>o_Kubeconfig := s\<rparr>)),
       (''provision-retry'', NumVar (ParseInt P) (\<lambda>n opts. opts\<lparr>o_ProvisionRetry := n\<rparr>))] @
      BindFlags P @ BindOverrideFlags)"

text \<open>
  \<^verbatim>\<open>FlagSet.parseLongArg\<close> and \<^verbatim>\<open>FlagSet.parseArgs\<close> of the flag package. A name is normalised by
  \<^verbatim>\<open>WordSepNormalizeFunc\<close>. Arguments with one dash are handled by \<open>short\<close>, a parameter that gives
  the arguments that follow and the options. \<open>None\<close> is an error.
\<close>

definition WordSepNormalizeFunc :: "string \<Rightarrow> string" where
  "WordSepNormalizeFunc name = map (\<lambda>c. if c = CHR ''_'' then CHR ''-'' else c) name"

definition parseLongArg ::
  "(string \<times> flag) list \<Rightarrow> string \<Rightarrow> string list \<Rightarrow> Options \<Rightarrow> (string list \<times> Options) option" where
  "parseLongArg formal s args opts =
     (let name = drop 2 s
      in if name = '''' \<or> hd name = CHR ''-'' \<or> hd name = CHR ''='' then None
         else let key = takeWhile (\<lambda>c. c \<noteq> CHR ''='') name; rest = dropWhile (\<lambda>c. c \<noteq> CHR ''='') name
              in case map_of formal (WordSepNormalizeFunc key) of
                   None \<Rightarrow> None
                 | Some f \<Rightarrow>
                     if rest \<noteq> '''' then map_option (Pair args) (fl_set f (tl rest) opts)
                     else if fl_bool f then map_option (Pair args) (fl_set f ''true'' opts)
                     else (case args of
                             [] \<Rightarrow> None
                           | v # args' \<Rightarrow> map_option (Pair args') (fl_set f v opts)))"

text \<open>The loop with the number of arguments as its fuel; every round uses up one.\<close>

fun parseArgs ::
  "(string \<times> flag) list \<Rightarrow> (string \<Rightarrow> string list \<Rightarrow> Options \<Rightarrow> (string list \<times> Options) option) \<Rightarrow> nat \<Rightarrow>
   string list \<Rightarrow> Options \<Rightarrow> Options option" where
  "parseArgs formal short n [] opts = Some opts"
| "parseArgs formal short 0 (s # args) opts = None"
| "parseArgs formal short (Suc n) (s # args) opts =
     (if length s < 2 \<or> hd s \<noteq> CHR ''-'' then parseArgs formal short n args opts
      else if s = ''--'' then Some opts
      else case (if s ! 1 = CHR ''-'' then parseLongArg formal s args opts else short s args opts) of
             None \<Rightarrow> None
           | Some (args', opts') \<Rightarrow> parseArgs formal short n args' opts')"

section \<open>Building the controller\<close>

record ('w, 'h) kube =
  k_InClusterConfig :: "'w \<Rightarrow> (error + 'h) \<times> 'w"
  k_BuildConfigFromFlags :: "string \<Rightarrow> string \<Rightarrow> 'w \<Rightarrow> (error + 'h) \<times> 'w"
  k_ClientConfig :: "ConfigOverrides \<Rightarrow> 'w \<Rightarrow> (error + 'h) \<times> 'w"
  k_NewForConfig :: "'h \<Rightarrow> 'w \<Rightarrow> (error + 'h) \<times> 'w"
  k_NewSharedInformerFactory :: "'h \<Rightarrow> int \<Rightarrow> 'w \<Rightarrow> 'h \<times> 'w"
  k_service_New :: "AliyunProvider \<Rightarrow> 'h \<Rightarrow> 'h \<Rightarrow> string \<Rightarrow> 'w \<Rightarrow> 'h \<times> 'w"
  k_route_New :: "AliyunProvider \<Rightarrow> 'h \<Rightarrow> 'h \<Rightarrow> string \<Rightarrow> IPNet \<Rightarrow> 'w \<Rightarrow> 'h \<times> 'w"
  k_client_NewForConfig :: "'h \<Rightarrow> 'w \<Rightarrow> (error + 'h) \<times> 'w"
  k_ServerVersion :: "'h \<Rightarrow> 'w \<Rightarrow> (error + string) \<times> 'w"
  k_NewProvisionController :: "'h \<Rightarrow> int \<Rightarrow> string \<Rightarrow> AliyunProvider \<Rightarrow> string \<Rightarrow> bool \<Rightarrow> int \<Rightarrow> int \<Rightarrow> int \<Rightarrow> int \<Rightarrow> int \<Rightarrow>
    'w \<Rightarrow> 'h \<times> 'w"

record 'h Controller =
  c_Options :: Options
  c_provider :: AliyunProvider
  c_k8s :: 'h
  c_sc :: 'h
  c_rc :: 'h
  c_pvc :: "'h option"
  c_shared :: 'h
  c_done :: bool

definition ResyncPeriod :: int where "ResyncPeriod = 30 * Second"
definition DefaultTermLimit :: int where "DefaultTermLimit = 30 * Second"

text \<open>\<^verbatim>\<open>log.Fatalf\<close> ends the process with code 255.\<close>

definition Fatalf :: "('w, 'a) go" where "Fatalf = os_Exit 255"

definition must :: "('w \<Rightarrow> (error + 'a) \<times> 'w) \<Rightarrow> ('w, 'a) go" where
  "must m = bnd (call m) (\<lambda>r. case r of Inl err \<Rightarrow> Fatalf | Inr x \<Rightarrow> ret x)"

definition client_config :: "('w, 'h) kube \<Rightarrow> Options \<Rightarrow> ('w, 'h) go" where
  "client_config K options =
     must (if o_InCluster options then k_InClusterConfig K
           else if o_Kubeconfig options \<noteq> '''' then k_BuildConfigFromFlags K (ClusterInfo_Server (o_Overrides options)) (o_Kubeconfig options)
           else k_ClientConfig K (o_Overrides options))"

definition provision_controller ::
  "('w, 'h) kube \<Rightarrow> Options \<Rightarrow> AliyunProvider \<Rightarrow> 'h \<Rightarrow> ('w, 'h option) go" where
  "provision_controller K options p clientk8s =
     (case Volume p of
        None \<Rightarrow> ret None
      | Some volume \<Rightarrow>
          bnd (must (k_ServerVersion K clientk8s)) (\<lambda>gitVersion.
          let ld = o_LeaderElection options
          in bnd (call (k_NewProvisionController K clientk8s ResyncPeriod (ProvisionerName volume) volume gitVersion False
                    (o_ProvisionRetry options) (LeaseDuration ld) (RenewDeadline ld) (RetryPeriod ld) DefaultTermLimit))
               (\<lambda>pvc. ret (Some pvc))))"

text \<open>\<^verbatim>\<open>service.New\<close>: the controller is made and its handlers are registered, then \<^verbatim>\<open>init\<close> asks for the zone.\<close>

definition service_New ::
  "'w env \<Rightarrow> ('w, 'h) kube \<Rightarrow> AliyunProvider \<Rightarrow> 'h \<Rightarrow> 'h \<Rightarrow> string \<Rightarrow> ('w, error + 'h) go" where
  "service_New E K p kubeClient informers clusterName =
     bnd (call (k_service_New K p kubeClient informers clusterName)) (\<lambda>s.
     bnd (service_init E p) (\<lambda>r. case r of
       Inl err \<Rightarrow> ret (Inl err)
     | Inr (balancer, zone) \<Rightarrow> ret (Inr s)))"

text \<open>Everything after the provider is there.\<close>

definition build_controller :: "'w env \<Rightarrow> ('w, 'h) kube \<Rightarrow> Options \<Rightarrow> AliyunProvider \<Rightarrow> ('w, error + 'h Controller) go" where
  "build_controller E K options p =
     bnd (client_config K options) (\<lambda>clientConfig.
     bnd (must (k_NewForConfig K clientConfig)) (\<lambda>k8s.
     bnd (call (k_NewSharedInformerFactory K k8s ResyncPeriod)) (\<lambda>shared.
     bnd (bnd (service_New E K p k8s shared (Context_Cluster (o_Overrides options))) (\<lambda>r. case r of
            Inl err \<Rightarrow> Fatalf | Inr sc \<Rightarrow> ret sc)) (\<lambda>sc.
     bnd (case Routes p of None \<Rightarrow> Fatalf | Some r \<Rightarrow> ret r) (\<lambda>routes.
     bnd (case ParseCIDR (o_ClusterCIDR options) of Inl err \<Rightarrow> Fatalf | Inr (_, cidr) \<Rightarrow> ret cidr) (\<lambda>clusterCIDR.
     bnd (call (k_route_New K routes k8s shared (Context_Cluster (o_Overrides options)) clusterCIDR)) (\<lambda>rc.
     bnd (must (k_client_NewForConfig K clientConfig)) (\<lambda>clientk8s.
     bnd (provision_controller K options p clientk8s) (\<lambda>pvc.
     ret (Inr \<lparr>c_Options = options, c_provider = p, c_k8s = k8s, c_sc = sc, c_rc = rc, c_pvc = pvc,
               c_shared = shared, c_done = False\<rparr>))))))))))"

definition NewController ::
  "'w env \<Rightarrow> (string \<Rightarrow> string) \<Rightarrow> string \<Rightarrow> ('w, 'h) kube \<Rightarrow> Options \<Rightarrow> ('w, error + 'h Controller) go" where
  "NewController E getenv hostname K options =
     tryE (GetProvider (registered E getenv hostname) ''aliyun'') (build_controller E K options)"

section \<open>The command\<close>

text \<open>
  The four flags that \<^verbatim>\<open>main\<close> registers on a flag set of its own. That set is never parsed, so
  the variables keep their defaults.
\<close>

record main_flags =
  mf_profiling :: bool
  mf_profiling_host :: string
  mf_profiling_port :: int
  mf_test :: bool

definition local_flags :: main_flags where
  "local_flags = \<lparr>mf_profiling = False, mf_profiling_host = ''localhost'', mf_profiling_port = 9801, mf_test = False\<rparr>"

text \<open>
  \<^verbatim>\<open>main\<close> up to \<^verbatim>\<open>c.Run()\<close>; \<open>None\<close> is the return of a dry run. The flags of the logging package
  join the command line as \<open>goflags\<close>. Profiling is off, as its flag is.
\<close>

definition controller_main ::
  "'w env \<Rightarrow> (string \<Rightarrow> string) \<Rightarrow> string \<Rightarrow> ('w, 'h) kube \<Rightarrow> parsers \<Rightarrow> (string \<times> flag) list \<Rightarrow>
   (string \<Rightarrow> string list \<Rightarrow> Options \<Rightarrow> (string list \<times> Options) option) \<Rightarrow> string list \<Rightarrow> ('w, 'h Controller option) go" where
  "controller_main E getenv hostname K P goflags short args =
     (case AddFlags P hostname NewOptions of (opts, formal) \<Rightarrow>
      case parseArgs (formal @ goflags) short (length args) args opts of
        None \<Rightarrow> os_Exit 2
      | Some options \<Rightarrow>
          if mf_test local_flags then ret None
          else bnd (NewController E getenv hostname K options) (\<lambda>r. case r of
                 Inl err \<Rightarrow> panic err
               | Inr c \<Rightarrow> ret (Some c)))"

section \<open>What the command does\<close>

text \<open>A computation that returns a value with a property or ends the process with a fatal log message.\<close>

definition returns_or_fatal :: "('a \<Rightarrow> bool) \<Rightarrow> ('w, 'a) go \<Rightarrow> bool" where
  "returns_or_fatal P m \<longleftrightarrow> (\<forall>w. (\<exists>x w'. m w = (Ret x, w') \<and> P x) \<or> (\<exists>w'. m w = (Exit 255, w')))"

named_theorems fatal_intros

lemma fatal_ret [fatal_intros]: "P x \<Longrightarrow> returns_or_fatal P (ret x)"
  by (simp add: returns_or_fatal_def ret_def)

lemma fatal_call [fatal_intros]: "(\<And>x. P x) \<Longrightarrow> returns_or_fatal P (call f)"
  by (simp add: returns_or_fatal_def call_def case_prod_beta)

lemma fatal_Fatalf [fatal_intros]: "returns_or_fatal P Fatalf"
  by (simp add: returns_or_fatal_def Fatalf_def os_Exit_def)

lemma fatal_bnd:
  assumes "returns_or_fatal Q m" and "\<And>x. Q x \<Longrightarrow> returns_or_fatal P (f x)"
  shows "returns_or_fatal P (bnd m f)"
  unfolding returns_or_fatal_def
proof
  fix w
  from assms(1) consider x w1 where "m w = (Ret x, w1)" "Q x" | w1 where "m w = (Exit 255, w1)"
    unfolding returns_or_fatal_def by blast
  then show "(\<exists>x w'. bnd m f w = (Ret x, w') \<and> P x) \<or> (\<exists>w'. bnd m f w = (Exit 255, w'))"
  proof cases
    case 1
    with assms(2) [OF 1(2)] show ?thesis by (simp add: returns_or_fatal_def bnd_def)
  qed (simp add: bnd_def)
qed

lemma fatal_bnd_any [fatal_intros]:
  "returns_or_fatal (\<lambda>_. True) m \<Longrightarrow> (\<And>x. returns_or_fatal P (f x)) \<Longrightarrow> returns_or_fatal P (bnd m f)"
  by (rule fatal_bnd)

lemma fatal_must [fatal_intros]: "returns_or_fatal (\<lambda>_. True) (must m)"
  unfolding must_def by (rule fatal_bnd_any) (auto intro: fatal_intros split: sum.split)

lemma provision_controller_some: "returns_or_fatal (\<lambda>pvc. pvc \<noteq> None) (provision_controller K options p c)"
  unfolding provision_controller_def Volume_def Let_def option.case
  by (rule fatal_bnd_any [OF fatal_must], rule fatal_bnd_any) (auto intro: fatal_intros)

text \<open>\<^verbatim>\<open>NewController\<close> gives a complete controller or ends the process; it never returns an error.\<close>

definition zone_found :: "'w env \<Rightarrow> AliyunProvider \<Rightarrow> bool" where
  "zone_found E p \<longleftrightarrow> (\<exists>w zone w'. GetZone E p w = (Ret (Inr zone), w'))"

lemma service_New_zone:
  "returns_or_fatal (\<lambda>_. zone_found E p)
     (bnd (service_New E K p k8s shared cluster) (\<lambda>r. case r of Inl err \<Rightarrow> Fatalf | Inr sc \<Rightarrow> ret sc))"
  unfolding returns_or_fatal_def
proof
  fix w
  obtain s w1 where s: "k_service_New K p k8s shared cluster w = (s, w1)" by fastforce
  have "returns (\<lambda>_. True) (GetZone E p)"
    unfolding GetZone_def DescribeVSwitches_def by (auto intro!: returns_intros split: sum.split list.split)
  from returnsD [OF this] obtain r w2 where z: "GetZone E p w1 = (Ret r, w2)" by blast
  with s show "(\<exists>x w'. bnd (service_New E K p k8s shared cluster) (\<lambda>r. case r of Inl err \<Rightarrow> Fatalf | Inr sc \<Rightarrow> ret sc) w =
      (Ret x, w') \<and> zone_found E p) \<or>
    (\<exists>w'. bnd (service_New E K p k8s shared cluster) (\<lambda>r. case r of Inl err \<Rightarrow> Fatalf | Inr sc \<Rightarrow> ret sc) w = (Exit 255, w'))"
    by (cases r) (auto simp: service_New_def service_init_def LoadBalancer_def Zones_def bnd_def call_def ret_def Fatalf_def
        os_Exit_def zone_found_def)
qed

lemma build_controller_complete:
  assumes "wf_provider p"
  shows "returns_or_fatal (\<lambda>r. \<exists>c. r = Inr c \<and> c_Options c = options \<and> wf_provider (c_provider c) \<and> c_pvc c \<noteq> None \<and> \<not> c_done c \<and>
       zone_found E (c_provider c) \<and> (\<exists>ip cidr. ParseCIDR (o_ClusterCIDR options) = Inr (ip, cidr)))
     (build_controller E K options p)"
proof -
  note any = fatal_bnd_any [OF fatal_must] fatal_bnd_any [OF fatal_call [OF TrueI]]
  have "returns_or_fatal (\<lambda>cidr. \<exists>ip. ParseCIDR (o_ClusterCIDR options) = Inr (ip, cidr))
      (case ParseCIDR (o_ClusterCIDR options) of Inl err \<Rightarrow> Fatalf | Inr (_, cidr) \<Rightarrow> ret cidr)"
    by (auto intro: fatal_intros split: sum.split)
  note cidr = fatal_bnd [OF this]
  show ?thesis
    unfolding build_controller_def client_config_def Routes_def option.case bnd_ret
    by (intro any cidr fatal_bnd [OF service_New_zone] fatal_bnd [OF provision_controller_some] fatal_ret) (auto simp: assms)
qed

lemma NewController_complete:
  "returns_or_fatal (\<lambda>r. \<exists>c. r = Inr c \<and> c_Options c = options \<and> wf_provider (c_provider c) \<and> c_pvc c \<noteq> None \<and> \<not> c_done c \<and>
       zone_found E (c_provider c) \<and> (\<exists>ip cidr. ParseCIDR (o_ClusterCIDR options) = Inr (ip, cidr)))
     (NewController E getenv hostname K options)"
proof -
  have "returns_or_fatal wf_provider (NewProvider E getenv hostname)"
    unfolding returns_or_fatal_def using returnsD [OF NewProvider_wf [of E getenv hostname]] by blast
  then show ?thesis
    unfolding NewController_def tryE_def GetProvider_registered bnd_assoc bnd_ret sum.case
    by (rule fatal_bnd) (rule build_controller_complete)
qed

lemma default_cidr: "ParseCIDR (o_ClusterCIDR NewOptions) = Inl ''invalid CIDR address: ''"
  by (simp add: NewOptions_def ParseCIDR_def)

text \<open>The fuel of the argument loop is enough.\<close>

lemma parseLongArg_length: "parseLongArg formal s args opts = Some (args', opts') \<Longrightarrow> length args' \<le> length args"
  by (auto simp: parseLongArg_def Let_def split: if_splits option.splits list.splits)

lemma parseArgs_fuel:
  assumes "\<And>s args opts args' opts'. short s args opts = Some (args', opts') \<Longrightarrow> length args' \<le> length args"
    and "length args \<le> n" and "length args \<le> m"
  shows "parseArgs formal short n args opts = parseArgs formal short m args opts"
  using assms(2,3)
proof (induction n arbitrary: args opts m)
  case 0
  then show ?case by simp
next
  case (Suc n)
  show ?case
  proof (cases args)
    case (Cons s rest)
    with Suc.prems obtain m' where m: "m = Suc m'" by (cases m) auto
    have l: "length args' \<le> length rest"
      if "(if s ! 1 = CHR ''-'' then parseLongArg formal s rest opts else short s rest opts) = Some (args', opts')"
      for args' opts'
      using that assms(1) parseLongArg_length by (cases "s ! 1 = CHR ''-''") auto
    show ?thesis
      unfolding Cons m parseArgs.simps
      using Suc.prems Cons m by (intro if_cong refl Suc.IH option.case_cong) (auto intro!: Suc.IH dest!: l [simplified One_nat_def])
  qed simp
qed

text \<open>The flag for a dry run is unknown to the command line.\<close>

lemma unknown_test_flag:
  "''test'' \<notin> fst ` set goflags \<Longrightarrow>
   parseLongArg (snd (AddFlags P hostname opts) @ goflags) ''--test'' args opts' = None"
  using map_of_eq_None_iff [of goflags "''test''"]
  by (simp add: parseLongArg_def WordSepNormalizeFunc_def AddFlags_def BindFlags_def BindOverrideFlags_def)

lemma controller_main_test:
  assumes "''test'' \<notin> fst ` set goflags"
  shows "controller_main E getenv hostname K P goflags short (''--test'' # args) w = (Exit 2, w)"
  using unknown_test_flag [OF assms, of P hostname NewOptions args]
  by (simp add: controller_main_def os_Exit_def case_prod_beta)

end
