(* ===== verification/Leader_Safety.thy ===== *)
theory Leader_Safety
  imports Leader_Election
begin

text \<open>
  At most one replica leads. The proof is an invariant of the transition system: what is known
  of each replica (its timing, the write it is about to make, the record it has observed) and
  of the lock. The theory ends with the sequential \<^verbatim>\<open>tryAcquireOrRenew\<close> as a run of the system.
\<close>

section \<open>Records grow\<close>

text \<open>
  Every write that changes the stored record makes it later: by the number of transitions, or
  by the second of the renewal. So a record that was replaced never comes back.
\<close>

definition earlier_eq :: "LeaderElectionRecord \<Rightarrow> LeaderElectionRecord \<Rightarrow> bool" where
  "earlier_eq a b \<longleftrightarrow> LeaderTransitions a < LeaderTransitions b \<or>
     LeaderTransitions a = LeaderTransitions b \<and> RenewTime a div Second \<le> RenewTime b div Second"

lemma earlier_eq_refl [simp]: "earlier_eq a a"
  by (simp add: earlier_eq_def)

lemma earlier_eq_trans: "earlier_eq a b \<Longrightarrow> earlier_eq b c \<Longrightarrow> earlier_eq a c"
  by (auto simp: earlier_eq_def)

lemma Second_pos [simp]: "0 < Second"
  by (simp add: Second_def)

lemma trunc_div [simp]: "trunc t div Second = t div Second"
  by (simp add: trunc_def Second_def)

lemma trunc_trunc [simp]: "trunc (trunc t) = trunc t"
  by (simp add: trunc_def Second_def)

lemma second_nonneg [simp]: "0 \<le> t \<Longrightarrow> 0 \<le> t div Second"
  by (simp add: Second_def)

lemma trunc_bounds: "trunc t \<le> t" "t < trunc t + Second"
proof -
  have "t = trunc t + t mod Second" by (simp add: trunc_def)
  moreover have "0 \<le> t mod Second" "t mod Second < Second" by simp_all
  ultimately show "trunc t \<le> t" "t < trunc t + Second" by linarith+
qed

lemma stored_simps [simp]:
  "HolderIdentity (stored r) = HolderIdentity r" "LeaseDurationSeconds (stored r) = LeaseDurationSeconds r"
  "LeaderTransitions (stored r) = LeaderTransitions r" "RenewTime (stored r) = trunc (RenewTime r)"
  "AcquireTime (stored r) = trunc (AcquireTime r)" "stored (stored r) = stored r"
  by (simp_all add: stored_def)

lemma new_record_simps [simp]:
  "HolderIdentity (new_record cfg c now) = c" "RenewTime (new_record cfg c now) = now"
  "LeaseDurationSeconds (new_record cfg c now) = LeaseDuration cfg div Second"
  "LeaderTransitions (new_record cfg c now) = 0"
  by (simp_all add: new_record_def)

lemma next_record_simps [simp]:
  "HolderIdentity (next_record cfg c old now) = c" "RenewTime (next_record cfg c old now) = now"
  "LeaseDurationSeconds (next_record cfg c old now) = LeaseDuration cfg div Second"
  by (simp_all add: next_record_def new_record_def)

lemma earlier_eq_stored [simp]: "earlier_eq r (stored r)" "earlier_eq (stored r) r"
  by (simp_all add: earlier_eq_def)

section \<open>The invariant\<close>

definition lock_ok :: "LeaderElectionConfig \<Rightarrow> int \<Rightarrow> (LeaderElectionRecord \<times> nat) option \<Rightarrow> int \<Rightarrow> bool" where
  "lock_ok cfg t lock since \<longleftrightarrow> 0 \<le> since \<and> since \<le> t \<and>
     (\<forall>r v. lock = Some (r, v) \<longrightarrow>
        (if HolderIdentity r = '''' then r = zero_record
         else stored r = r \<and> LeaseDurationSeconds r = LeaseDuration cfg div Second \<and> RenewTime r \<le> since))"

definition attempt_last :: "replica \<Rightarrow> bool" where
  "attempt_last e = (case le_attempt e of Idle \<Rightarrow> False | Started _ f \<Rightarrow> f | Writing _ f _ _ \<Rightarrow> f)"

definition timed :: "LeaderElectionConfig \<Rightarrow> int \<Rightarrow> int \<Rightarrow> replica \<Rightarrow> bool" where
  "timed cfg D t e \<longleftrightarrow>
     (\<forall>now. in_attempt e = Some now \<longrightarrow> 0 \<le> now \<and> now \<le> t \<and> t \<le> now + D) \<and>
     (le_phase e = Leading \<longrightarrow>
        (case in_attempt e of
           None \<Rightarrow> t \<le> le_poll e + RenewDeadline cfg + D
         | Some now \<Rightarrow> now \<le> le_poll e + RenewDeadline cfg + (if attempt_last e then D else 0)))"

definition writing_ok :: "LeaderElectionConfig \<Rightarrow> (LeaderElectionRecord \<times> nat) option \<Rightarrow> string \<Rightarrow> replica \<Rightarrow> bool" where
  "writing_ok cfg lock c e \<longleftrightarrow>
     (\<forall>now f r version. le_attempt e = Writing now f r version \<longrightarrow>
        (case version of
           None \<Rightarrow> r = new_record cfg c now
         | Some v \<Rightarrow> \<exists>old v'. lock = Some (old, v') \<and> v \<le> v' \<and>
             (v = v' \<longrightarrow> r = next_record cfg c old now \<and> observedRecord e = old \<and> \<not> held_by_other cfg c old now e)))"

definition observed_ok :: "(LeaderElectionRecord \<times> nat) option \<Rightarrow> int \<Rightarrow> replica \<Rightarrow> bool" where
  "observed_ok lock since e \<longleftrightarrow>
     (case lock of
        None \<Rightarrow> observedRecord e = zero_record
      | Some (r, _) \<Rightarrow> earlier_eq (observedRecord e) r \<and>
          (HolderIdentity r \<noteq> '''' \<and> observedRecord e = r \<longrightarrow> since \<le> observedTime e))"

definition holder_ok :: "(LeaderElectionRecord \<times> nat) option \<Rightarrow> string \<Rightarrow> replica \<Rightarrow> bool" where
  "holder_ok lock c e \<longleftrightarrow>
     (\<forall>r v now. lock = Some (r, v) \<and> HolderIdentity r = c \<and> in_attempt e = Some now \<longrightarrow> RenewTime r \<le> now)"

definition leading_ok :: "int \<Rightarrow> (LeaderElectionRecord \<times> nat) option \<Rightarrow> int \<Rightarrow> string \<Rightarrow> replica \<Rightarrow> bool" where
  "leading_ok D lock since c e \<longleftrightarrow>
     (le_phase e = Leading \<longrightarrow>
        (\<exists>r v. lock = Some (r, v) \<and> HolderIdentity r = c \<and> c \<noteq> '''' \<and> le_poll e \<le> since + Second + D))"

definition replica_ok ::
  "LeaderElectionConfig \<Rightarrow> int \<Rightarrow> int \<Rightarrow> (LeaderElectionRecord \<times> nat) option \<Rightarrow> int \<Rightarrow> string \<Rightarrow> replica \<Rightarrow> bool" where
  "replica_ok cfg D t lock since c e \<longleftrightarrow>
     timed cfg D t e \<and> writing_ok cfg lock c e \<and> observed_ok lock since e \<and> holder_ok lock c e \<and>
     leading_ok D lock since c e \<and> (in_attempt e \<noteq> None \<longrightarrow> c \<noteq> '''')"

definition election_inv :: "LeaderElectionConfig \<Rightarrow> int \<Rightarrow> system \<Rightarrow> bool" where
  "election_inv cfg D s \<longleftrightarrow>
     lock_ok cfg (s_time s) (s_lock s) (s_since s) \<and>
     (\<forall>c. replica_ok cfg D (s_time s) (s_lock s) (s_since s) c (s_replica s c))"

lemma in_attempt_simps [simp]:
  "le_attempt e = Idle \<Longrightarrow> in_attempt e = None"
  "le_attempt e = Started now f \<Longrightarrow> in_attempt e = Some now"
  "le_attempt e = Writing now f r version \<Longrightarrow> in_attempt e = Some now"
  "le_attempt e = Started now f \<Longrightarrow> attempt_last e = f"
  "le_attempt e = Writing now f r version \<Longrightarrow> attempt_last e = f"
  by (simp_all add: in_attempt_def attempt_last_def)

lemma observed_ok_update [simp]:
  "observed_ok lock since (e\<lparr>le_attempt := a\<rparr>) = observed_ok lock since e"
  "observed_ok lock since (e\<lparr>le_phase := ph\<rparr>) = observed_ok lock since e"
  by (simp_all add: observed_ok_def split: option.split)

lemma held_by_other_update [simp]:
  "held_by_other cfg c old now (e\<lparr>le_attempt := a\<rparr>) = held_by_other cfg c old now e"
  by (simp add: held_by_other_def)

lemma in_attempt_phase [simp]:
  "in_attempt (e\<lparr>le_phase := ph\<rparr>) = in_attempt e" "attempt_last (e\<lparr>le_phase := ph\<rparr>) = attempt_last e"
  by (simp_all add: in_attempt_def attempt_last_def)

lemma observe_simps [simp]:
  "observedRecord (observe old t e) = old" "le_attempt (observe old t e) = le_attempt e"
  "le_phase (observe old t e) = le_phase e" "le_poll (observe old t e) = le_poll e"
  "in_attempt (observe old t e) = in_attempt e" "attempt_last (observe old t e) = attempt_last e"
  for e :: replica
  by (simp_all add: observe_def in_attempt_def attempt_last_def)

section \<open>Steps of one replica\<close>

text \<open>
  What an election needs of its durations: an attempt takes at most \<open>D\<close>, and the lease outlasts
  the deadline for a renewal by three attempts and a second.
\<close>

locale election =
  fixes cfg :: LeaderElectionConfig and D :: int
  assumes attempt_time: "0 \<le> D" and deadline: "0 \<le> RenewDeadline cfg"
    and lease: "RenewDeadline cfg + 3 * D + Second < LeaseDuration cfg"
begin

lemma inv_set_replica:
  assumes "election_inv cfg D s" and "replica_ok cfg D (s_time s) (s_lock s) (s_since s) c e"
  shows "election_inv cfg D (set_replica s c e)"
  using assms by (simp add: election_inv_def set_replica_def)

lemma replica_tick:
  assumes "replica_ok cfg D t lock since c e" and "may_wait cfg D (t + d) e" and "0 < d"
  shows "replica_ok cfg D (t + d) lock since c e"
  using assms attempt_time by (auto simp: replica_ok_def timed_def may_wait_def split: option.splits)

lemma replica_start:
  assumes "replica_ok cfg D t lock since c e" and "le_attempt e = Idle" and "c \<noteq> ''''"
    and "lock_ok cfg t lock since" and "f \<longleftrightarrow> le_phase e = Leading \<and> le_poll e + RenewDeadline cfg \<le> t"
  shows "replica_ok cfg D t lock since c (e\<lparr>le_attempt := Started t f\<rparr>)"
proof -
  have "RenewTime r \<le> t" if "lock = Some (r, v)" "HolderIdentity r = c" for r v
    using assms(3,4) that by (auto simp: lock_ok_def split: if_splits)
  with assms attempt_time show ?thesis
    by (auto simp: replica_ok_def timed_def writing_ok_def holder_ok_def leading_ok_def lock_ok_def)
qed

lemma replica_fail:
  assumes "replica_ok cfg D t lock since c e" and "in_attempt e = Some now" and "f = attempt_last e"
  shows "replica_ok cfg D t lock since c (fail_attempt f e)"
  using assms attempt_time
  by (auto simp: replica_ok_def timed_def writing_ok_def holder_ok_def leading_ok_def fail_attempt_def)

lemma replica_observe:
  assumes "replica_ok cfg D t lock since c e" and "lock = Some (old, v)" and "lock_ok cfg t lock since"
    and "le_attempt e = Started now f"
  shows "replica_ok cfg D t lock since c (observe old t e)"
proof -
  have "observed_ok lock since (observe old t e)"
    using assms by (auto simp: replica_ok_def observed_ok_def observe_def lock_ok_def)
  with assms show ?thesis
    by (simp add: replica_ok_def timed_def writing_ok_def holder_ok_def leading_ok_def)
qed

lemma replica_prepare:
  assumes "replica_ok cfg D t lock since c e" and "le_attempt e = Started now f"
    and "case version of None \<Rightarrow> r = new_record cfg c now
         | Some v \<Rightarrow> \<exists>old. lock = Some (old, v) \<and> r = next_record cfg c old now \<and> observedRecord e = old \<and>
             \<not> held_by_other cfg c old now e"
  shows "replica_ok cfg D t lock since c (e\<lparr>le_attempt := Writing now f r version\<rparr>)"
  using assms
  by (simp add: replica_ok_def timed_def writing_ok_def holder_ok_def leading_ok_def split: option.splits)

lemma replica_crash:
  assumes "replica_ok cfg D t lock since c e"
  shows "replica_ok cfg D t lock since c (e\<lparr>le_attempt := Idle, le_phase := Stopped\<rparr>)"
  using assms by (simp add: replica_ok_def timed_def writing_ok_def holder_ok_def leading_ok_def)

text \<open>While a replica leads, its last success is not older than the deadline and two attempts.\<close>

lemma leading_time:
  assumes "timed cfg D t e" and "le_phase e = Leading"
  shows "t \<le> le_poll e + RenewDeadline cfg + 2 * D"
proof (cases "in_attempt e")
  case None
  with assms attempt_time show ?thesis by (simp add: timed_def)
next
  case (Some now)
  with assms attempt_time show ?thesis by (fastforce simp: timed_def split: if_splits)
qed

end

section \<open>Writes\<close>

text \<open>The time when the content of the lock was first stored, after a write.\<close>

definition since_after :: "int \<Rightarrow> (LeaderElectionRecord \<times> nat) option \<Rightarrow> int \<Rightarrow> LeaderElectionRecord \<Rightarrow> int" where
  "since_after t lock since r = (if map_option fst lock = Some (stored r) then since else t)"

context election
begin

lemma accepted_cases:
  assumes "writing_ok cfg lock c e" and "le_attempt e = Writing now f r version" and "accepts lock version"
  obtains (create) "lock = None" "r = new_record cfg c now"
    | (update) old v where "lock = Some (old, v)" "r = next_record cfg c old now" "observedRecord e = old"
        "\<not> held_by_other cfg c old now e"
  using assms by (cases version) (auto simp: writing_ok_def accepts_def)

lemma written_fields:
  assumes "writing_ok cfg lock c e" and "le_attempt e = Writing now f r version" and "accepts lock version"
  shows "HolderIdentity r = c \<and> RenewTime r = now \<and> LeaseDurationSeconds r = LeaseDuration cfg div Second"
  by (rule accepted_cases [OF assms]) auto

text \<open>A write over a record makes it later, unless it stores the same again.\<close>

lemma written_later:
  assumes "lock_ok cfg t (Some (old, v)) since" and "holder_ok (Some (old, v)) c e" and "in_attempt e = Some now"
    and "c \<noteq> ''''" and "r = next_record cfg c old now"
  shows "earlier_eq old (stored r)" and "earlier_eq (stored r) old \<Longrightarrow> stored r = old"
proof -
  have "earlier_eq old (stored r) \<and> (earlier_eq (stored r) old \<longrightarrow> stored r = old)"
  proof (cases "HolderIdentity old = c")
    case True
    with assms have o: "stored old = old" "LeaseDurationSeconds old = LeaseDuration cfg div Second" "RenewTime old \<le> now"
      by (auto simp: lock_ok_def holder_ok_def)
    then have "RenewTime old div Second \<le> now div Second" by (intro zdiv_mono1) auto
    moreover have "stored r = old" if "now div Second = RenewTime old div Second"
    proof -
      from o(1) have "trunc (AcquireTime old) = AcquireTime old" "trunc (RenewTime old) = RenewTime old"
        by (metis stored_simps(5), metis stored_simps(4))
      with that True assms(5) o(2) show ?thesis
        by (intro LeaderElectionRecord.equality) (simp_all add: next_record_def trunc_def new_record_def)
    qed
    moreover have "LeaderTransitions r = LeaderTransitions old" using True assms(5) by (simp add: next_record_def)
    ultimately show ?thesis using assms(5) by (auto simp: earlier_eq_def)
  next
    case False
    then show ?thesis using assms(5) by (simp add: earlier_eq_def next_record_def)
  qed
  then show "earlier_eq old (stored r)" and "earlier_eq (stored r) old \<Longrightarrow> stored r = old" by auto
qed

lemma write_lock_ok:
  assumes "lock_ok cfg t lock since" and "replica_ok cfg D t lock since c e"
    and "le_attempt e = Writing now f r version" and "accepts lock version"
  shows "lock_ok cfg t (Some (stored r, v)) (since_after t lock since r)"
proof -
  have c: "c \<noteq> ''''" and now: "now \<le> t" using assms(2,3) by (auto simp: replica_ok_def timed_def)
  from assms(2) have "writing_ok cfg lock c e" by (simp add: replica_ok_def)
  from written_fields [OF this assms(3,4)] have w: "HolderIdentity r = c" "RenewTime r = now"
    "LeaseDurationSeconds r = LeaseDuration cfg div Second" by auto
  have "trunc now \<le> since_after t lock since r"
  proof (cases "map_option fst lock = Some (stored r)")
    case True
    then obtain v where l: "lock = Some (stored r, v)" by auto
    with assms(1) c w have "RenewTime (stored r) \<le> since" by (auto simp: lock_ok_def split: if_splits)
    with l w show ?thesis by (simp add: since_after_def)
  next
    case False
    then have "since_after t lock since r = t" by (simp add: since_after_def)
    with trunc_bounds(1) [of now] now show ?thesis by linarith
  qed
  with assms(1) c w show ?thesis by (auto simp: lock_ok_def since_after_def)
qed

text \<open>What other replicas have observed stays right, because a new record is a later one.\<close>

lemma write_observed:
  assumes "lock_ok cfg t lock since" and "replica_ok cfg D t lock since c e"
    and "le_attempt e = Writing now f r version" and "accepts lock version" and "observed_ok lock since e'"
  shows "observed_ok (Some (stored r, v)) (since_after t lock since r) e'"
proof -
  have c: "c \<noteq> ''''" and now: "0 \<le> now" using assms(2,3) by (auto simp: replica_ok_def timed_def)
  from assms(2) have "writing_ok cfg lock c e" by (simp add: replica_ok_def)
  then show ?thesis
  proof (cases rule: accepted_cases [OF _ assms(3,4), consumes 1, case_names create update])
    case create
    moreover from create assms(5) have "observedRecord e' = zero_record" by (simp add: observed_ok_def)
    moreover have "zero_record \<noteq> stored (new_record cfg c now)"
      using c by (auto simp: zero_record_def dest: arg_cong [where f = HolderIdentity])
    ultimately show ?thesis using now by (simp add: observed_ok_def earlier_eq_def zero_record_def)
  next
    case (update old v0)
    have h: "holder_ok (Some (old, v0)) c e" using assms(2) update(1) by (simp add: replica_ok_def)
    have later: "earlier_eq old (stored r)" "earlier_eq (stored r) old \<Longrightarrow> stored r = old"
      using written_later [OF _ h _ c update(2)] assms(1,3) update(1) by auto
    from assms(5) update(1) have o: "earlier_eq (observedRecord e') old"
      and s: "HolderIdentity old \<noteq> '''' \<and> observedRecord e' = old \<longrightarrow> since \<le> observedTime e'"
      by (auto simp: observed_ok_def)
    have "since_after t lock since r \<le> observedTime e'" if "observedRecord e' = stored r"
    proof -
      from that o later(2) have old: "stored r = old" by simp
      then have "HolderIdentity old = c" using update(2) by (metis stored_simps(1) next_record_simps(1))
      with that old s c update(1) show ?thesis by (simp add: since_after_def)
    qed
    with earlier_eq_trans [OF o later(1)] show ?thesis by (simp add: observed_ok_def)
  qed
qed

text \<open>Nobody can write over the record of a leader: the lease has not expired.\<close>

lemma no_takeover:
  assumes "lock_ok cfg t lock since" and "replica_ok cfg D t lock since c e"
    and "le_attempt e = Writing now f r version" and "accepts lock version"
    and "replica_ok cfg D t lock since d e'" and "le_phase e' = Leading"
  shows "d = c"
proof (rule ccontr)
  assume ne: "d \<noteq> c"
  from assms(5,6) obtain old v where l: "lock = Some (old, v)" "HolderIdentity old = d" "d \<noteq> ''''"
    and p: "le_poll e' \<le> since + Second + D"
    by (auto simp: replica_ok_def leading_ok_def)
  from assms(2) have "writing_ok cfg lock c e" by (simp add: replica_ok_def)
  then have o: "observedRecord e = old \<and> \<not> held_by_other cfg c old now e"
    by (rule accepted_cases [OF _ assms(3,4)]) (use l(1) in auto)
  then have "observedTime e + LeaseDuration cfg \<le> now" using ne l(2) by (simp add: held_by_other_def)
  moreover have "since \<le> observedTime e"
    using assms(2) l o by (simp add: replica_ok_def observed_ok_def)
  moreover have "now \<le> t" using assms(2,3) by (auto simp: replica_ok_def timed_def)
  moreover have "t \<le> le_poll e' + RenewDeadline cfg + 2 * D"
    using assms(5,6) by (intro leading_time) (simp_all add: replica_ok_def)
  ultimately show False using p lease by linarith
qed

lemma write_other:
  assumes "lock_ok cfg t lock since" and "replica_ok cfg D t lock since c e"
    and "le_attempt e = Writing now f r version" and "accepts lock version"
    and "replica_ok cfg D t lock since d e'" and "d \<noteq> c" and v: "\<And>old v0. lock = Some (old, v0) \<Longrightarrow> v0 < v"
  shows "replica_ok cfg D t (Some (stored r, v)) (since_after t lock since r) d e'"
proof -
  have "le_phase e' \<noteq> Leading" using no_takeover [OF assms(1-5)] assms(6) by blast
  moreover have "writing_ok cfg lock c e" using assms(2) by (simp add: replica_ok_def)
  then have "HolderIdentity r = c" using written_fields [OF _ assms(3,4)] by blast
  moreover have "observed_ok (Some (stored r, v)) (since_after t lock since r) e'"
    using assms(5) by (intro write_observed [OF assms(1-4)]) (simp add: replica_ok_def)
  moreover have "writing_ok cfg (Some (stored r, v)) d e'"
    using assms(5) v unfolding replica_ok_def writing_ok_def by (fastforce split: option.splits)
  ultimately show ?thesis using assms(5,6) by (simp add: replica_ok_def holder_ok_def leading_ok_def)
qed

end

context election
begin

lemma write_succeed:
  assumes "lock_ok cfg t lock since" and "replica_ok cfg D t lock since c e"
    and "le_attempt e = Writing now f r version" and "accepts lock version"
  shows "replica_ok cfg D t (Some (stored r, v)) (since_after t lock since r) c (succeed r t e)"
proof -
  have c: "c \<noteq> ''''" and now: "now \<le> t" "t \<le> now + D" using assms(2,3) by (auto simp: replica_ok_def timed_def)
  from assms(2) have "writing_ok cfg lock c e" by (simp add: replica_ok_def)
  then have w: "HolderIdentity r = c" "RenewTime r = now" using written_fields [OF _ assms(3,4)] by auto
  have "lock_ok cfg t (Some (stored r, v)) (since_after t lock since r)" by (rule write_lock_ok [OF assms])
  then have s: "since_after t lock since r \<le> t" "trunc now \<le> since_after t lock since r"
    using c w by (auto simp: lock_ok_def)
  with trunc_bounds(2) [of now] now have "t \<le> since_after t lock since r + Second + D" by linarith
  with s c w attempt_time deadline show ?thesis
    by (simp add: replica_ok_def timed_def writing_ok_def observed_ok_def holder_ok_def leading_ok_def succeed_def)
qed

lemma write_fail:
  assumes "lock_ok cfg t lock since" and "replica_ok cfg D t lock since c e"
    and "le_attempt e = Writing now f r version" and "accepts lock version"
  shows "replica_ok cfg D t (Some (stored r, v)) (since_after t lock since r) c (fail_attempt f e)"
proof -
  have c: "c \<noteq> ''''" using assms(2,3) by (auto simp: replica_ok_def)
  from assms(2) have "writing_ok cfg lock c e" by (simp add: replica_ok_def)
  then have w: "HolderIdentity r = c" using written_fields [OF _ assms(3,4)] by auto
  have "since \<le> since_after t lock since r" using assms(1) by (simp add: lock_ok_def since_after_def)
  moreover have "replica_ok cfg D t lock since c (fail_attempt f e)"
    using assms(2,3) by (intro replica_fail) auto
  moreover from this have "observed_ok (Some (stored r, v)) (since_after t lock since r) (fail_attempt f e)"
    by (intro write_observed [OF assms]) (simp add: replica_ok_def)
  ultimately show ?thesis using w c
    by (auto simp: replica_ok_def writing_ok_def holder_ok_def leading_ok_def fail_attempt_def)
qed

lemma inv_write:
  assumes "election_inv cfg D s" and "le_attempt (s_replica s c) = Writing now f r version" and "accepts (s_lock s) version"
    and "e = succeed r (s_time s) (s_replica s c) \<or> e = fail_attempt f (s_replica s c)"
  shows "election_inv cfg D (set_replica (write_lock s r) c e)"
proof -
  let ?v = "case s_lock s of None \<Rightarrow> 0 | Some (_, v) \<Rightarrow> v + 1"
  from assms(1) have l: "lock_ok cfg (s_time s) (s_lock s) (s_since s)"
    and rep: "\<And>d. replica_ok cfg D (s_time s) (s_lock s) (s_since s) d (s_replica s d)"
    by (auto simp: election_inv_def)
  have w: "s_lock (write_lock s r) = Some (stored r, ?v)" "s_time (write_lock s r) = s_time s"
    "s_since (write_lock s r) = since_after (s_time s) (s_lock s) (s_since s) r" "s_replica (write_lock s r) = s_replica s"
    by (simp_all add: write_lock_def since_after_def)
  have "replica_ok cfg D (s_time s) (Some (stored r, ?v)) (since_after (s_time s) (s_lock s) (s_since s) r) c e"
    using assms(4) write_succeed [OF l rep assms(2,3)] write_fail [OF l rep assms(2,3)] by blast
  moreover have "replica_ok cfg D (s_time s) (Some (stored r, ?v)) (since_after (s_time s) (s_lock s) (s_since s) r) d (s_replica s d)"
    if "d \<noteq> c" for d
    by (rule write_other [OF l rep assms(2,3) rep that]) simp
  ultimately show ?thesis
    using write_lock_ok [OF l rep assms(2,3)] by (simp add: election_inv_def set_replica_def w)
qed

lemma inv_step:
  assumes "step cfg D s s'" and inv: "election_inv cfg D s"
  shows "election_inv cfg D s'"
proof -
  have l: "lock_ok cfg (s_time s) (s_lock s) (s_since s)"
    and rep: "\<And>d. replica_ok cfg D (s_time s) (s_lock s) (s_since s) d (s_replica s d)"
    using inv by (auto simp: election_inv_def)
  show ?thesis using assms(1)
  proof cases
    case (tick d)
    have "replica_ok cfg D (s_time s + d) (s_lock s) (s_since s) c (s_replica s c)" for c
      using replica_tick [OF rep] tick by blast
    with l tick show ?thesis by (simp add: election_inv_def lock_ok_def)
  next
    case (start c e)
    show ?thesis unfolding start(1) using start l
      by (intro inv_set_replica [OF inv] replica_start) (auto intro: rep)
  next
    case (start_acquire c e)
    show ?thesis unfolding start_acquire(1) using start_acquire l
      by (intro inv_set_replica [OF inv] replica_start) (auto intro: rep)
  next
    case (get_error e c now f)
    show ?thesis unfolding get_error(1) using get_error
      by (intro inv_set_replica [OF inv] replica_fail) (auto intro: rep)
  next
    case (get_absent e c now f)
    show ?thesis unfolding get_absent(1) using get_absent rep [of c]
      by (intro inv_set_replica [OF inv] replica_prepare) auto
  next
    case (get_held e old c now f v)
    have "replica_ok cfg D (s_time s) (s_lock s) (s_since s) c e"
      unfolding get_held(2) using get_held l rep [of c] by (intro replica_observe) auto
    with get_held show ?thesis unfolding get_held(1)
      by (intro inv_set_replica [OF inv] replica_fail) auto
  next
    case (get_free e old c now f v)
    have "replica_ok cfg D (s_time s) (s_lock s) (s_since s) c e"
      unfolding get_free(2) using get_free l rep [of c] by (intro replica_observe) auto
    with get_free show ?thesis unfolding get_free(1)
      by (intro inv_set_replica [OF inv] replica_prepare) auto
  next
    case (write_ok e c now f r version)
    then show ?thesis unfolding write_ok(1) using inv by (intro inv_write) auto
  next
    case (write_lost e c now f r version)
    then show ?thesis unfolding write_lost(1) using inv by (intro inv_write) auto
  next
    case (write_error e c now f r version)
    then show ?thesis unfolding write_error(1) using rep
      by (intro inv_set_replica [OF inv] replica_fail) auto
  next
    case (crash c)
    then show ?thesis using rep by (auto intro: inv_set_replica [OF inv] replica_crash)
  qed
qed

lemma inv_initial: "initial s \<Longrightarrow> election_inv cfg D s"
  by (auto simp: initial_def election_inv_def lock_ok_def replica_ok_def timed_def writing_ok_def observed_ok_def
      holder_ok_def leading_ok_def new_replica_def in_attempt_def zero_record_def)

lemma inv_reachable: "reachable cfg D s \<Longrightarrow> election_inv cfg D s"
  by (induction rule: reachable.induct) (auto intro: inv_initial inv_step)

end

section \<open>At most one leader\<close>

context election
begin

lemma leader_holds:
  assumes "reachable cfg D s" and "le_phase (s_replica s c) = Leading"
  shows "map_option (HolderIdentity \<circ> fst) (s_lock s) = Some c" and
    "s_time s \<le> le_poll (s_replica s c) + RenewDeadline cfg + 2 * D"
proof -
  from inv_reachable [OF assms(1)]
  have r: "replica_ok cfg D (s_time s) (s_lock s) (s_since s) c (s_replica s c)" by (simp add: election_inv_def)
  with assms(2) show "map_option (HolderIdentity \<circ> fst) (s_lock s) = Some c"
    by (auto simp: replica_ok_def leading_ok_def)
  from r assms(2) show "s_time s \<le> le_poll (s_replica s c) + RenewDeadline cfg + 2 * D"
    by (intro leading_time) (simp_all add: replica_ok_def)
qed

lemma single_leader:
  assumes "reachable cfg D s" and "le_phase (s_replica s c) = Leading" and "le_phase (s_replica s d) = Leading"
  shows "c = d"
  using leader_holds(1) [OF assms(1,2)] leader_holds(1) [OF assms(1,3)] by simp

end

text \<open>The default durations allow attempts of one second.\<close>

interpretation default: election DefaultLeaderElectionConfiguration Second
  by unfold_locales (simp_all add: DefaultLeaderElectionConfiguration_def Second_def)

section \<open>An attempt without disturbance\<close>

text \<open>
  The lock on the Endpoints object (\<^verbatim>\<open>EndpointsLock\<close>) against an API server that answers at
  once. The second component is the version of the object that the lock has cached.
\<close>

definition endpoints_lock :: "(system \<times> nat option) resource_lock" where
  "endpoints_lock =
     \<lparr>lock_Get = (\<lambda>(s, e). case s_lock s of None \<Rightarrow> (Inl True, (s, None)) | Some (r, v) \<Rightarrow> (Inr r, (s, Some v))),
      lock_Create = (\<lambda>r (s, e). case s_lock s of
          None \<Rightarrow> (True, (write_lock s r, map_option snd (s_lock (write_lock s r))))
        | Some _ \<Rightarrow> (False, (s, e))),
      lock_Update = (\<lambda>r (s, e). case e of
          None \<Rightarrow> (False, (s, e))
        | Some v \<Rightarrow> if accepts (s_lock s) (Some v)
                    then (True, (write_lock s r, map_option snd (s_lock (write_lock s r))))
                    else (False, (s, None))),
      lock_Now = (\<lambda>(s, e). s_time s)\<rparr>"

text \<open>May the replica take the lease now?\<close>

definition lease_free :: "LeaderElectionConfig \<Rightarrow> system \<Rightarrow> string \<Rightarrow> bool" where
  "lease_free cfg s c =
     (case s_lock s of
        None \<Rightarrow> True
      | Some (old, _) \<Rightarrow> \<not> held_by_other cfg c old (s_time s) (observe old (s_time s) (s_replica s c)))"

lemma truncate_simps [simp]:
  "observe old t (LeaderElector.truncate e) = LeaderElector.truncate (observe old t e)"
  "held_by_other cfg c old now (LeaderElector.truncate e) = held_by_other cfg c old now e"
  by (simp_all add: observe_def held_by_other_def LeaderElector.truncate_def)

lemma tryAcquireOrRenew_endpoints:
  "tryAcquireOrRenew cfg endpoints_lock c le (s, x) =
     (case s_lock s of
        None \<Rightarrow> let r = new_record cfg c (s_time s); s' = write_lock s r
                in (Ret (True, \<lparr>observedRecord = r, observedTime = s_time s\<rparr>), (s', map_option snd (s_lock s')))
      | Some (old, v) \<Rightarrow>
          if held_by_other cfg c old (s_time s) (observe old (s_time s) le)
          then (Ret (False, observe old (s_time s) le), (s, Some v))
          else let r = next_record cfg c old (s_time s); s' = write_lock s r
               in (Ret (True, \<lparr>observedRecord = r, observedTime = s_time s\<rparr>), (s', map_option snd (s_lock s'))))"
  by (cases "s_lock s")
     (auto simp: tryAcquireOrRenew_def endpoints_lock_def bnd_def call_def ret_def accepts_def Let_def write_lock_def)

lemma set_replica_simps [simp]:
  "s_replica (set_replica s c e) c = e" "s_lock (set_replica s c e) = s_lock s" "s_time (set_replica s c e) = s_time s"
  "write_lock (set_replica s c e) r = set_replica (write_lock s r) c e"
  "set_replica (set_replica s c e) c e' = set_replica s c e'"
  by (simp_all add: set_replica_def write_lock_def)

lemma observe_attempt [simp]:
  "observe old t (e\<lparr>le_attempt := a\<rparr>) = (observe old t e)\<lparr>le_attempt := a\<rparr>"
  by (simp add: observe_def)

lemma two_steps: "step cfg D s1 s2 \<Longrightarrow> step cfg D s2 s3 \<Longrightarrow> (step cfg D)\<^sup>*\<^sup>* s1 s3"
  by (meson rtranclp.simps)

lemma three_steps: "step cfg D s1 s2 \<Longrightarrow> step cfg D s2 s3 \<Longrightarrow> step cfg D s3 s4 \<Longrightarrow> (step cfg D)\<^sup>*\<^sup>* s1 s4"
  by (rule rtranclp.rtrancl_into_rtrancl [OF two_steps])

lemma truncate_succeed [simp]: "LeaderElector.truncate (succeed r t e) = \<lparr>observedRecord = r, observedTime = t\<rparr>"
  by (simp add: succeed_def LeaderElector.truncate_def)

lemma succeed_simps [simp]:
  "succeed r t (e\<lparr>le_attempt := a\<rparr>) = succeed r t e" "succeed r t (observe old t' e) = succeed r t e"
  by (simp_all add: succeed_def observe_def)

definition free_record :: "LeaderElectionConfig \<Rightarrow> system \<Rightarrow> string \<Rightarrow> LeaderElectionRecord" where
  "free_record cfg s c =
     (case s_lock s of
        None \<Rightarrow> new_record cfg c (s_time s)
      | Some (old, _) \<Rightarrow> next_record cfg c old (s_time s))"

text \<open>The attempt as a run of the transition system: start, read, and write if the lease is free.\<close>

lemma attempt_free_steps:
  assumes "c \<noteq> ''''" and "le_attempt (s_replica s c) = Idle" and "le_phase (s_replica s c) = Acquiring"
    and "lease_free cfg s c"
  obtains e1 e2 where "step cfg D s (set_replica s c e1)" "step cfg D (set_replica s c e1) (set_replica s c e2)"
    "step cfg D (set_replica s c e2) (set_replica (write_lock s (free_record cfg s c)) c
       (succeed (free_record cfg s c) (s_time s) (s_replica s c)))"
proof -
  let ?t = "s_time s" and ?r = "free_record cfg s c"
  let ?e = "(s_replica s c)\<lparr>le_attempt := Started ?t False\<rparr>"
  let ?s = "set_replica s c ?e"
  have s1: "step cfg D s ?s" using assms by (intro step.start_acquire) auto
  obtain e version where s2: "step cfg D ?s (set_replica ?s c (e\<lparr>le_attempt := Writing ?t False ?r version\<rparr>))"
    and v: "accepts (s_lock s) version" and e: "succeed ?r ?t e = succeed ?r ?t (s_replica s c)"
  proof (cases "s_lock s")
    case None
    have "step cfg D ?s (set_replica ?s c (?e\<lparr>le_attempt := Writing ?t False ?r None\<rparr>))"
      using None step.get_absent [of ?e ?s c ?t False cfg D] by (simp add: free_record_def)
    then show thesis by (rule that) (simp_all add: accepts_def None)
  next
    case (Some ov)
    then obtain old v where l: "s_lock s = Some (old, v)" by (cases ov) auto
    have "\<not> held_by_other cfg c old ?t (observe old ?t ?e)"
      using assms(4) l by (simp add: lease_free_def)
    then have "step cfg D ?s (set_replica ?s c ((observe old ?t ?e)\<lparr>le_attempt := Writing ?t False ?r (Some v)\<rparr>))"
      using l step.get_free [of "observe old ?t ?e" old ?s c ?t False v cfg D] by (simp add: free_record_def)
    then show thesis by (rule that) (simp_all add: accepts_def l)
  qed
  let ?e2 = "e\<lparr>le_attempt := Writing ?t False ?r version\<rparr>"
  have "step cfg D (set_replica ?s c ?e2) (set_replica (write_lock s ?r) c (succeed ?r ?t (s_replica s c)))"
    using step.write_ok [of ?e2 "set_replica ?s c ?e2" c ?t False ?r version cfg D] v e by simp
  with s1 s2 show thesis by (intro that [of ?e ?e2]) simp_all
qed

lemma attempt_free:
  assumes "c \<noteq> ''''" and "le_attempt (s_replica s c) = Idle" and "le_phase (s_replica s c) = Acquiring"
    and "lease_free cfg s c"
  shows "(step cfg D)\<^sup>*\<^sup>* s (set_replica (write_lock s (free_record cfg s c)) c
    (succeed (free_record cfg s c) (s_time s) (s_replica s c)))"
  by (rule attempt_free_steps [OF assms]) (rule three_steps)

lemma attempt_held:
  assumes "c \<noteq> ''''" and "le_attempt (s_replica s c) = Idle" and "le_phase (s_replica s c) = Acquiring"
    and "s_lock s = Some (old, v)" and "\<not> lease_free cfg s c"
  shows "(step cfg D)\<^sup>*\<^sup>* s (set_replica s c (observe old (s_time s) (s_replica s c)))"
proof -
  let ?t = "s_time s"
  let ?e = "(s_replica s c)\<lparr>le_attempt := Started ?t False\<rparr>"
  let ?s = "set_replica s c ?e"
  have s1: "step cfg D s ?s" using assms by (intro step.start_acquire) auto
  have "held_by_other cfg c old ?t (observe old ?t ?e)"
    using assms(4,5) by (simp add: lease_free_def)
  then have s2: "step cfg D ?s (set_replica ?s c (fail_attempt False (observe old ?t ?e)))"
    using assms(4) step.get_held [of "observe old ?t ?e" old ?s c ?t False v cfg D] by simp
  have "fail_attempt False (observe old ?t ?e) = observe old ?t (s_replica s c)"
    by (rule replica.equality) (simp_all add: fail_attempt_def assms(2))
  with two_steps [OF s1 s2] show ?thesis by simp
qed

text \<open>A lease that was not renewed for its duration is free for whoever has watched it.\<close>

lemma lease_expires:
  assumes "s_lock s = Some (old, v)" and "observedRecord (s_replica s c) = old"
    and "observedTime (s_replica s c) + LeaseDuration cfg \<le> s_time s"
  shows "lease_free cfg s c"
  using assms by (simp add: lease_free_def held_by_other_def observe_def)

lemma reachable_steps: "(step cfg D)\<^sup>*\<^sup>* s s' \<Longrightarrow> reachable cfg D s \<Longrightarrow> reachable cfg D s'"
  by (induction rule: rtranclp_induct) (auto intro: reachable.more)

end
