(* ===== verification/Replicas.thy ===== *)
theory Replicas
  imports Controller Leader_Safety
begin

text \<open>
  \<^verbatim>\<open>Controller.Run\<close> and several replicas of the daemon. A process is a small state machine: it
  starts its workers at once when leader election is off, and when it has become the leader
  otherwise; when it stops leading it ends. The cluster puts the processes next to the
  transition system of the election.
\<close>

section \<open>Run\<close>

text \<open>
  The goroutines that the closure \<^verbatim>\<open>run\<close> starts. The workers get the channel \<^verbatim>\<open>done\<close>; without an
  election it is nil and never closed, so \<^verbatim>\<open>run\<close> waits for ever.
\<close>

datatype 'h worker =
    ServiceWorker 'h int
  | RouteWorker 'h int
  | ProvisionWorker "'h option"
  | Informers 'h

definition workers :: "'h Controller \<Rightarrow> 'h worker list" where
  "workers c =
     [ServiceWorker (c_sc c) (o_ConcurrentServiceSyncs (c_Options c)),
      RouteWorker (c_rc c) (o_RouteReconcilationPeriod (c_Options c)),
      ProvisionWorker (c_pvc c),
      Informers (c_shared c)]"

datatype proc_state =
    Begin      \<comment> \<open>before \<^verbatim>\<open>Run\<close>\<close>
  | Electing   \<comment> \<open>in \<^verbatim>\<open>acquire\<close>\<close>
  | Serving    \<comment> \<open>the workers run\<close>
  | Ending     \<comment> \<open>the channel \<^verbatim>\<open>stop\<close> is closed\<close>
  | Exited int
  | Panicked

record 'h process =
  pr_state :: proc_state
  pr_controller :: "'h Controller"
  pr_workers :: "'h worker list"

text \<open>
  The steps of a process, given the phase of its elector. After the lead is lost the closure
  \<^verbatim>\<open>run\<close> and the callback \<^verbatim>\<open>OnStoppedLeading\<close> race: the callback sets \<^verbatim>\<open>done\<close> and sleeps for the
  grace period, both end the process with a fatal log message.
\<close>

inductive run_step :: "phase \<Rightarrow> 'h process \<Rightarrow> 'h process \<Rightarrow> bool" for phase where
  alone: "pr_state p = Begin \<Longrightarrow> \<not> o_LeaderElect (c_Options (pr_controller p)) \<Longrightarrow>
    run_step phase p (p\<lparr>pr_state := Serving, pr_workers := workers (pr_controller p)\<rparr>)"
| invalid: "pr_state p = Begin \<Longrightarrow> o_LeaderElect (c_Options (pr_controller p)) \<Longrightarrow>
    NewLeaderElector (o_LeaderElection (c_Options (pr_controller p))) \<noteq> None \<Longrightarrow>
    run_step phase p (p\<lparr>pr_state := Panicked\<rparr>)"
| elect: "pr_state p = Begin \<Longrightarrow> o_LeaderElect (c_Options (pr_controller p)) \<Longrightarrow>
    NewLeaderElector (o_LeaderElection (c_Options (pr_controller p))) = None \<Longrightarrow>
    run_step phase p (p\<lparr>pr_state := Electing\<rparr>)"
| lead: "pr_state p = Electing \<Longrightarrow> phase = Leading \<Longrightarrow>
    run_step phase p (p\<lparr>pr_state := Serving, pr_workers := workers (pr_controller p)\<rparr>)"
| lost: "pr_state p = Serving \<Longrightarrow> o_LeaderElect (c_Options (pr_controller p)) \<Longrightarrow> phase = Stopped \<Longrightarrow>
    run_step phase p (p\<lparr>pr_state := Ending\<rparr>)"
| set_done: "pr_state p = Ending \<Longrightarrow>
    run_step phase p (p\<lparr>pr_controller := (pr_controller p)\<lparr>c_done := True\<rparr>\<rparr>)"
| fatal: "pr_state p = Ending \<Longrightarrow> run_step phase p (p\<lparr>pr_state := Exited 255\<rparr>)"

inductive_cases run_step_cases: "run_step phase p p'"

section \<open>The cluster\<close>

text \<open>
  Replicas with the same durations. A step is one of the election, by replicas that take part
  in it, or one of a process.
\<close>

record 'h cluster =
  cl_system :: system
  cl_process :: "string \<Rightarrow> 'h process"

inductive cluster_step :: "LeaderElectionConfig \<Rightarrow> int \<Rightarrow> 'h cluster \<Rightarrow> 'h cluster \<Rightarrow> bool" for cfg D where
  election_step: "step cfg D (cl_system k) s' \<Longrightarrow>
    \<forall>c. s_replica s' c \<noteq> s_replica (cl_system k) c \<longrightarrow> pr_state (cl_process k c) \<in> {Electing, Serving} \<Longrightarrow>
    cluster_step cfg D k (k\<lparr>cl_system := s'\<rparr>)"
| process_step: "run_step (le_phase (s_replica (cl_system k) c)) (cl_process k c) p' \<Longrightarrow>
    cluster_step cfg D k (k\<lparr>cl_process := (cl_process k)(c := p')\<rparr>)"

definition elects :: "LeaderElectionConfig \<Rightarrow> 'h process \<Rightarrow> bool" where
  "elects cfg p \<longleftrightarrow> o_LeaderElect (c_Options (pr_controller p)) \<and> o_LeaderElection (c_Options (pr_controller p)) = cfg"

definition cluster_initial :: "LeaderElectionConfig \<Rightarrow> 'h cluster \<Rightarrow> bool" where
  "cluster_initial cfg k \<longleftrightarrow> initial (cl_system k) \<and>
     (\<forall>c. elects cfg (cl_process k c) \<and> pr_state (cl_process k c) = Begin \<and> pr_workers (cl_process k c) = [])"

inductive cluster_reachable :: "LeaderElectionConfig \<Rightarrow> int \<Rightarrow> 'h cluster \<Rightarrow> bool" for cfg D where
  cluster_init: "cluster_initial cfg k \<Longrightarrow> cluster_reachable cfg D k"
| cluster_more: "cluster_reachable cfg D k \<Longrightarrow> cluster_step cfg D k k' \<Longrightarrow> cluster_reachable cfg D k'"

section \<open>Workers run under the lease\<close>

lemma phase_forward:
  assumes "step cfg D s s'" and "le_phase (s_replica s c) \<noteq> Acquiring"
  shows "le_phase (s_replica s' c) \<noteq> Acquiring"
  using assms
  by (cases rule: step.cases)
     (auto simp: set_replica_def fail_attempt_def succeed_def write_lock_def observe_def)

text \<open>
  The processes of the cluster: all elect; the workers have been started exactly in a process
  that serves, is ending or has ended; and such a process has held the lease.
\<close>

definition process_ok :: "LeaderElectionConfig \<Rightarrow> replica \<Rightarrow> 'h process \<Rightarrow> bool" where
  "process_ok cfg e p \<longleftrightarrow> elects cfg p \<and>
     (pr_state p \<in> {Begin, Electing, Panicked} \<longrightarrow> pr_workers p = []) \<and>
     (pr_state p = Serving \<longrightarrow> le_phase e \<noteq> Acquiring) \<and>
     (pr_state p = Ending \<longrightarrow> le_phase e = Stopped) \<and>
     (\<forall>n. pr_state p = Exited n \<longrightarrow> n = 255 \<and> le_phase e = Stopped) \<and>
     (pr_state p = Panicked \<longrightarrow> NewLeaderElector cfg \<noteq> None)"

lemma process_ok_run:
  assumes "process_ok cfg e p" and "run_step (le_phase e) p p'"
  shows "process_ok cfg e p'"
  using assms(2,1) by (elim run_step_cases) (auto simp: process_ok_def elects_def)

lemma process_ok_election:
  assumes "process_ok cfg (s_replica s c) p" and "step cfg D s s'"
    and "s_replica s' c \<noteq> s_replica s c \<longrightarrow> pr_state p \<in> {Electing, Serving}"
  shows "process_ok cfg (s_replica s' c) p"
proof (cases "s_replica s' c = s_replica s c")
  case True
  with assms(1) show ?thesis by simp
next
  case False
  with assms phase_forward [OF assms(2)] show ?thesis by (auto simp: process_ok_def)
qed

lemma cluster_ok:
  assumes "cluster_reachable cfg D k"
  shows "reachable cfg D (cl_system k) \<and> (\<forall>c. process_ok cfg (s_replica (cl_system k) c) (cl_process k c))"
  using assms
proof induction
  case (cluster_init k)
  then show ?case by (auto simp: cluster_initial_def process_ok_def intro: reachable.init)
next
  case (cluster_more k k')
  from cluster_more.hyps(2) show ?case
  proof cases
    case (election_step s')
    with cluster_more.IH show ?thesis by (auto intro: reachable.more process_ok_election)
  next
    case (process_step c p')
    with cluster_more.IH show ?thesis by (auto intro: process_ok_run)
  qed
qed

text \<open>At most one replica serves with the lease; the other ones that served have lost it.\<close>

lemma serving_leads:
  assumes "cluster_reachable cfg D k" and "pr_state (cl_process k c) = Serving"
    and "le_phase (s_replica (cl_system k) c) \<noteq> Stopped"
  shows "le_phase (s_replica (cl_system k) c) = Leading"
proof -
  from cluster_ok [OF assms(1)] have "process_ok cfg (s_replica (cl_system k) c) (cl_process k c)" by blast
  with assms(2,3) show ?thesis by (cases "le_phase (s_replica (cl_system k) c)") (auto simp: process_ok_def)
qed

lemma started_workers:
  assumes "cluster_reachable cfg D k" and "pr_workers (cl_process k c) \<noteq> []"
  shows "pr_state (cl_process k c) \<in> {Serving, Ending, Exited 255}"
proof -
  from cluster_ok [OF assms(1)] have "process_ok cfg (s_replica (cl_system k) c) (cl_process k c)" by blast
  with assms(2) show ?thesis by (cases "pr_state (cl_process k c)") (auto simp: process_ok_def)
qed

text \<open>A replica that takes part in the election gets a free lease.\<close>

lemma cluster_election:
  assumes "cluster_reachable cfg D (k\<lparr>cl_system := s\<rparr>)" and "step cfg D s s'"
    and "pr_state (cl_process k c) = Electing" and "\<And>d. d \<noteq> c \<Longrightarrow> s_replica s' d = s_replica s d"
  shows "cluster_reachable cfg D (k\<lparr>cl_system := s'\<rparr>)"
proof -
  have "cluster_step cfg D (k\<lparr>cl_system := s\<rparr>) (k\<lparr>cl_system := s, cl_system := s'\<rparr>)"
  proof (rule election_step)
    show "\<forall>d. s_replica s' d \<noteq> s_replica (cl_system (k\<lparr>cl_system := s\<rparr>)) d \<longrightarrow>
        pr_state (cl_process (k\<lparr>cl_system := s\<rparr>) d) \<in> {Electing, Serving}"
      using assms(3,4) by fastforce
  qed (simp add: assms(2))
  with assms(1) show ?thesis using cluster_more by fastforce
qed

lemma cluster_acquires:
  assumes "cluster_reachable cfg D (k\<lparr>cl_system := s\<rparr>)" and "pr_state (cl_process k c) = Electing"
    and "c \<noteq> ''''" and "le_attempt (s_replica s c) = Idle" and "le_phase (s_replica s c) = Acquiring"
    and "lease_free cfg s c"
  shows "cluster_reachable cfg D (k\<lparr>cl_system := set_replica (write_lock s (free_record cfg s c)) c
    (succeed (free_record cfg s c) (s_time s) (s_replica s c))\<rparr>)"
proof (rule attempt_free_steps [OF assms(3-6), of D])
  fix e1 e2
  assume "step cfg D s (set_replica s c e1)" "step cfg D (set_replica s c e1) (set_replica s c e2)"
    "step cfg D (set_replica s c e2) (set_replica (write_lock s (free_record cfg s c)) c
       (succeed (free_record cfg s c) (s_time s) (s_replica s c)))"
  note s = this
  note next_state = cluster_election [OF _ _ assms(2)]
  have "cluster_reachable cfg D (k\<lparr>cl_system := set_replica s c e1\<rparr>)"
    by (rule next_state [OF assms(1) s(1)]) (simp add: set_replica_def)
  then have "cluster_reachable cfg D (k\<lparr>cl_system := set_replica s c e2\<rparr>)"
    by (rule next_state [OF _ s(2)]) (simp add: set_replica_def)
  then show ?thesis
    by (rule next_state [OF _ s(3)]) (simp add: set_replica_def write_lock_def)
qed

end
