(* ===== verification/Route_Controller.thy ===== *)
theory Route_Controller
  imports Route_Sync Go_Net Kube_Api
begin

text \<open>
  The route controller, which keeps one route per node through the provider's route
  operations: \<^verbatim>\<open>pkg/controller/route/routecontroller.go\<close> of the Kubernetes library. A round of
  \<^verbatim>\<open>reconcile\<close> starts one goroutine for every route to create and one for every route to delete
  and waits for them. It is a transition system: the main loop and the goroutines take their
  steps in any order, where a call of the provider or of the API server is one step.
\<close>

section \<open>The controller\<close>

record 'w Routes_methods =
  rm_ListRoutes :: "string \<Rightarrow> ('w, error + Route list) go"
  rm_CreateRoute :: "string \<Rightarrow> string \<Rightarrow> Route \<Rightarrow> ('w, error option) go"
  rm_DeleteRoute :: "string \<Rightarrow> Route \<Rightarrow> ('w, error option) go"

definition aliyun_routes :: "'w env \<Rightarrow> AliyunProvider \<Rightarrow> 'w Routes_methods" where
  "aliyun_routes E p =
     \<lparr>rm_ListRoutes = ListRoutes E p, rm_CreateRoute = CreateRoute E p, rm_DeleteRoute = DeleteRoute E p\<rparr>"

text \<open>The node lister and \<^verbatim>\<open>nodeutil.SetNodeCondition\<close>, which patches the status of a node.\<close>

record 'w RouteController =
  rc_routes :: "'w Routes_methods"
  rc_clusterName :: string
  rc_clusterCIDR :: IPNet
  rc_nodeLister :: "'w \<Rightarrow> (error + KubeNode list) \<times> 'w"
  rc_SetNodeCondition :: "string \<Rightarrow> NodeCondition \<Rightarrow> 'w \<Rightarrow> kube_error option \<times> 'w"

definition maxConcurrentRouteCreations :: nat where "maxConcurrentRouteCreations = 200"
definition maxRetries :: nat where "maxRetries = 5"
definition updateNodeStatusMaxRetries :: nat where "updateNodeStatusMaxRetries = 3"

definition isResponsibleForRoute :: "'w RouteController \<Rightarrow> Route \<Rightarrow> bool" where
  "isResponsibleForRoute rc route =
     (case ParseCIDR (DestinationCIDR route) of
        Inl err \<Rightarrow> False
      | Inr (_, cidr) \<Rightarrow>
          let lastIP = map2 (\<lambda>a m. a OR NOT m) (Net_IP cidr) (Net_Mask cidr)
          in \<not> (\<not> Contains (rc_clusterCIDR rc) (Net_IP cidr) \<or> \<not> Contains (rc_clusterCIDR rc) lastIP))"

definition networking_condition :: "bool \<Rightarrow> NodeCondition" where
  "networking_condition routeCreated =
     (if routeCreated
      then \<lparr>Cond_Type = NodeNetworkUnavailable, Cond_Status = ConditionFalse, Cond_Reason = ''RouteCreated'',
            Cond_Message = ''RouteController created a route''\<rparr>
      else \<lparr>Cond_Type = NodeNetworkUnavailable, Cond_Status = ConditionTrue, Cond_Reason = ''NoRouteCreated'',
            Cond_Message = ''RouteController failed to create a route''\<rparr>)"

fun update_condition_loop ::
  "'w RouteController \<Rightarrow> string \<Rightarrow> bool \<Rightarrow> nat \<Rightarrow> kube_error option \<Rightarrow> ('w, kube_error option) go" where
  "update_condition_loop rc nodeName routeCreated 0 err = ret err"
| "update_condition_loop rc nodeName routeCreated (Suc i) err =
     bnd (call (rc_SetNodeCondition rc nodeName (networking_condition routeCreated))) (\<lambda>err. case err of
       None \<Rightarrow> ret None
     | Some e \<Rightarrow> if \<not> IsConflict e then ret (Some e)
                 else update_condition_loop rc nodeName routeCreated i (Some e))"

definition updateNetworkingCondition :: "'w RouteController \<Rightarrow> string \<Rightarrow> bool \<Rightarrow> ('w, kube_error option) go" where
  "updateNetworkingCondition rc nodeName routeCreated =
     update_condition_loop rc nodeName routeCreated updateNodeStatusMaxRetries None"

section \<open>A round of reconciliation\<close>

text \<open>
  A goroutine that creates a route waits for a slot of the rate limiter (with the number of
  attempts it has left), calls the provider while it holds the slot, and then updates the
  condition of the node. The last four are the ends of goroutines.
\<close>

datatype goroutine =
    Throttled string Route nat
  | Calling string Route nat
  | Marking string Route nat bool
  | Deleting Route
  | Created Route
  | GaveUp Route
  | Deleted Route
  | NotDeleted Route

datatype main_loop =
    NodesLoop "KubeNode list" "string \<rightharpoonup> string"
  | RoutesLoop "Route list" "string \<rightharpoonup> string"
  | WaitGroup

record 'w rc_state =
  rc_main :: main_loop
  rc_go :: "goroutine list"
  rc_fault :: bool
  rc_world :: 'w

fun routeMap :: "Route list \<Rightarrow> (string \<rightharpoonup> Route) \<Rightarrow> (string \<rightharpoonup> Route)" where
  "routeMap [] m = m"
| "routeMap (r # rs) m = routeMap rs (m(TargetNode r \<mapsto> r))"

definition node_route :: "KubeNode \<Rightarrow> Route" where
  "node_route n = \<lparr>TargetNode = Node_Name n, DestinationCIDR = Node_PodCIDR n\<rparr>"

text \<open>Does the list of routes have the node's route?\<close>

definition route_known :: "Route list \<Rightarrow> KubeNode \<Rightarrow> bool" where
  "route_known routes n =
     (case routeMap routes Map.empty (Node_Name n) of
        None \<Rightarrow> False
      | Some r \<Rightarrow> DestinationCIDR r = Node_PodCIDR n)"

definition network_marked :: "KubeNode \<Rightarrow> bool" where
  "network_marked n =
     (case GetNodeCondition (Node_Conditions n) NodeNetworkUnavailable of
        None \<Rightarrow> False
      | Some c \<Rightarrow> Cond_Status c = ConditionFalse)"

text \<open>The world after a call, and the fault of a process whose goroutine panicked.\<close>

definition after_call :: "'a outcome \<times> 'w \<Rightarrow> ('a \<Rightarrow> 'w rc_state \<Rightarrow> 'w rc_state) \<Rightarrow> 'w rc_state \<Rightarrow> 'w rc_state" where
  "after_call r k s =
     (case r of
        (Ret x, w) \<Rightarrow> k x (s\<lparr>rc_world := w\<rparr>)
      | (_, w) \<Rightarrow> s\<lparr>rc_world := w, rc_fault := True\<rparr>)"

definition main_step :: "'w RouteController \<Rightarrow> Route list \<Rightarrow> 'w rc_state \<Rightarrow> 'w rc_state option" where
  "main_step rc routes s =
     (case rc_main s of
        NodesLoop [] cidrs \<Rightarrow> Some (s\<lparr>rc_main := RoutesLoop routes cidrs\<rparr>)
      | NodesLoop (n # ns) cidrs \<Rightarrow>
          if Node_PodCIDR n = '''' then Some (s\<lparr>rc_main := NodesLoop ns cidrs\<rparr>)
          else let s' = s\<lparr>rc_main := NodesLoop ns (cidrs(Node_Name n \<mapsto> Node_PodCIDR n))\<rparr>
               in if \<not> route_known routes n
                  then Some (s'\<lparr>rc_go := rc_go s @ [Throttled (Node_UID n) (node_route n) maxRetries]\<rparr>)
                  else if network_marked n then Some s'
                  else Some (after_call (updateNetworkingCondition rc (Node_Name n) True (rc_world s)) (\<lambda>_ s. s) s')
      | RoutesLoop [] cidrs \<Rightarrow> Some (s\<lparr>rc_main := WaitGroup\<rparr>)
      | RoutesLoop (r # rs) cidrs \<Rightarrow>
          if isResponsibleForRoute rc r \<and> (case cidrs (TargetNode r) of None \<Rightarrow> '''' | Some c \<Rightarrow> c) \<noteq> DestinationCIDR r
          then Some (s\<lparr>rc_main := RoutesLoop rs cidrs, rc_go := rc_go s @ [Deleting r]\<rparr>)
          else Some (s\<lparr>rc_main := RoutesLoop rs cidrs\<rparr>)
      | WaitGroup \<Rightarrow> None)"

fun calling :: "goroutine \<Rightarrow> bool" where
  "calling (Calling _ _ _) = True"
| "calling _ = False"

definition in_flight :: "goroutine list \<Rightarrow> nat" where
  "in_flight gs = length (filter calling gs)"

definition go_step :: "'w RouteController \<Rightarrow> nat \<Rightarrow> 'w rc_state \<Rightarrow> 'w rc_state option" where
  "go_step rc i s =
     (if length (rc_go s) \<le> i then None
      else let become = (\<lambda>g s. s\<lparr>rc_go := (rc_go s)[i := g]\<rparr>)
           in case rc_go s ! i of
                Throttled hint r n \<Rightarrow>
                  if in_flight (rc_go s) < maxConcurrentRouteCreations then Some (become (Calling hint r (n - 1)) s) else None
              | Calling hint r n \<Rightarrow>
                  Some (after_call (rm_CreateRoute (rc_routes rc) (rc_clusterName rc) hint r (rc_world s))
                         (\<lambda>err. become (Marking hint r n (err = None))) s)
              | Marking hint r n created \<Rightarrow>
                  Some (after_call (updateNetworkingCondition rc (TargetNode r) created (rc_world s))
                         (\<lambda>_. become (if created then Created r else if n = 0 then GaveUp r else Throttled hint r n)) s)
              | Deleting r \<Rightarrow>
                  Some (after_call (rm_DeleteRoute (rc_routes rc) (rc_clusterName rc) r (rc_world s))
                         (\<lambda>err. become (if err = None then Deleted r else NotDeleted r)) s)
              | _ \<Rightarrow> None)"

text \<open>Who moves next: 0 is the main loop, \<open>Suc i\<close> is goroutine \<open>i\<close>. Nothing moves after a fault.\<close>

definition rc_move :: "'w RouteController \<Rightarrow> Route list \<Rightarrow> nat \<Rightarrow> 'w rc_state \<Rightarrow> 'w rc_state option" where
  "rc_move rc routes i s =
     (if rc_fault s then None else case i of 0 \<Rightarrow> main_step rc routes s | Suc j \<Rightarrow> go_step rc j s)"

fun rc_moves :: "'w RouteController \<Rightarrow> Route list \<Rightarrow> nat list \<Rightarrow> 'w rc_state \<Rightarrow> 'w rc_state option" where
  "rc_moves rc routes [] s = Some s"
| "rc_moves rc routes (i # js) s = Option.bind (rc_move rc routes i s) (rc_moves rc routes js)"

inductive rc_step :: "'w RouteController \<Rightarrow> Route list \<Rightarrow> 'w rc_state \<Rightarrow> 'w rc_state \<Rightarrow> bool"
  for rc routes where
  move: "rc_move rc routes i s = Some s' \<Longrightarrow> rc_step rc routes s s'"

fun ended :: "goroutine \<Rightarrow> bool" where
  "ended (Created _) = True"
| "ended (GaveUp _) = True"
| "ended (Deleted _) = True"
| "ended (NotDeleted _) = True"
| "ended _ = False"

definition reconcile_start :: "KubeNode list \<Rightarrow> 'w \<Rightarrow> 'w rc_state" where
  "reconcile_start nodes w = \<lparr>rc_main = NodesLoop nodes Map.empty, rc_go = [], rc_fault = False, rc_world = w\<rparr>"

text \<open>\<^verbatim>\<open>wg.Wait()\<close> returns when all goroutines have ended.\<close>

definition reconciled :: "'w rc_state \<Rightarrow> bool" where
  "reconciled s \<longleftrightarrow> (case rc_main s of WaitGroup \<Rightarrow> True | _ \<Rightarrow> False) \<and> list_all ended (rc_go s) \<and> \<not> rc_fault s"

fun failed :: "goroutine \<Rightarrow> bool" where
  "failed (GaveUp _) = True"
| "failed (NotDeleted _) = True"
| "failed _ = False"

text \<open>
  \<^verbatim>\<open>reconcileNodeRoutes\<close>: from a world to an error, or to the listed nodes and the goroutines
  that did not reach their aim, and to the new world.
\<close>

inductive reconcileNodeRoutes ::
  "'w RouteController \<Rightarrow> 'w \<Rightarrow> error + KubeNode list \<times> goroutine list \<Rightarrow> 'w \<Rightarrow> bool"
  for rc where
  no_routes: "rm_ListRoutes (rc_routes rc) (rc_clusterName rc) w = (Ret (Inl e), w') \<Longrightarrow>
    reconcileNodeRoutes rc w (Inl (sprintf ''error listing routes: %v'' [e])) w'"
| no_nodes: "rm_ListRoutes (rc_routes rc) (rc_clusterName rc) w = (Ret (Inr rs), w1) \<Longrightarrow>
    rc_nodeLister rc w1 = (Inl e, w') \<Longrightarrow>
    reconcileNodeRoutes rc w (Inl (sprintf ''error listing nodes: %v'' [e])) w'"
| reconcile: "rm_ListRoutes (rc_routes rc) (rc_clusterName rc) w = (Ret (Inr rs), w1) \<Longrightarrow>
    rc_nodeLister rc w1 = (Inr nodes, w2) \<Longrightarrow>
    (rc_step rc rs)\<^sup>*\<^sup>* (reconcile_start nodes w2) s \<Longrightarrow> reconciled s \<Longrightarrow>
    reconcileNodeRoutes rc w (Inr (nodes, filter failed (rc_go s))) (rc_world s)"

end
