(* ===== verification/Route_Reconcile.thy ===== *)
theory Route_Reconcile
  imports Route_Controller
begin

text \<open>
  What a round of the route controller does to the routes, for any order in which the main
  loop and the goroutines take their steps. The locale \<open>route_reconciler\<close> is the controller
  over the contract of a routes provider; it is interpreted on the Aliyun provider.
\<close>

section \<open>Responsibility\<close>

lemma responsible_subnet:
  assumes "ParseCIDR c = Inr (ip, rc_clusterCIDR rc)" and "length (Net_IP (rc_clusterCIDR rc)) = 4"
    and "ParseCIDR (DestinationCIDR route) = Inr (ip', cidr)" and "length (Net_IP cidr) = 4"
  shows "isResponsibleForRoute rc route \<longleftrightarrow> (\<forall>a. Contains cidr a \<longrightarrow> Contains (rc_clusterCIDR rc) a)"
  using Contains_ends [OF ParseCIDR_wf [OF assms(3)] assms(4) ParseCIDR_wf [OF assms(1)] assms(2)] assms(3)
  by (simp add: isResponsibleForRoute_def last_ip_def Let_def)

lemma responsible_not_empty: "isResponsibleForRoute rc route \<Longrightarrow> DestinationCIDR route \<noteq> ''''"
  by (auto simp: isResponsibleForRoute_def ParseCIDR_def)

section \<open>The routes a round aims at\<close>

definition wanted_routes :: "KubeNode list \<Rightarrow> Route set" where
  "wanted_routes nodes = node_route ` {n \<in> set nodes. Node_PodCIDR n \<noteq> ''''}"

definition stale_routes :: "'w RouteController \<Rightarrow> KubeNode list \<Rightarrow> Route set \<Rightarrow> Route set" where
  "stale_routes rc nodes R = {r \<in> R. isResponsibleForRoute rc r \<and> r \<notin> wanted_routes nodes}"

lemma wanted_append [simp]: "wanted_routes (xs @ ys) = wanted_routes xs \<union> wanted_routes ys"
  by (auto simp: wanted_routes_def)

lemma wanted_Nil [simp]: "wanted_routes [] = {}"
  by (simp add: wanted_routes_def)

lemma wanted_single [simp]: "wanted_routes [n] = (if Node_PodCIDR n = '''' then {} else {node_route n})"
  by (auto simp: wanted_routes_def)

lemma routeMap_mem: "routeMap rs m t = Some r \<Longrightarrow> m t = Some r \<or> (r \<in> set rs \<and> TargetNode r = t)"
  by (induction rs m rule: routeMap.induct) (fastforce split: if_splits)+

lemma route_known_mem: "route_known rs n \<Longrightarrow> node_route n \<in> set rs"
proof -
  assume "route_known rs n"
  then obtain r where "routeMap rs Map.empty (Node_Name n) = Some r" and d: "DestinationCIDR r = Node_PodCIDR n"
    by (auto simp: route_known_def split: option.splits)
  from routeMap_mem [OF this(1)] have "r \<in> set rs" "TargetNode r = Node_Name n" by simp_all
  moreover from this(2) d have "node_route n = r" by (cases r) (simp add: node_route_def)
  ultimately show ?thesis by simp
qed

definition cidrs_of :: "KubeNode list \<Rightarrow> (string \<rightharpoonup> string)" where
  "cidrs_of nodes = map_of (rev (map (\<lambda>n. (Node_Name n, Node_PodCIDR n)) (filter (\<lambda>n. Node_PodCIDR n \<noteq> '''') nodes)))"

lemma cidrs_of_snoc:
  "cidrs_of (ns @ [n]) = (if Node_PodCIDR n = '''' then cidrs_of ns else (cidrs_of ns)(Node_Name n \<mapsto> Node_PodCIDR n))"
  by (simp add: cidrs_of_def)

lemma cidrs_of_Nil [simp]: "cidrs_of [] = Map.empty"
  by (simp add: cidrs_of_def)

lemma cidrs_of_wanted:
  assumes "distinct (map Node_Name nodes)" and "DestinationCIDR r \<noteq> ''''"
  shows "(case cidrs_of nodes (TargetNode r) of None \<Rightarrow> '''' | Some c \<Rightarrow> c) = DestinationCIDR r \<longleftrightarrow> r \<in> wanted_routes nodes"
proof -
  let ?xs = "map (\<lambda>n. (Node_Name n, Node_PodCIDR n)) (filter (\<lambda>n. Node_PodCIDR n \<noteq> '''') nodes)"
  have "distinct (map fst (rev ?xs))"
    using assms(1) by (simp add: rev_map [symmetric] o_def distinct_map_filter)
  then have "cidrs_of nodes (TargetNode r) = Some (DestinationCIDR r) \<longleftrightarrow> (TargetNode r, DestinationCIDR r) \<in> set ?xs"
    by (simp add: cidrs_of_def map_of_eq_Some_iff del: set_map)
  also have "\<dots> \<longleftrightarrow> r \<in> wanted_routes nodes"
    by (cases r) (auto simp: wanted_routes_def node_route_def)
  finally have "cidrs_of nodes (TargetNode r) = Some (DestinationCIDR r) \<longleftrightarrow> r \<in> wanted_routes nodes" .
  then show ?thesis using assms(2) by (cases "cidrs_of nodes (TargetNode r)") auto
qed

section \<open>What the goroutines are about\<close>

fun creating :: "goroutine \<Rightarrow> Route set" where
  "creating (Throttled _ r _) = {r}"
| "creating (Calling _ r _) = {r}"
| "creating (Marking _ r _ _) = {r}"
| "creating (Created r) = {r}"
| "creating (GaveUp r) = {r}"
| "creating _ = {}"

fun deleting :: "goroutine \<Rightarrow> Route set" where
  "deleting (Deleting r) = {r}"
| "deleting (Deleted r) = {r}"
| "deleting (NotDeleted r) = {r}"
| "deleting _ = {}"

fun created :: "goroutine \<Rightarrow> Route set" where
  "created (Marking _ r _ ok) = (if ok then {r} else {})"
| "created (Created r) = {r}"
| "created _ = {}"

fun deleted :: "goroutine \<Rightarrow> Route set" where
  "deleted (Deleted r) = {r}"
| "deleted _ = {}"

definition all_of :: "(goroutine \<Rightarrow> Route set) \<Rightarrow> goroutine list \<Rightarrow> Route set" where
  "all_of f gs = (\<Union>g \<in> set gs. f g)"

lemma all_of_snoc [simp]: "all_of f (gs @ [g]) = all_of f gs \<union> f g"
  by (auto simp: all_of_def)

lemma all_of_Nil [simp]: "all_of f [] = {}"
  by (simp add: all_of_def)

lemma all_of_update: "i < length gs \<Longrightarrow> f (gs ! i) \<subseteq> f g \<Longrightarrow> all_of f (gs[i := g]) = all_of f gs \<union> f g"
proof (induction gs arbitrary: i)
  case (Cons h gs)
  then show ?case by (cases i) (auto simp: all_of_def)
qed simp

lemma all_of_mem: "i < length gs \<Longrightarrow> f (gs ! i) \<subseteq> all_of f gs"
  unfolding all_of_def using nth_mem by blast

lemma all_done:
  assumes "list_all ended gs" and "filter failed gs = []"
  shows "all_of creating gs \<subseteq> all_of created gs" and "all_of deleting gs \<subseteq> all_of deleted gs"
proof -
  have "creating g \<subseteq> created g \<and> deleting g \<subseteq> deleted g" if "g \<in> set gs" for g
    using assms that by (cases g) (auto simp: list_all_iff filter_empty_conv)
  then show "all_of creating gs \<subseteq> all_of created gs" "all_of deleting gs \<subseteq> all_of deleted gs"
    by (auto simp: all_of_def)
qed

lemma created_sub: "created g \<subseteq> creating g" "deleted g \<subseteq> deleting g"
  by (cases g; simp)+

lemma created_creating: "all_of created gs \<subseteq> all_of creating gs" "all_of deleted gs \<subseteq> all_of deleting gs"
  using created_sub by (fastforce simp: all_of_def)+

section \<open>The invariant of a round\<close>

definition main_ok :: "'w RouteController \<Rightarrow> KubeNode list \<Rightarrow> Route list \<Rightarrow> main_loop \<Rightarrow> goroutine list \<Rightarrow> bool" where
  "main_ok rc nodes rs m gs =
     (case m of
        NodesLoop todo cidrs \<Rightarrow> \<exists>seen. nodes = seen @ todo \<and> cidrs = cidrs_of seen \<and>
          wanted_routes seen \<subseteq> set rs \<union> all_of creating gs
      | RoutesLoop todo cidrs \<Rightarrow> \<exists>seen. rs = seen @ todo \<and> cidrs = cidrs_of nodes \<and>
          wanted_routes nodes \<subseteq> set rs \<union> all_of creating gs \<and> stale_routes rc nodes (set seen) \<subseteq> all_of deleting gs
      | WaitGroup \<Rightarrow> wanted_routes nodes \<subseteq> set rs \<union> all_of creating gs \<and>
          stale_routes rc nodes (set rs) \<subseteq> all_of deleting gs)"

definition rc_inv :: "'w RouteController \<Rightarrow> KubeNode list \<Rightarrow> Route list \<Rightarrow> Route set \<Rightarrow> 'w rc_state \<Rightarrow> bool" where
  "rc_inv rc nodes rs cur s \<longleftrightarrow> \<not> rc_fault s \<and>
     all_of creating (rc_go s) \<subseteq> wanted_routes nodes \<and> all_of deleting (rc_go s) \<subseteq> stale_routes rc nodes (set rs) \<and>
     cur = (set rs \<union> all_of created (rc_go s)) - all_of deleted (rc_go s) \<and> main_ok rc nodes rs (rc_main s) (rc_go s)"

lemma main_ok_mono:
  assumes "main_ok rc nodes rs m gs"
    and sub: "all_of creating gs \<subseteq> all_of creating gs'" "all_of deleting gs \<subseteq> all_of deleting gs'"
  shows "main_ok rc nodes rs m gs'"
proof (cases m)
  case (NodesLoop todo cidrs)
  with assms(1) obtain seen where "nodes = seen @ todo" "cidrs = cidrs_of seen"
      "wanted_routes seen \<subseteq> set rs \<union> all_of creating gs" by (auto simp: main_ok_def)
  with sub show ?thesis unfolding NodesLoop main_ok_def main_loop.case by (intro exI [of _ seen]) blast
next
  case (RoutesLoop todo cidrs)
  with assms(1) obtain seen where "rs = seen @ todo" "cidrs = cidrs_of nodes"
      "wanted_routes nodes \<subseteq> set rs \<union> all_of creating gs" "stale_routes rc nodes (set seen) \<subseteq> all_of deleting gs"
    by (auto simp: main_ok_def)
  with sub show ?thesis unfolding RoutesLoop main_ok_def main_loop.case by (intro exI [of _ seen]) blast
next
  case WaitGroup
  with assms show ?thesis by (auto simp: main_ok_def)
qed

lemma wanted_not_stale: "r \<in> wanted_routes nodes \<Longrightarrow> r \<notin> stale_routes rc nodes R"
  by (simp add: stale_routes_def)

text \<open>A goroutine that moves keeps its route, and the routes change by what it reports.\<close>

lemma inv_become:
  assumes inv: "rc_inv rc nodes rs cur s" and i: "i < length (rc_go s)"
    and g: "creating g = creating (rc_go s ! i)" "deleting g = deleting (rc_go s ! i)"
      "created (rc_go s ! i) \<subseteq> created g" "deleted (rc_go s ! i) \<subseteq> deleted g"
    and cur: "cur' = (cur \<union> created g) - deleted g"
  shows "rc_inv rc nodes rs cur' (s\<lparr>rc_world := w, rc_go := (rc_go s)[i := g]\<rparr>)"
proof -
  let ?gs = "(rc_go s)[i := g]"
  have u: "all_of creating ?gs = all_of creating (rc_go s)" "all_of deleting ?gs = all_of deleting (rc_go s)"
    "all_of created ?gs = all_of created (rc_go s) \<union> created g" "all_of deleted ?gs = all_of deleted (rc_go s) \<union> deleted g"
    using all_of_update [OF i, of _ g] all_of_mem [OF i, of creating] all_of_mem [OF i, of deleting] g by auto
  from inv have c: "all_of creating (rc_go s) \<subseteq> wanted_routes nodes" "all_of deleting (rc_go s) \<subseteq> stale_routes rc nodes (set rs)"
    by (simp_all add: rc_inv_def)
  have "created g \<subseteq> wanted_routes nodes" using created_sub(1) [of g] g(1) all_of_mem [OF i, of creating] c by blast
  moreover have "all_of deleted (rc_go s) \<subseteq> stale_routes rc nodes (set rs)"
    using created_creating(2) c(2) by blast
  ultimately have "created g \<inter> all_of deleted (rc_go s) = {}" using wanted_not_stale by blast
  moreover have "cur = (set rs \<union> all_of created (rc_go s)) - all_of deleted (rc_go s)" using inv by (simp add: rc_inv_def)
  ultimately have "cur' = (set rs \<union> all_of created ?gs) - all_of deleted ?gs" unfolding cur u by blast
  with inv main_ok_mono [of rc nodes rs "rc_main s" "rc_go s" ?gs] u(1,2) show ?thesis by (simp add: rc_inv_def)
qed

lemma inv_spawn:
  assumes "rc_inv rc nodes rs cur s" and "created g = {}" "deleted g = {}"
    and "creating g \<subseteq> wanted_routes nodes" and "deleting g \<subseteq> stale_routes rc nodes (set rs)"
    and "main_ok rc nodes rs m (rc_go s @ [g])"
  shows "rc_inv rc nodes rs cur (s\<lparr>rc_main := m, rc_go := rc_go s @ [g]\<rparr>)"
  using assms by (simp add: rc_inv_def)

lemma inv_main:
  assumes "rc_inv rc nodes rs cur s" and "main_ok rc nodes rs m (rc_go s)"
  shows "rc_inv rc nodes rs cur (s\<lparr>rc_main := m\<rparr>)"
  using assms by (simp add: rc_inv_def)

lemma inv_world: "rc_inv rc nodes rs cur (s\<lparr>rc_world := w\<rparr>) = rc_inv rc nodes rs cur s"
  by (simp add: rc_inv_def)

section \<open>The controller over a routes provider\<close>

locale route_reconciler =
  routes_provider invar routes_of "rm_ListRoutes (rc_routes rc) (rc_clusterName rc)"
    "rm_CreateRoute (rc_routes rc) (rc_clusterName rc)" "rm_DeleteRoute (rc_routes rc) (rc_clusterName rc)"
  for invar :: "'w \<Rightarrow> bool" and routes_of and rc :: "'w RouteController" +
  assumes nodes_law: "invar w \<Longrightarrow> rc_nodeLister rc w = (listed, w') \<Longrightarrow> invar w' \<and> routes_of w' = routes_of w"
    and condition_law: "invar w \<Longrightarrow> rc_SetNodeCondition rc n c w = (r, w') \<Longrightarrow> invar w' \<and> routes_of w' = routes_of w"
begin

lemma condition_loop_kept:
  "invar w \<Longrightarrow> \<exists>r w'. update_condition_loop rc n b i err w = (Ret r, w') \<and> invar w' \<and> routes_of w' = routes_of w"
proof (induction i arbitrary: err w)
  case (Suc i)
  obtain r w1 where r: "rc_SetNodeCondition rc n (networking_condition b) w = (r, w1)" by fastforce
  from condition_law [OF Suc.prems r] have k: "invar w1" "routes_of w1 = routes_of w" by simp_all
  show ?case
  proof (cases r)
    case (Some e)
    with Suc.IH [OF k(1), of "Some e"] r k show ?thesis by (auto simp: bnd_def call_def)
  qed (use r k in \<open>simp add: bnd_def call_def\<close>)
qed simp

lemma condition_kept:
  assumes "invar w"
  obtains r w' where "updateNetworkingCondition rc n b w = (Ret r, w')" "invar w'" "routes_of w' = routes_of w"
  using condition_loop_kept [OF assms] that unfolding updateNetworkingCondition_def by blast

definition good :: "KubeNode list \<Rightarrow> Route list \<Rightarrow> 'w rc_state \<Rightarrow> bool" where
  "good nodes rs s \<longleftrightarrow> invar (rc_world s) \<and> rc_inv rc nodes rs (routes_of (rc_world s)) s"

lemma good_become:
  assumes "good nodes rs s" and "i < length (rc_go s)"
    and "creating g = creating (rc_go s ! i)" "deleting g = deleting (rc_go s ! i)"
      "created (rc_go s ! i) \<subseteq> created g" "deleted (rc_go s ! i) \<subseteq> deleted g"
    and "invar w" and "routes_of w = (routes_of (rc_world s) \<union> created g) - deleted g"
  shows "good nodes rs (s\<lparr>rc_world := w, rc_go := (rc_go s)[i := g]\<rparr>)"
  using assms inv_become [of rc nodes rs "routes_of (rc_world s)" s i g _ w] by (simp add: good_def)

lemma good_go_step:
  assumes g: "good nodes rs s" and m: "go_step rc i s = Some s'"
  shows "good nodes rs s'"
proof -
  from m have i: "i < length (rc_go s)" by (simp add: go_step_def split: if_splits)
  from g have w: "invar (rc_world s)" by (simp add: good_def)
  note become = good_become [OF g i]
  show ?thesis
  proof (cases "rc_go s ! i")
    case (Throttled hint r n)
    with m i have "s' = s\<lparr>rc_go := (rc_go s)[i := Calling hint r (n - 1)]\<rparr>"
      by (simp add: go_step_def split: if_splits)
    with become [of "Calling hint r (n - 1)" "rc_world s"] Throttled w show ?thesis by simp
  next
    case (Calling hint r n)
    obtain x w' where c: "rm_CreateRoute (rc_routes rc) (rc_clusterName rc) hint r (rc_world s) = (x, w')" by fastforce
    from create_law [OF w c] obtain err where "x = Ret err" "invar w'"
      "routes_of w' = (if err = None then insert r (routes_of (rc_world s)) else routes_of (rc_world s))" by auto
    with c m i Calling become [of "Marking hint r n (err = None)" w'] show ?thesis
      by (auto simp: go_step_def after_call_def)
  next
    case (Marking hint r n ok)
    from condition_kept [OF w, of "TargetNode r" ok] obtain x w' where
      c: "updateNetworkingCondition rc (TargetNode r) ok (rc_world s) = (Ret x, w')" "invar w'"
        "routes_of w' = routes_of (rc_world s)" .
    have "r \<in> routes_of (rc_world s)" if ok
    proof -
      from that Marking i have "r \<in> all_of created (rc_go s)" using all_of_mem [OF i, of created] by simp
      moreover from this have "r \<notin> all_of deleted (rc_go s)"
        using g created_creating [of "rc_go s"] wanted_not_stale [of r nodes rc] unfolding good_def rc_inv_def by blast
      ultimately show ?thesis using g by (simp add: good_def rc_inv_def)
    qed
    with c m i Marking become [of "if ok then Created r else if n = 0 then GaveUp r else Throttled hint r n" w'] show ?thesis
      by (auto simp: go_step_def after_call_def split: if_splits)
  next
    case (Deleting r)
    obtain x w' where c: "rm_DeleteRoute (rc_routes rc) (rc_clusterName rc) r (rc_world s) = (x, w')" by fastforce
    from delete_law [OF w c] obtain err where "x = Ret err" "invar w'"
      "routes_of w' = (if err = None then routes_of (rc_world s) - {r} else routes_of (rc_world s))" by auto
    with c m i Deleting become [of "if err = None then Deleted r else NotDeleted r" w'] show ?thesis
      by (auto simp: go_step_def after_call_def split: if_splits)
  qed (use m i in \<open>simp_all add: go_step_def\<close>)
qed

lemma good_main: "good nodes rs s \<Longrightarrow> main_ok rc nodes rs m (rc_go s) \<Longrightarrow> good nodes rs (s\<lparr>rc_main := m\<rparr>)"
  using inv_main [of rc nodes rs _ s m] by (simp add: good_def)

lemma good_node:
  assumes g: "good nodes rs s" and m: "rc_main s = NodesLoop (n # ns) cidrs" and "main_step rc rs s = Some s'"
  shows "good nodes rs s'"
proof -
  from g m obtain seen where seen: "nodes = seen @ n # ns" "cidrs = cidrs_of seen"
      "wanted_routes seen \<subseteq> set rs \<union> all_of creating (rc_go s)"
    by (auto simp: good_def rc_inv_def main_ok_def)
  define cidrs' where "cidrs' = cidrs_of (seen @ [n])"
  have next_ok: "main_ok rc nodes rs (NodesLoop ns cidrs') gs"
    if "wanted_routes (seen @ [n]) \<subseteq> set rs \<union> all_of creating gs" for gs
    using that seen unfolding main_ok_def main_loop.case cidrs'_def by (intro exI [of _ "seen @ [n]"]) simp
  show ?thesis
  proof (cases "Node_PodCIDR n = ''''")
    case True
    with assms seen have "s' = s\<lparr>rc_main := NodesLoop ns cidrs'\<rparr>" by (simp add: main_step_def cidrs'_def cidrs_of_snoc)
    with True seen next_ok [of "rc_go s"] good_main [OF g] show ?thesis by simp
  next
    case cidr: False
    then have c: "cidrs' = cidrs(Node_Name n \<mapsto> Node_PodCIDR n)" by (simp add: cidrs'_def cidrs_of_snoc seen)
    show ?thesis
    proof (cases "route_known rs n")
      case True
      then have "node_route n \<in> set rs" by (rule route_known_mem)
      then have "wanted_routes (seen @ [n]) \<subseteq> set rs \<union> all_of creating (rc_go s)" using seen(3) by simp
      from good_main [OF g next_ok [OF this]] have k: "good nodes rs (s\<lparr>rc_main := NodesLoop ns cidrs'\<rparr>)" .
      then have "invar (rc_world s)" by (simp add: good_def)
      from condition_kept [OF this, of "Node_Name n" True] obtain x w' where
        "updateNetworkingCondition rc (Node_Name n) True (rc_world s) = (Ret x, w')" "invar w'"
        "routes_of w' = routes_of (rc_world s)" .
      with k assms True cidr c show ?thesis
        by (auto simp: main_step_def Let_def after_call_def good_def inv_world split: if_splits)
    next
      case False
      let ?g = "Throttled (Node_UID n) (node_route n) maxRetries"
      have "node_route n \<in> wanted_routes nodes" using cidr seen(1) by (simp add: wanted_routes_def)
      moreover have "main_ok rc nodes rs (NodesLoop ns cidrs') (rc_go s @ [?g])" using seen(3) by (intro next_ok) auto
      ultimately have "good nodes rs (s\<lparr>rc_main := NodesLoop ns cidrs', rc_go := rc_go s @ [?g]\<rparr>)"
        using g inv_spawn [of rc nodes rs _ s ?g "NodesLoop ns cidrs'"] by (simp add: good_def)
      with assms False cidr c show ?thesis by (simp add: main_step_def)
    qed
  qed
qed

lemma good_route:
  assumes g: "good nodes rs s" and m: "rc_main s = RoutesLoop (r # todo) cidrs" and "main_step rc rs s = Some s'"
    and names: "distinct (map Node_Name nodes)"
  shows "good nodes rs s'"
proof -
  from g m obtain seen where seen: "rs = seen @ r # todo" "cidrs = cidrs_of nodes"
      "wanted_routes nodes \<subseteq> set rs \<union> all_of creating (rc_go s)" "stale_routes rc nodes (set seen) \<subseteq> all_of deleting (rc_go s)"
    by (auto simp: good_def rc_inv_def main_ok_def)
  define del where "del \<longleftrightarrow> isResponsibleForRoute rc r \<and>
    (case cidrs (TargetNode r) of None \<Rightarrow> '''' | Some c \<Rightarrow> c) \<noteq> DestinationCIDR r"
  have del: "del \<longleftrightarrow> isResponsibleForRoute rc r \<and> r \<notin> wanted_routes nodes"
    using cidrs_of_wanted [OF names, of r] responsible_not_empty [of rc r] by (auto simp: del_def seen(2))
  then have st: "stale_routes rc nodes (set (seen @ [r])) = stale_routes rc nodes (set seen) \<union> (if del then {r} else {})"
    by (auto simp: stale_routes_def)
  have next_ok: "main_ok rc nodes rs (RoutesLoop todo cidrs) gs"
    if "wanted_routes nodes \<subseteq> set rs \<union> all_of creating gs" "stale_routes rc nodes (set (seen @ [r])) \<subseteq> all_of deleting gs" for gs
    using that seen(1,2) unfolding main_ok_def main_loop.case by (intro exI [of _ "seen @ [r]"]) simp
  show ?thesis
  proof (cases del)
    case True
    with assms have "s' = s\<lparr>rc_main := RoutesLoop todo cidrs, rc_go := rc_go s @ [Deleting r]\<rparr>"
      by (simp add: main_step_def del_def)
    moreover have "r \<in> stale_routes rc nodes (set rs)" using True del seen(1) by (simp add: stale_routes_def)
    moreover have "main_ok rc nodes rs (RoutesLoop todo cidrs) (rc_go s @ [Deleting r])"
      using seen(3,4) True by (intro next_ok) (auto simp: st simp del: set_append)
    ultimately show ?thesis
      using g inv_spawn [of rc nodes rs _ s "Deleting r" "RoutesLoop todo cidrs"] by (simp add: good_def)
  next
    case False
    with assms have "s' = s\<lparr>rc_main := RoutesLoop todo cidrs\<rparr>" by (auto simp: main_step_def del_def)
    moreover have "main_ok rc nodes rs (RoutesLoop todo cidrs) (rc_go s)"
      using seen(3,4) False by (intro next_ok) (simp_all add: st del: set_append)
    ultimately show ?thesis using good_main [OF g] by simp
  qed
qed

lemma good_main_step:
  assumes g: "good nodes rs s" and m: "main_step rc rs s = Some s'" and names: "distinct (map Node_Name nodes)"
  shows "good nodes rs s'"
proof (cases "rc_main s")
  case (NodesLoop todo cidrs)
  show ?thesis
  proof (cases todo)
    case Nil
    with g NodesLoop have "main_ok rc nodes rs (RoutesLoop rs cidrs) (rc_go s)"
      by (auto simp: good_def rc_inv_def main_ok_def stale_routes_def)
    with good_main [OF g this] m Nil NodesLoop show ?thesis by (simp add: main_step_def)
  next
    case (Cons n ns)
    with good_node [OF g _ m] NodesLoop show ?thesis by simp
  qed
next
  case (RoutesLoop todo cidrs)
  show ?thesis
  proof (cases todo)
    case Nil
    with g RoutesLoop have "main_ok rc nodes rs WaitGroup (rc_go s)" by (auto simp: good_def rc_inv_def main_ok_def)
    with good_main [OF g this] m Nil RoutesLoop show ?thesis by (simp add: main_step_def)
  next
    case (Cons r rest)
    with good_route [OF g _ m names] RoutesLoop show ?thesis by simp
  qed
qed (use m in \<open>simp add: main_step_def\<close>)

lemma good_step: "rc_step rc rs s s' \<Longrightarrow> distinct (map Node_Name nodes) \<Longrightarrow> good nodes rs s \<Longrightarrow> good nodes rs s'"
  by (auto simp: rc_step.simps rc_move_def split: if_splits nat.splits intro: good_main_step good_go_step)

lemma good_steps:
  "(rc_step rc rs)\<^sup>*\<^sup>* s s' \<Longrightarrow> distinct (map Node_Name nodes) \<Longrightarrow> good nodes rs s \<Longrightarrow> good nodes rs s'"
  by (induction rule: rtranclp_induct) (auto intro: good_step)

lemma good_start: "invar w \<Longrightarrow> routes_of w = set rs \<Longrightarrow> good nodes rs (reconcile_start nodes w)"
  by (simp add: good_def rc_inv_def reconcile_start_def main_ok_def)

lemma round_safe:
  assumes "invar w" and "routes_of w = set rs" and "distinct (map Node_Name nodes)"
    and "(rc_step rc rs)\<^sup>*\<^sup>* (reconcile_start nodes w) s"
  shows "\<not> rc_fault s \<and> set rs - stale_routes rc nodes (set rs) \<subseteq> routes_of (rc_world s) \<and>
    routes_of (rc_world s) \<subseteq> set rs \<union> wanted_routes nodes"
proof -
  from good_steps [OF assms(4,3) good_start [OF assms(1,2)]] have g: "good nodes rs s" .
  then show ?thesis using created_creating [of "rc_go s"] unfolding good_def rc_inv_def by blast
qed

lemma round_done:
  assumes "invar w" and "routes_of w = set rs" and "distinct (map Node_Name nodes)"
    and "(rc_step rc rs)\<^sup>*\<^sup>* (reconcile_start nodes w) s" and "reconciled s" and "filter failed (rc_go s) = []"
  shows "routes_of (rc_world s) = (set rs - stale_routes rc nodes (set rs)) \<union> wanted_routes nodes"
proof -
  from good_steps [OF assms(4,3) good_start [OF assms(1,2)]] have g: "good nodes rs s" .
  from assms(5) have d: "rc_main s = WaitGroup" "list_all ended (rc_go s)"
    by (simp_all add: reconciled_def split: main_loop.splits)
  note created_creating [of "rc_go s"] all_done [OF d(2) assms(6)]
  then have e: "all_of created (rc_go s) = all_of creating (rc_go s)" "all_of deleted (rc_go s) = all_of deleting (rc_go s)"
    by blast+
  from g d(1) have "all_of creating (rc_go s) \<subseteq> wanted_routes nodes" "all_of deleting (rc_go s) = stale_routes rc nodes (set rs)"
    "wanted_routes nodes \<subseteq> set rs \<union> all_of creating (rc_go s)"
    "routes_of (rc_world s) = (set rs \<union> all_of creating (rc_go s)) - all_of deleting (rc_go s)"
    unfolding good_def rc_inv_def main_ok_def e by auto
  then show ?thesis using wanted_not_stale [of _ nodes rc "set rs"] by blast
qed

lemma reconcile_error:
  assumes "reconcileNodeRoutes rc w (Inl e) w'" and "invar w"
  shows "invar w' \<and> routes_of w' = routes_of w"
  using assms(1)
proof cases
  case (no_routes e)
  with list_law [OF assms(2)] show ?thesis by simp
next
  case (no_nodes rs w1 e)
  from list_law [OF assms(2) no_nodes(2)] have w1: "invar w1" "routes_of w1 = routes_of w" by simp_all
  from nodes_law [OF w1(1) no_nodes(3)] w1(2) show ?thesis by simp
qed

lemma reconcile_round:
  assumes "reconcileNodeRoutes rc w (Inr (nodes, fs)) w'" and "invar w" and names: "distinct (map Node_Name nodes)"
  shows "invar w' \<and>
    routes_of w - stale_routes rc nodes (routes_of w) \<subseteq> routes_of w' \<and> routes_of w' \<subseteq> routes_of w \<union> wanted_routes nodes \<and>
    (fs = [] \<longrightarrow> routes_of w' = (routes_of w - stale_routes rc nodes (routes_of w)) \<union> wanted_routes nodes)"
  using assms(1)
proof cases
  case (reconcile rs w1 w2 s)
  from list_law [OF assms(2) reconcile(3)] have w1: "invar w1" "routes_of w1 = set rs" "routes_of w = set rs" by simp_all
  from nodes_law [OF w1(1) reconcile(4)] w1 have w2: "invar w2" "routes_of w2 = set rs" by simp_all
  from good_steps [OF reconcile(5) names good_start [OF w2]] have "invar w'" using reconcile by (simp add: good_def)
  moreover note round_safe [OF w2 names reconcile(5)] round_done [OF w2 names reconcile(5,6)]
  ultimately show ?thesis unfolding w1(3) reconcile(1,2) by simp
qed

end

section \<open>Every round comes to an end\<close>

fun go_work :: "goroutine \<Rightarrow> nat" where
  "go_work (Throttled _ _ n) = 3 * n"
| "go_work (Calling _ _ n) = 3 * n + 2"
| "go_work (Marking _ _ n _) = 3 * n + 1"
| "go_work (Deleting _) = 1"
| "go_work _ = 0"

fun main_work :: "Route list \<Rightarrow> main_loop \<Rightarrow> nat" where
  "main_work rs (NodesLoop ns _) = 16 * length ns + 2 * length rs + 2"
| "main_work rs (RoutesLoop todo _) = 2 * length todo + 1"
| "main_work rs WaitGroup = 0"

fun has_attempt :: "goroutine \<Rightarrow> bool" where
  "has_attempt (Throttled _ _ n) = (n \<noteq> 0)"
| "has_attempt _ = True"

definition rc_work :: "Route list \<Rightarrow> 'w rc_state \<Rightarrow> nat" where
  "rc_work rs s = (if rc_fault s then 0 else Suc (main_work rs (rc_main s) + sum_list (map go_work (rc_go s))))"

lemma sum_list_become: "i < length gs \<Longrightarrow> go_work g < go_work (gs ! i) \<Longrightarrow> sum_list (map go_work (gs[i := g])) < sum_list (map go_work gs)"
proof (induction gs arbitrary: i)
  case (Cons h gs)
  then show ?case by (cases i) auto
qed simp

lemma list_all_become: "list_all P gs \<Longrightarrow> P g \<Longrightarrow> list_all P (gs[i := g])"
  by (induction gs arbitrary: i) (auto split: nat.split)

lemma after_call_cases:
  obtains x where "fst r = Ret x" "after_call r k s = k x (s\<lparr>rc_world := snd r\<rparr>)"
    | "after_call r k s = s\<lparr>rc_world := snd r, rc_fault := True\<rparr>"
  by (cases r, cases "fst r") (auto simp: after_call_def)

lemma main_step_work:
  assumes "main_step rc rs s = Some s'" and "\<not> rc_fault s" and "list_all has_attempt (rc_go s)"
  shows "rc_work rs s' < rc_work rs s \<and> list_all has_attempt (rc_go s')"
proof (cases "rc_main s")
  case (NodesLoop todo cidrs)
  show ?thesis
  proof (cases todo)
    case (Cons n ns)
    let ?s = "s\<lparr>rc_main := NodesLoop ns (cidrs(Node_Name n \<mapsto> Node_PodCIDR n))\<rparr>"
    let ?r = "updateNetworkingCondition rc (Node_Name n) True (rc_world s)"
    from after_call_cases [of ?r "\<lambda>_ s. s" ?s] have
      "rc_work rs (after_call ?r (\<lambda>_ s. s) ?s) < rc_work rs s \<and> rc_go (after_call ?r (\<lambda>_ s. s) ?s) = rc_go s"
      using assms(2) NodesLoop Cons by cases (simp_all add: rc_work_def)
    with assms NodesLoop Cons show ?thesis
      by (auto simp: main_step_def Let_def rc_work_def maxRetries_def split: if_splits)
  qed (use assms NodesLoop in \<open>auto simp: main_step_def rc_work_def\<close>)
next
  case (RoutesLoop todo cidrs)
  with assms show ?thesis by (cases todo) (auto simp: main_step_def rc_work_def split: if_splits)
qed (use assms in \<open>simp add: main_step_def\<close>)

lemma become_work:
  assumes "\<not> rc_fault s" and "list_all has_attempt (rc_go s)" and "i < length (rc_go s)"
    and "\<And>x. go_work (g x) < go_work (rc_go s ! i) \<and> has_attempt (g x)"
  shows "rc_work rs (after_call r (\<lambda>x s. s\<lparr>rc_go := (rc_go s)[i := g x]\<rparr>) s) < rc_work rs s \<and>
    list_all has_attempt (rc_go (after_call r (\<lambda>x s. s\<lparr>rc_go := (rc_go s)[i := g x]\<rparr>) s))"
  using after_call_cases [of r "\<lambda>x s. s\<lparr>rc_go := (rc_go s)[i := g x]\<rparr>" s]
proof cases
  case (1 x)
  with assms sum_list_become [OF assms(3), of "g x"] list_all_become [OF assms(2), of "g x" i] show ?thesis
    by (simp add: rc_work_def)
next
  case 2
  with assms show ?thesis by (simp add: rc_work_def)
qed

lemma go_step_work:
  assumes m: "go_step rc i s = Some s'" and f: "\<not> rc_fault s" and a: "list_all has_attempt (rc_go s)"
  shows "rc_work rs s' < rc_work rs s \<and> list_all has_attempt (rc_go s')"
proof -
  from m have i: "i < length (rc_go s)" by (simp add: go_step_def split: if_splits)
  note become = become_work [OF f a i]
  show ?thesis
  proof (cases "rc_go s ! i")
    case (Throttled hint r n)
    with a i have "n \<noteq> 0" by (auto simp: list_all_length)
    with Throttled m i become [of "\<lambda>_. Calling hint r (n - 1)" rs "(Ret (), rc_world s)"] show ?thesis
      by (cases n) (auto simp: go_step_def after_call_def Let_def split: if_splits)
  next
    case (Calling hint r n)
    with m i become [of "\<lambda>err. Marking hint r n (err = None)" rs
        "rm_CreateRoute (rc_routes rc) (rc_clusterName rc) hint r (rc_world s)"] show ?thesis
      by (simp add: go_step_def Let_def)
  next
    case (Marking hint r n ok)
    with m i become [of "\<lambda>_. if ok then Created r else if n = 0 then GaveUp r else Throttled hint r n" rs
        "updateNetworkingCondition rc (TargetNode r) ok (rc_world s)"] show ?thesis
      by (simp add: go_step_def Let_def)
  next
    case (Deleting r)
    with m i become [of "\<lambda>err. if err = None then Deleted r else NotDeleted r" rs
        "rm_DeleteRoute (rc_routes rc) (rc_clusterName rc) r (rc_world s)"] show ?thesis
      by (simp add: go_step_def Let_def)
  qed (use m i in \<open>simp_all add: go_step_def Let_def\<close>)
qed

lemma rc_step_work:
  "rc_step rc rs s s' \<Longrightarrow> list_all has_attempt (rc_go s) \<Longrightarrow>
   rc_work rs s' < rc_work rs s \<and> list_all has_attempt (rc_go s')"
  by (auto simp: rc_step.simps rc_move_def split: if_splits nat.splits dest: main_step_work go_step_work)

lemma rc_steps_work:
  "(rc_step rc rs ^^ n) s s' \<Longrightarrow> list_all has_attempt (rc_go s) \<Longrightarrow>
   rc_work rs s' + n \<le> rc_work rs s \<and> list_all has_attempt (rc_go s')"
proof (induction n arbitrary: s')
  case (Suc n)
  then obtain t where "(rc_step rc rs ^^ n) s t" "rc_step rc rs t s'" by auto
  with Suc rc_step_work [of rc rs t s'] show ?case by fastforce
qed simp

text \<open>The number of steps of a round, whatever the schedule.\<close>

lemma round_bounded:
  assumes "(rc_step rc rs ^^ n) (reconcile_start nodes w) s"
  shows "n \<le> 16 * length nodes + 2 * length rs + 3"
  using rc_steps_work [OF assms] by (simp add: reconcile_start_def rc_work_def)

text \<open>A round that has not ended can go on: no goroutine waits forever for a slot.\<close>

lemma calling_nth:
  assumes "0 < in_flight gs"
  obtains i hint r n where "i < length gs" "gs ! i = Calling hint r n"
proof -
  from assms have "filter calling gs \<noteq> []" by (auto simp: in_flight_def)
  then obtain g where "g \<in> set gs" "calling g" by (auto simp: filter_empty_conv)
  then obtain i where "i < length gs" "calling (gs ! i)" by (auto simp: in_set_conv_nth)
  then show ?thesis using that [of i] by (cases "gs ! i") auto
qed

lemma round_progress:
  assumes "\<not> rc_fault s" and "\<not> reconciled s"
  shows "\<exists>s'. rc_step rc rs s s'"
proof (cases "rc_main s = WaitGroup")
  case False
  then have "main_step rc rs s \<noteq> None"
    by (auto simp: main_step_def Let_def split: main_loop.splits list.splits)
  with assms(1) have "rc_move rc rs 0 s \<noteq> None" by (simp add: rc_move_def)
  then show ?thesis by (auto intro: rc_step.move)
next
  case True
  with assms obtain i where i: "i < length (rc_go s)" "\<not> ended (rc_go s ! i)"
    by (auto simp: reconciled_def list_all_length)
  have "\<exists>j. go_step rc j s \<noteq> None"
  proof (cases "in_flight (rc_go s) < maxConcurrentRouteCreations")
    case True
    with i have "go_step rc i s \<noteq> None" by (cases "rc_go s ! i") (simp_all add: go_step_def Let_def)
    then show ?thesis ..
  next
    case False
    then have "0 < in_flight (rc_go s)" by (simp add: maxConcurrentRouteCreations_def)
    from calling_nth [OF this] obtain j hint r n where "j < length (rc_go s)" "rc_go s ! j = Calling hint r n" .
    then have "go_step rc j s \<noteq> None" by (simp add: go_step_def Let_def)
    then show ?thesis ..
  qed
  then obtain j where "rc_move rc rs (Suc j) s \<noteq> None" using assms(1) by (auto simp: rc_move_def)
  then show ?thesis by (auto intro: rc_step.move)
qed

text \<open>The rate limiter: never more than its slots are in use.\<close>

lemma in_flight_become: "in_flight (gs[i := g]) \<le> in_flight gs + (if calling g then 1 else 0)"
proof (induction gs arbitrary: i)
  case (Cons h gs)
  show ?case
  proof (cases i)
    case (Suc j)
    with Cons [of j] show ?thesis by (auto simp: in_flight_def split: if_splits)
  qed (simp add: in_flight_def)
qed (simp add: in_flight_def)

lemma in_flight_snoc: "\<not> calling g \<Longrightarrow> in_flight (gs @ [g]) = in_flight gs"
  by (simp add: in_flight_def)

lemma in_flight_after_call:
  assumes "\<And>x. \<not> calling (g x)"
  shows "in_flight (rc_go (after_call r (\<lambda>x s. s\<lparr>rc_go := (rc_go s)[i := g x]\<rparr>) s)) \<le> in_flight (rc_go s)"
  using after_call_cases [of r "\<lambda>x s. s\<lparr>rc_go := (rc_go s)[i := g x]\<rparr>" s]
proof cases
  case (1 x)
  with assms in_flight_become [of "rc_go s" i "g x"] show ?thesis by simp
qed simp

lemma go_step_flight:
  assumes m: "go_step rc i s = Some s'" and b: "in_flight (rc_go s) \<le> maxConcurrentRouteCreations"
  shows "in_flight (rc_go s') \<le> maxConcurrentRouteCreations"
proof -
  from m have i: "i < length (rc_go s)" by (simp add: go_step_def split: if_splits)
  note keep = order_trans [OF in_flight_after_call b]
  show ?thesis
  proof (cases "rc_go s ! i")
    case (Throttled hint r n)
    with m i in_flight_become [of "rc_go s" i "Calling hint r (n - 1)"] show ?thesis
      by (auto simp: go_step_def Let_def split: if_splits)
  next
    case (Calling hint r n)
    with m i keep [of "\<lambda>err. Marking hint r n (err = None)"
        "rm_CreateRoute (rc_routes rc) (rc_clusterName rc) hint r (rc_world s)" i] show ?thesis
      by (simp add: go_step_def Let_def)
  next
    case (Marking hint r n ok)
    with m i keep [of "\<lambda>_. if ok then Created r else if n = 0 then GaveUp r else Throttled hint r n"
        "updateNetworkingCondition rc (TargetNode r) ok (rc_world s)" i] show ?thesis
      by (simp add: go_step_def Let_def)
  next
    case (Deleting r)
    with m i keep [of "\<lambda>err. if err = None then Deleted r else NotDeleted r"
        "rm_DeleteRoute (rc_routes rc) (rc_clusterName rc) r (rc_world s)" i] show ?thesis
      by (simp add: go_step_def Let_def)
  qed (use m i in \<open>simp_all add: go_step_def Let_def\<close>)
qed

lemma after_call_go: "rc_go (after_call r (\<lambda>_ s. s) t) = rc_go t"
  using after_call_cases [of r "\<lambda>_ s. s" t] by cases simp_all

lemma main_step_flight: "main_step rc rs s = Some s' \<Longrightarrow> in_flight (rc_go s') = in_flight (rc_go s)"
  by (auto simp: main_step_def Let_def in_flight_snoc after_call_go split: main_loop.splits list.splits if_splits)

lemma round_flight:
  "(rc_step rc rs)\<^sup>*\<^sup>* (reconcile_start nodes w) s \<Longrightarrow> in_flight (rc_go s) \<le> maxConcurrentRouteCreations"
proof (induction rule: rtranclp_induct)
  case base
  then show ?case by (simp add: reconcile_start_def in_flight_def)
next
  case (step s t)
  from step(2) obtain i where "rc_move rc rs i s = Some t" by (auto simp: rc_step.simps)
  with step(3) main_step_flight [of rc rs s t] go_step_flight [of rc _ s t] show ?case
    by (auto simp: rc_move_def split: if_splits nat.splits)
qed

text \<open>A schedule is a run.\<close>

lemma rc_moves_steps: "rc_moves rc rs js s = Some s' \<Longrightarrow> (rc_step rc rs)\<^sup>*\<^sup>* s s'"
proof (induction js arbitrary: s)
  case (Cons i js)
  then obtain t where "rc_move rc rs i s = Some t" "rc_moves rc rs js t = Some s'" by (auto simp: bind_eq_Some_conv)
  with Cons.IH show ?case by (meson converse_rtranclp_into_rtranclp rc_step.move)
qed simp

section \<open>The Aliyun provider\<close>

definition route_New ::
  "'w Routes_methods \<Rightarrow> string \<Rightarrow> IPNet \<Rightarrow> ('w \<Rightarrow> (error + KubeNode list) \<times> 'w) \<Rightarrow>
   (string \<Rightarrow> NodeCondition \<Rightarrow> 'w \<Rightarrow> kube_error option \<times> 'w) \<Rightarrow> 'w RouteController" where
  "route_New routes clusterName clusterCIDR nodeLister setNodeCondition =
     \<lparr>rc_routes = routes, rc_clusterName = clusterName, rc_clusterCIDR = clusterCIDR,
      rc_nodeLister = nodeLister, rc_SetNodeCondition = setNodeCondition\<rparr>"

text \<open>The API server has no part in the routes and instances of the cloud.\<close>

definition node_frame ::
  "('w \<Rightarrow> (error + KubeNode list) \<times> 'w) \<Rightarrow> (string \<Rightarrow> NodeCondition \<Rightarrow> 'w \<Rightarrow> kube_error option \<times> 'w) \<Rightarrow>
   'w entries_view \<Rightarrow> 'w inventory_view \<Rightarrow> bool" where
  "node_frame L S rts ins \<longleftrightarrow>
     (\<forall>w. rts (snd (L w)) = rts w \<and> ins (snd (L w)) = ins w) \<and>
     (\<forall>n c w. rts (snd (S n c w)) = rts w \<and> ins (snd (S n c w)) = ins w)"

definition controller_invar ::
  "'w env \<Rightarrow> AliyunProvider \<Rightarrow> 'w entries_view \<Rightarrow> 'w inventory_view \<Rightarrow> ('w \<Rightarrow> (error + KubeNode list) \<times> 'w) \<Rightarrow>
   (string \<Rightarrow> NodeCondition \<Rightarrow> 'w \<Rightarrow> kube_error option \<times> 'w) \<Rightarrow> 'w \<Rightarrow> bool" where
  "controller_invar E p rts ins L S w \<longleftrightarrow> route_invar E p rts ins w \<and> node_frame L S rts ins"

lemma route_New_sel [simp]:
  "rc_clusterName (route_New R c net L S) = c" "rc_clusterCIDR (route_New R c net L S) = net"
  "rc_nodeLister (route_New R c net L S) = L" "rc_SetNodeCondition (route_New R c net L S) = S"
  "rm_ListRoutes (rc_routes (route_New (aliyun_routes E p) c net L S)) = ListRoutes E p"
  "rm_CreateRoute (rc_routes (route_New (aliyun_routes E p) c net L S)) = CreateRoute E p"
  "rm_DeleteRoute (rc_routes (route_New (aliyun_routes E p) c net L S)) = DeleteRoute E p"
  by (simp_all add: route_New_def aliyun_routes_def)

lemma node_frameD:
  assumes "node_frame L S rts ins"
  shows "L w = (r, w') \<Longrightarrow> rts w' = rts w \<and> ins w' = ins w"
    and "S n c w = (e, w') \<Longrightarrow> rts w' = rts w \<and> ins w' = ins w"
  using assms unfolding node_frame_def by (metis snd_conv)+

interpretation rcl: route_reconciler "controller_invar E p rts ins L S" "routes_at p rts ins"
  "route_New (aliyun_routes E p) c net L S" for E p rts ins L S c net
proof (unfold_locales, unfold route_New_sel controller_invar_def, goal_cases)
  case (1 w listed w')
  with al.list_law [of E p rts ins w c listed w'] show ?case by blast
next
  case (2 w hint route r w')
  with al.create_law [of E p rts ins w c hint route r w'] show ?case by blast
next
  case (3 w route r w')
  with al.delete_law [of E p rts ins w c route r w'] show ?case by blast
next
  case (4 w listed w')
  with node_frameD(1) [of L S rts ins w listed w'] show ?case by (simp add: route_invar_def routes_at_def)
next
  case (5 w n c r w')
  with node_frameD(2) [of L S rts ins n c w r w'] show ?case by (simp add: route_invar_def routes_at_def)
qed

end
