(* ===== verification/Spec2Isabelle.thy ===== *)
theory Spec2Isabelle
  imports Reference_Cloud Flexv_Protocol Replicas Route_Reconcile
begin

text \<open>
  A verification development for the Aliyun integration of Kubernetes: a controller daemon
  (\<^verbatim>\<open>src/cmd/aliyun-controller\<close>) and a flexvolume plugin (\<^verbatim>\<open>src/cmd/aliyun-flexv\<close>) over one
  cloud provider (\<^verbatim>\<open>src/pkg/cloudprovider/providers/aliyun\<close>).

  \<^bold>\<open>The program.\<close> The daemon takes part in a leader election; the replica that leads runs three
  library controllers, which call the provider: the service controller keeps an Aliyun load
  balancer for every service of type LoadBalancer, the route controller keeps VPC route entries
  for the nodes, the provision controller creates and deletes cloud disks. The plugin is started
  by the kubelet once per volume operation (init, attach, waitforattach, isattached, mountdevice,
  unmountdevice, detach, getvolumename), performs it through the provider's volume driver and
  prints a JSON status. The provider finds instances by node name and talks to the cloud through
  the client library \<^verbatim>\<open>aliyungo\<close>.

  \<^bold>\<open>How Go is modelled.\<close> A Go function that reaches the outside is a function from the state of the
  world to an outcome (\<open>Ret\<close>, \<open>Panic\<close> or \<open>Exit\<close>) and the new world (\<^verbatim>\<open>Go_Prelude\<close>). An error is a value,
  \<open>Inl e\<close> in a result or \<open>Some e\<close> where Go returns a bare \<^verbatim>\<open>error\<close>. The world is a type variable and
  what can be done to it (the requests of the cloud, the node's files, mounts and commands, the
  clock, the order in which a map is visited) is the record \<open>env\<close>, an argument of every definition
  (\<^verbatim>\<open>Aliyun_Client\<close>; \<open>kube\<close> in \<^verbatim>\<open>Controller\<close>, \<open>service_kube\<close>, \<open>RouteController\<close> and
  \<open>ProvisionController\<close> have the operations of the Kubernetes client that the controllers use). What the cloud is
  relied upon to do is stated as contracts over views of the world (\<open>slb_contract\<close>, \<open>route_contract\<close>,
  \<open>disk_contract\<close>, \<open>makes_disks\<close>, and \<open>keeps_volumes\<close> for the API server); every operation may fail at
  any time in all of them. \<^verbatim>\<open>Reference_Cloud\<close> has a cloud
  that can be run and meets all of the contracts; the witnesses below run the program on it.

  \<^bold>\<open>The theories.\<close>
  \<^item> \<^verbatim>\<open>Go_Prelude\<close>: outcomes, sequencing, loops over slices; \<open>keeps\<close> (a view is left alone) and
    \<open>returns\<close> (no panic, and the result has a property) with their introduction rules.
  \<^item> \<^verbatim>\<open>Go_Strings\<close>: the functions of \<^verbatim>\<open>strings\<close>, \<^verbatim>\<open>strconv\<close> and \<^verbatim>\<open>path\<close> that are used; \<^verbatim>\<open>Atoi\<close> inverts \<^verbatim>\<open>Itoa\<close>.
  \<^item> \<^verbatim>\<open>Go_Net\<close>: addresses and networks of \<^verbatim>\<open>net\<close>: \<^verbatim>\<open>ParseCIDR\<close> for both families, \<^verbatim>\<open>Contains\<close>; printing and parsing.
  \<^item> \<^verbatim>\<open>Go_Map\<close>: Go maps; locale \<open>go_map\<close>, interpreted on association lists with a visiting order.
  \<^item> \<^verbatim>\<open>Quantity\<close>: resource quantities with \<^verbatim>\<open>int64\<close> amounts at their width, and the big-decimal form.
  \<^item> \<^verbatim>\<open>Map_Utils\<close>: \<^verbatim>\<open>pkg/util/map_utils.go\<close>.
  \<^item> \<^verbatim>\<open>Aliyun_Client\<close>: records and calls of \<^verbatim>\<open>aliyungo\<close>.
  \<^item> \<^verbatim>\<open>Provider\<close>: \<^verbatim>\<open>provider.go\<close> and \<^verbatim>\<open>aliyun.go\<close>: registry, construction, capabilities.
  \<^item> \<^verbatim>\<open>Instances\<close>: \<^verbatim>\<open>utils.go\<close> and \<^verbatim>\<open>pkg/util/node.go\<close>; locale \<open>node_naming\<close>, interpreted on both ways of
    naming nodes (private address, host name).
  \<^item> \<^verbatim>\<open>Load_Balancer\<close>, \<^verbatim>\<open>Listener_Sync\<close>, \<^verbatim>\<open>Load_Balancer_Sync\<close>: \<^verbatim>\<open>loadbalancer.go\<close>; what the listener loop
    does to the listeners of the cloud; the operations of the load balancer interface.
  \<^item> \<^verbatim>\<open>Vpc_Routes\<close>, \<^verbatim>\<open>Route_Sync\<close>: \<^verbatim>\<open>routes.go\<close> and \<^verbatim>\<open>zones.go\<close>; locale \<open>routes_provider\<close>, the abstract set of
    routes the route controller relies on, interpreted on the provider.
  \<^item> \<^verbatim>\<open>Volume_Driver\<close>, \<^verbatim>\<open>Volume_Laws\<close>: \<^verbatim>\<open>volume.go\<close>: attach, wait, mount, unmount, detach, provision, delete.
  \<^item> \<^verbatim>\<open>Flexv\<close>, \<^verbatim>\<open>Flexv_Protocol\<close>: the plugin's \<^verbatim>\<open>main.go\<close> over the locale \<open>volume_driver\<close> (interpreted on the
    provider), and the kubelet's side of the protocol.
  \<^item> \<^verbatim>\<open>Leader_Election\<close>, \<^verbatim>\<open>Leader_Safety\<close>: the lease protocol as a timed transition system of any number
    of replicas, its invariant, and locale \<open>election\<close> with the condition on the durations, interpreted on
    the program's configuration.
  \<^item> \<^verbatim>\<open>Kube_Api\<close>: nodes, conditions and kinds of errors of the API server.
  \<^item> \<^verbatim>\<open>Service_Controller\<close>, \<^verbatim>\<open>Service_Laws\<close>: \<^verbatim>\<open>servicecontroller.go\<close> of the Kubernetes library: handlers, queue, cache,
    synchronisation, deletion and node loop, and their steps in any order (\<open>sc_step\<close>); locales \<open>balancer\<close> (the
    interface \<^verbatim>\<open>LoadBalancer\<close>) and \<open>service_controller\<close>, interpreted on the provider.
  \<^item> \<^verbatim>\<open>Route_Controller\<close>, \<^verbatim>\<open>Route_Reconcile\<close>: \<^verbatim>\<open>routecontroller.go\<close>: a round with its main loop and goroutines as a
    transition system (\<open>rc_step\<close>); locale \<open>route_reconciler\<close> extends \<open>routes_provider\<close>.
  \<^item> \<^verbatim>\<open>Provision_Controller\<close>, \<^verbatim>\<open>Provision_Laws\<close>: \<^verbatim>\<open>controller.go\<close> of the external-storage library: decisions, failure
    counts, the operations with their retries, the map of goroutines (\<open>pc_step\<close>); locales \<open>provisioner\<close> and
    \<open>provision_controller\<close>, interpreted on the provider.
  \<^item> \<^verbatim>\<open>Controller\<close>, \<^verbatim>\<open>Replicas\<close>: options, flags, \<^verbatim>\<open>NewController\<close> (with \<^verbatim>\<open>init\<close> of the service
    controller) and \<^verbatim>\<open>main\<close> of the daemon; \<^verbatim>\<open>Run\<close> as a process
    beside the election, and clusters of such processes.
  \<^item> \<^verbatim>\<open>Reference_Cloud\<close>: the cloud of the witnesses and the proofs that it meets the contracts.

  \<^bold>\<open>What is shown.\<close>
  \<^item> C1 to C9, load balancers: the listeners and backends after a synchronisation that reports success
    are those of the service and its nodes, other load balancers are left alone, deletion, refusals,
    names, and a failure of the error handling.
  \<^item> C10 to C15, the service controller: a run settles a service or queues it again, for existing and
    deleted services; changes that are passed over do not matter; no failure is forgotten in any
    order of events; the node loop reaches every service; the panic on a result that is missing.
  \<^item> C16 to C19, routes and nodes: created and deleted routes; lookup by node name.
  \<^item> C20 to C22, the route controller: what a round does to the route table for every schedule of the
    goroutines; every round ends; responsibility for a route is inclusion of networks.
  \<^item> C23 to C28, volumes: attach, detach, the paged search of a device, provisioning and its size
    arithmetic; no operation panics.
  \<^item> C29 and C30, the provision controller: no disk is left behind, a volume object goes only with its
    disk.
  \<^item> C31 to C34, the plugin: a cycle of kubelet calls, output and exit status of every run, and how the
    kubelet reads it.
  \<^item> C35 and C36, construction of the provider and the conversion of structs.
  \<^item> C37 to C40, the daemon: at most one leader, the attempt of one replica as a run of the system,
    construction, and workers that run only under the lease.
  The lemmas between them show more of the same parts: listing refines an abstract set, repeated
  attaching, refusals of claims, device names, the waiting loop, JSON, copying of maps, rounding of
  quantities, the limit on failures of a claim, and that no two goroutines provision the same claim.

  \<^bold>\<open>Loops, fuel and bounds.\<close> Loops over slices are structural recursions. The waiting loop of the
  client (\<open>WaitForDisk_loop\<close>) recurses on the remaining time, which every round lowers by the polling
  interval. The search over pages (\<open>getDiskByDevice\<close>) need not end when the cloud keeps announcing
  pages, so it is a \<open>partial_function (option)\<close>, and that it returns is proved for a cloud that
  numbers its pages as documented. Retries count down from the constants of the source. A round of the
  route controller takes at most 16 steps per node, 2 per route and 3 more (C21). The parser of the
  command line has the number of arguments as its fuel; every round consumes one, and more fuel changes nothing (\<open>parseArgs_fuel\<close>). Integers of Go are
  \<open>int\<close> where the values are ports, sizes and counters far from the limits, and are kept at 64 bits in
  \<open>Quantity\<close>. In the election, one attempt takes at most \<open>D\<close>; safety needs
  \<open>RenewDeadline + 3 D + Second < LeaseDuration\<close>, which the default durations satisfy for a \<open>D\<close> of one
  second.

  \<^bold>\<open>Not modelled.\<close> Request signing, HTTP and JSON decoding of the cloud client, file system and mount
  utilities, and the decoding of the plugin's option argument are operations of the environment. So are
  the informers of the controllers, whose listers answer from the world, and the API server. The
  delaying queue of the service controller keeps the keys it was given; that a key becomes due after
  its delay is left to the steps. The timer that starts one round of the route controller after the
  other is left out. In the provision controller an operation is one step, and the election and the
  watch for a single claim are reduced to what they report, because the goroutines they start
  communicate only through the objects of the API server. Log messages have no effect on the
  results; the event broadcaster and the profiling server (whose flag is never parsed) are left out. Flags are parsed
  in their long form. A process that ends is not started again under the same identity. Clocks of
  the replicas run at the same rate.
\<close>

section \<open>Load balancers\<close>


lemma run_result: "fst x = r \<Longrightarrow> x = (r, snd x)"
  by (cases x) simp


text \<open>
  C2. Total correctness of the synchronisation of listeners. If moreover the service carries
  out every request that makes sense, the ports have distinct numbers and supported
  protocols, and the description of the load balancer is up to date, then
  \<^verbatim>\<open>ensureLBListeners\<close> returns without an error and without a panic, it leaves exactly the
  wanted listeners, all started, and it touches no other load balancer.
\<close>

theorem ensureLBListeners_total:
  assumes "listener_contract E lsn" and "listener_reliable E lsn" and "range_ok E"
    and "wf_ports ports" and "check_protocols ports = None"
    and "listener_snapshot (lsn w (LoadBalancerId lb)) lb"
    and "int32_backends (lsn w (LoadBalancerId lb))" and "tcp_udp (lsn w (LoadBalancerId lb))"
  shows "\<exists>w' V. ensureLBListeners E lb ports options w = (Ret None, w') \<and>
    lsn w' = (lsn w)(LoadBalancerId lb := V) \<and> listeners_in_sync V ports"
proof -
  from ensureLBListeners_returns [OF assms] obtain w' where
    r: "ensureLBListeners E lb ports options w = (Ret None, w')" by blast
  from ensureLBListeners_converges [OF assms(1,3,4,6,7) r] r show ?thesis by blast
qed

lemma sample_tcp_udp: "tcp_udp (view_listeners sample_cloud ''lb-0'')"
  by (auto simp: tcp_udp_def view_listeners_def sample_cloud_def)

lemma sample_lb_id [simp]: "LoadBalancerId (ref_lb c lid name) = lid"
  by (simp add: ref_lb_def)

theorem ensureLBListeners_total_witness:
  "\<exists>w' V. ensureLBListeners ref_env (ref_lb sample_cloud ''lb-0'' ''a6f1d22'') (Ports sample_service) zero_options
       sample_cloud = (Ret None, w') \<and>
     view_listeners w' = (view_listeners sample_cloud)(''lb-0'' := V) \<and> listeners_in_sync V (Ports sample_service)"
proof -
  have "check_protocols (Ports sample_service) = None" by code_simp
  from ensureLBListeners_total [OF ref_listener_contract ref_listener_reliable ref_range_ok sample_ports_wf this,
      where lb = "ref_lb sample_cloud ''lb-0'' ''a6f1d22''" and w = sample_cloud]
  show ?thesis using ref_snapshots [OF sample_lb_wf] sample_tcp_udp by simp
qed

text \<open>
  C3. Synchronising listeners that are in sync already changes nothing: the run consists of
  queries, and the listeners of every load balancer are the same afterwards.
\<close>

theorem ensureLBListeners_idempotent:
  assumes "listener_contract E lsn" and "range_ok E" and "wf_ports ports"
    and "listener_snapshot (lsn w (LoadBalancerId lb)) lb"
    and "int32_backends (lsn w (LoadBalancerId lb))"
    and "listeners_in_sync (lsn w (LoadBalancerId lb)) ports"
    and "ensureLBListeners E lb ports options w = (r, w')"
  shows "lsn w' = lsn w"
  by (rule ensureLBListeners_unchanged [OF assms])

text \<open>The sample cloud with the listeners of the sample service.\<close>

definition synced_cloud :: cloud where
  "synced_cloud = set_listeners sample_cloud ''lb-0''
     [(53, \<lparr>ls_protocol = ''udp'', ls_backend = 30053, ls_status = ''running''\<rparr>),
      (80, \<lparr>ls_protocol = ''tcp'', ls_backend = 30080, ls_status = ''running''\<rparr>)]"

lemma synced_cloud_wf: "wf_lb synced_cloud ''lb-0''"
  by code_simp

lemma synced_cloud_in_sync: "listeners_in_sync (view_listeners synced_cloud ''lb-0'') (Ports sample_service)"
  by (auto simp: listeners_in_sync_def view_listeners_def synced_cloud_def set_listeners_def sample_service_def
      wanted_ports_def created_def ToLower_def lower_char_def char_of_def bit_0 Stopped_def split: if_splits)

theorem ensureLBListeners_idempotent_witness:
  "listeners_in_sync (view_listeners synced_cloud ''lb-0'') (Ports sample_service) \<and>
   view_listeners (snd (ensureLBListeners ref_env (ref_lb synced_cloud ''lb-0'' ''a6f1d22'') (Ports sample_service)
     zero_options synced_cloud)) = view_listeners synced_cloud"
  using ensureLBListeners_idempotent [OF ref_listener_contract ref_range_ok sample_ports_wf,
      where w = synced_cloud and lb = "ref_lb synced_cloud ''lb-0'' ''a6f1d22''", OF _ _ _ surjective_pairing]
    ref_snapshots [OF synced_cloud_wf] synced_cloud_in_sync
  by simp

text \<open>
  C4. After \<^verbatim>\<open>ensureLBBackends\<close> without an error the load balancer has exactly the given
  instances as backends: one that was registered keeps its weight, a new one has weight
  100, and no other load balancer is touched.
\<close>

theorem ensureLBBackends_exact:
  assumes "backend_contract E bks" and "range_ok E"
    and "backend_snapshot (bks w (LoadBalancerId lb)) lb"
    and "ensureLBBackends E lb instances w = (Ret None, w')"
  shows "bks w' = (bks w)(LoadBalancerId lb :=
    (\<lambda>i. if i \<in> InstanceId ` set instances
         then Some (case bks w (LoadBalancerId lb) i of Some weight \<Rightarrow> weight | None \<Rightarrow> 100) else None))"
  using ensureLBBackends_converges [OF assms] by (simp add: synced_backends_def)

theorem ensureLBBackends_exact_witness:
  "view_backends (snd (ensureLBBackends ref_env (ref_lb sample_cloud ''lb-0'' ''a6f1d22'') [instance1] sample_cloud))
     ''lb-0'' = [''i-1'' \<mapsto> 100]"
proof -
  have "fst (ensureLBBackends ref_env (ref_lb sample_cloud ''lb-0'' ''a6f1d22'') [instance1] sample_cloud) = Ret None"
    by code_simp
  from ensureLBBackends_exact [OF ref_backend_contract ref_range_ok _ run_result [OF this]]
    ref_snapshots(3) [OF sample_lb_wf, of "''a6f1d22''"]
  show ?thesis by (auto simp: instance1_def view_backends_def sample_cloud_def)
qed

text \<open>
  C5. A success of \<^verbatim>\<open>UpdateLoadBalancer\<close> means a synchronised load balancer, in the same
  sense as for \<^verbatim>\<open>EnsureLoadBalancer\<close>: the load balancer that was found by the service's name
  has exactly the listeners of the ports and exactly the instances the nodes were resolved
  to, which happens after the listeners are in place.
\<close>

theorem UpdateLoadBalancer_correct:
  assumes "slb_contract E nms lsn bks" and "range_ok E" and "wf_ports (Ports service)"
    and "instance_frame E nms" and "instance_frame E lsn" and "instance_frame E bks"
    and "UpdateLoadBalancer E p service nodes w = (Ret None, w')"
  shows "\<exists>lb w0 w1 instances w2.
    getLoadBalancer E p (GetLoadBalancerName service) w = (Ret (Inr (Some lb)), w0) \<and>
    ensureLBListeners E lb (Ports service) (read_options (Annotations service)) w0 = (Ret None, w1) \<and>
    getInstancesByNodes E p nodes w1 = (Ret (Inr instances), w2) \<and>
    nms w' (LoadBalancerId lb) = Some (GetLoadBalancerName service) \<and>
    lb_in_sync lsn bks w' (LoadBalancerId lb) (Ports service) instances"
  by (rule UpdateLoadBalancer_in_sync [OF assms])

theorem UpdateLoadBalancer_correct_witness:
  "\<exists>(lb :: LoadBalancerType) instances.
     (let w' = snd (UpdateLoadBalancer ref_env sample_provider sample_service [sample_node] sample_cloud)
      in view_names w' (LoadBalancerId lb) = Some (GetLoadBalancerName sample_service) \<and>
         lb_in_sync view_listeners view_backends w' (LoadBalancerId lb) (Ports sample_service) instances)"
proof -
  have "fst (UpdateLoadBalancer ref_env sample_provider sample_service [sample_node] sample_cloud) = Ret None"
    by code_simp
  from UpdateLoadBalancer_correct [OF ref_slb_contract ref_range_ok sample_ports_wf ref_instance_frame
      ref_instance_frame ref_instance_frame run_result [OF this]]
  show ?thesis unfolding Let_def by blast
qed

text \<open>
  C6. When \<^verbatim>\<open>EnsureLoadBalancerDeleted\<close> reports success, the load balancer with the service's
  name is gone and every other one is still there, provided the name was not given twice.
\<close>

theorem EnsureLoadBalancerDeleted_correct:
  assumes "describes_lbs E nms lsn bks" and "deletes_lbs E nms"
    and "\<And>a b. nms w a = Some (GetLoadBalancerName service) \<Longrightarrow>
        nms w b = Some (GetLoadBalancerName service) \<Longrightarrow> a = b"
    and "EnsureLoadBalancerDeleted E p service w = (Ret None, w')"
  shows "nms w' = (\<lambda>lid. if nms w lid = Some (GetLoadBalancerName service) then None else nms w lid)"
  by (rule EnsureLoadBalancerDeleted_gone [OF assms])

theorem EnsureLoadBalancerDeleted_correct_witness:
  "GetLoadBalancerName sample_service = ''a6f1d22'' \<and> view_names sample_cloud ''lb-0'' = Some ''a6f1d22'' \<and>
   view_names (snd (EnsureLoadBalancerDeleted ref_env sample_provider sample_service sample_cloud)) = Map.empty"
proof -
  have r: "fst (EnsureLoadBalancerDeleted ref_env sample_provider sample_service sample_cloud) = Ret None"
    by code_simp
  have n: "GetLoadBalancerName sample_service = ''a6f1d22''" by code_simp
  have v: "view_names sample_cloud = [''lb-0'' \<mapsto> ''a6f1d22'']"
    by (simp add: view_names_def sample_cloud_def)
  have "a = b" if "view_names sample_cloud a = Some (GetLoadBalancerName sample_service)"
      "view_names sample_cloud b = Some (GetLoadBalancerName sample_service)" for a b
    using that unfolding v by (auto split: if_splits)
  from EnsureLoadBalancerDeleted_correct [OF ref_describes_lbs ref_deletes_lbs this run_result [OF r]]
  have "view_names (snd (EnsureLoadBalancerDeleted ref_env sample_provider sample_service sample_cloud)) = Map.empty"
    unfolding v n by (simp add: fun_eq_iff)
  with n v show ?thesis by simp
qed

text \<open>
  C7. A service the provider cannot serve (session affinity, a protocol other than TCP and
  UDP, a fixed address) is refused with an error before any request is made.
\<close>

theorem EnsureLoadBalancer_refuses:
  assumes "SessionAffinity service \<noteq> ServiceAffinityNone \<or>
    (\<exists>sp \<in> set (Ports service). Protocol sp \<noteq> ProtocolTCP \<and> Protocol sp \<noteq> ProtocolUDP) \<or>
    LoadBalancerIP service \<noteq> ''''"
  shows "\<exists>e. EnsureLoadBalancer E p service nodes w = (Ret (None, Some e), w)"
  using EnsureLoadBalancer_rejects [OF assms, of E p nodes] by (auto simp: ret_def)

theorem EnsureLoadBalancer_refuses_witness:
  "\<exists>e. EnsureLoadBalancer ref_env sample_provider (sample_service\<lparr>LoadBalancerIP := ''10.1.1.1''\<rparr>)
     [sample_node] sample_cloud = (Ret (None, Some e), sample_cloud)"
  by (rule EnsureLoadBalancer_refuses) simp

text \<open>
  C8. Load balancer names: at most 32 characters, no dash, and two services share a name
  exactly when the first 31 characters of their identifiers, dashes left out, agree.
\<close>

theorem GetLoadBalancerName_properties:
  "length (GetLoadBalancerName s) \<le> 32 \<and> CHR ''-'' \<notin> set (GetLoadBalancerName s) \<and>
   (GetLoadBalancerName s = GetLoadBalancerName t \<longleftrightarrow>
      take 31 (filter (\<lambda>c. c \<noteq> CHR ''-'') (UID s)) = take 31 (filter (\<lambda>c. c \<noteq> CHR ''-'') (UID t)))"
  by (auto simp: GetLoadBalancerName_eq dest: in_set_takeD)

text \<open>
  C9. The query of a listener's attributes that fails in the cloud ends in a panic: the
  response, which is nil then, is read before the error is looked at.
\<close>

theorem getLBListenerAttributes_panics:
  assumes "ToLower (ListenerProtocol l) = ''tcp'' \<and>
      invoke_DescribeTCPListenerAttribute E (LoadBalancerId lb) (ListenerPort l) w = (Inl e, w') \<or>
    ToLower (ListenerProtocol l) = ''udp'' \<and>
      invoke_DescribeUDPListenerAttribute E (LoadBalancerId lb) (ListenerPort l) w = (Inl e, w')"
  shows "getLBListenerAttributes E lb l w =
    (Panic ''runtime error: invalid memory address or nil pointer dereference'', w')"
  using assms by (auto simp: getLBListenerAttributes_def client_defs go_defs read_listener_def nil_deref_def)

theorem getLBListenerAttributes_panics_witness:
  "getLBListenerAttributes ref_env (ref_lb sample_cloud ''lb-0'' ''a6f1d22'')
     \<lparr>ListenerPort = 8080, ListenerProtocol = ''tcp''\<rparr> sample_cloud =
   (Panic ''runtime error: invalid memory address or nil pointer dereference'', sample_cloud)"
proof (rule getLBListenerAttributes_panics, intro disjI1 conjI)
  show "ToLower (ListenerProtocol \<lparr>ListenerPort = 8080, ListenerProtocol = ''tcp''\<rparr>) = ''tcp''"
    by code_simp
  show "invoke_DescribeTCPListenerAttribute ref_env (LoadBalancerId (ref_lb sample_cloud ''lb-0'' ''a6f1d22''))
      (ListenerPort \<lparr>ListenerPort = 8080, ListenerProtocol = ''tcp''\<rparr>) sample_cloud =
    (Inl ''ListenerNotFound'', sample_cloud)"
    by (simp add: ref_env_def ref_describe_listener_def sample_cloud_def)
qed

text \<open>
  A load balancer that was created but does not show up in the three rounds of waiting is not
  reported: \<^verbatim>\<open>EnsureLoadBalancer\<close> returns neither a status nor an error.
\<close>

text \<open>A cloud that accepts the creation of a load balancer and never lists one.\<close>

definition blind_env :: "cloud env" where
  "blind_env = ref_env\<lparr>invoke_DescribeLoadBalancers := (\<lambda>region c. (Inr [], c)),
     invoke_DescribeInstances := (\<lambda>args c. (Inr (one_page [instance1]), c))\<rparr>"

lemma blind_instances: "\<exists>instances w'. getInstancesByNodes blind_env sample_provider [sample_node] w = (Ret (Inr instances), w')"
  by (simp add: getInstancesByNodes_def getInstancesByNodeNames_def getInstances_def client_defs blind_env_def
      ref_env_def one_page_def instance1_def sample_node_def sample_provider_def by_node_name_def byPrivateIP_def go_defs)

lemma blind_balancers: "\<exists>w'. getLoadBalancer blind_env sample_provider name w = (Ret (Inr None), w')"
  by (simp add: getLoadBalancer_def client_defs blind_env_def go_defs)

lemma blind_create: "\<exists>w'. create_lb blind_env sample_provider name options w = (Ret None, w')"
  by (simp add: create_lb_def client_defs blind_env_def ref_env_def ref_create_lb_def go_defs)

lemma EnsureLoadBalancer_no_result:
  "\<exists>w'. EnsureLoadBalancer blind_env sample_provider sample_service [sample_node] w = (Ret (None, None), w')"
proof (rule EnsureLoadBalancer_invisible)
  show "SessionAffinity sample_service = ServiceAffinityNone" by (simp add: sample_service_def ServiceAffinityNone_def)
  show "check_protocols (Ports sample_service) = None" by code_simp
  show "LoadBalancerIP sample_service = ''''" by (simp add: sample_service_def)
qed (rule blind_instances blind_balancers blind_create)+

section \<open>The service controller\<close>


definition web_service :: KubeService where
  "web_service = Service.extend sample_service
     \<lparr>Svc_Namespace = ''default'', Svc_Name = ''web'', Svc_Type = ''LoadBalancer'', Svc_SourceRanges = None,
      Svc_ExternalIPs = [], Svc_Ingress = []\<rparr>"

definition web_nodes :: "KubeNode list" where
  "web_nodes = [\<lparr>Node_Name = ''10.0.0.1'', Node_Addresses = [], Node_UID = ''u-1'', Node_PodCIDR = ''172.16.1.0/24'',
     Node_Unschedulable = False, Node_Conditions = []\<rparr>,
    \<lparr>Node_Name = ''10.0.0.2'', Node_Addresses = [], Node_UID = ''u-2'', Node_PodCIDR = ''172.16.2.0/24'',
     Node_Unschedulable = True, Node_Conditions = []\<rparr>]"

lemma web_service_truncate [simp]: "Service.truncate web_service = sample_service"
  by (simp add: web_service_def Service.extend_def Service.truncate_def sample_service_def)

lemma web_key: "SplitMetaNamespaceKey ''default/web'' = Inr (''default'', ''web'')"
  by code_simp

lemma sample_unique: "unique_name view_names sample_cloud sample_service"
  by (auto simp: unique_name_def view_names_def sample_cloud_def split: if_splits)


text \<open>
  C11. A service that is gone from the API server. If the cache knows it as one with a load
  balancer, then after the run either the load balancer is gone and the cache has forgotten
  the service, or the key is queued again.
\<close>

theorem syncService_deleted:
  assumes "describes_lbs E nms lsn bks" and "deletes_lbs E nms" and "service_frame K nms lsn bks"
    and "SplitMetaNamespaceKey key = Inr (ns, name)" and "sk_GetService K ns name w = (Inl e, w0)" and "IsNotFound e"
    and "map_of (sc_cache s) key = Some cs" and "cs_state cs = Some service" and "wantsLoadBalancer service"
    and "unique_name nms w0 (Service.truncate service)"
    and "syncService (aliyun_balancer E p) K key (w, s) = (Ret r, (w', s'))"
  shows "map_of (sc_cache s') = (map_of (sc_cache s))(key := None) \<and> sc_queue s' = sc_queue s \<and>
      (\<forall>lid. nms w' lid \<noteq> Some (GetLoadBalancerName (Service.truncate service))) \<or>
    (\<exists>delay. 5 \<le> delay \<and> delay \<le> 300 \<and> sc_queue s' = sc_queue s @ [(key, delay)])"
proof (cases rule: syncService_deletion [OF assms(4,5,6,11)])
  case (3 cs' service')
  with assms(7,8) aliyun_lb.delete_law [of E p "Service.truncate service" w0 w' nms lsn bks K] assms(1-3,10)
  show ?thesis by auto
next
  case (4 cs' service' x)
  with nextRetryDelay_bounds [of cs'] show ?thesis by (auto simp: minRetryDelay_def maxRetryDelay_def)
qed (use assms in auto)

definition web_cached :: sc_state where
  "web_cached = sc_start\<lparr>sc_cache := [(''default/web'', \<lparr>cs_state = Some web_service, cs_lastRetryDelay = 0\<rparr>)]\<rparr>"

theorem syncService_deleted_witness:
  "\<forall>lid. view_names (fst (snd (syncService (aliyun_balancer ref_env sample_provider) (ref_services (Inl (NotFound ''gone'')) [])
     ''default/web'' (sample_cloud, web_cached)))) lid \<noteq> Some ''a6f1d22''"
proof -
  let ?K = "ref_services (Inl (NotFound ''gone'')) []"
  let ?r = "syncService (aliyun_balancer ref_env sample_provider) ?K ''default/web'' (sample_cloud, web_cached)"
  have r: "fst ?r = Ret None" by code_simp
  have q: "sc_queue (snd (snd ?r)) = []" by code_simp
  have w: "wantsLoadBalancer web_service" by code_simp
  have n: "GetLoadBalancerName sample_service = ''a6f1d22''" by code_simp
  have g: "sk_GetService ?K ''default'' ''web'' sample_cloud = (Inl (NotFound ''gone''), sample_cloud)" "IsNotFound (NotFound ''gone'')"
    by (simp_all add: ref_services_def IsNotFound_def)
  have c: "map_of (sc_cache web_cached) ''default/web'' = Some \<lparr>cs_state = Some web_service, cs_lastRetryDelay = 0\<rparr>"
    by (simp add: web_cached_def)
  from r have run: "?r = (Ret None, (fst (snd ?r), snd (snd ?r)))" by (metis prod.collapse)
  from syncService_deleted [OF ref_describes_lbs ref_deletes_lbs ref_service_frame web_key g c _ w _ run] sample_unique q n
  show ?thesis by (auto simp: web_cached_def sc_start_def)
qed

text \<open>
  C12. Changes that are passed over do not matter. When \<^verbatim>\<open>needsUpdate\<close> says no, the service
  wants a load balancer after the change if and only if it did before, and creating the load
  balancer for the new service is the same computation as for the old one.
\<close>

theorem needsUpdate_sound:
  assumes "\<not> needsUpdate old new"
  shows "wantsLoadBalancer old = wantsLoadBalancer new \<and>
    (wantsLoadBalancer new \<longrightarrow> createLoadBalancer B K old = createLoadBalancer B K new)"
proof (cases "wantsLoadBalancer new")
  case True
  show ?thesis unfolding createLoadBalancer_def not_needsUpdate(2) [OF assms True] using not_needsUpdate(1) [OF assms True] True by simp
next
  case False
  with assms show ?thesis by (auto simp: needsUpdate_def split: if_splits)
qed

definition tcp_service :: KubeService where
  "tcp_service = web_service\<lparr>Ports := [\<lparr>Port_Name = ''http'', Protocol = ''TCP'', Port = 80, NodePort = 30080\<rparr>]\<rparr>"

theorem needsUpdate_sound_witness:
  "createLoadBalancer (aliyun_balancer ref_env sample_provider) (ref_services (Inr tcp_service) web_nodes)
     (tcp_service\<lparr>Svc_Ingress := [(''47.88.0.1'', '''')]\<rparr>) =
   createLoadBalancer (aliyun_balancer ref_env sample_provider) (ref_services (Inr tcp_service) web_nodes) tcp_service"
proof -
  have "\<not> needsUpdate (tcp_service\<lparr>Svc_Ingress := [(''47.88.0.1'', '''')]\<rparr>) tcp_service"
    by (simp add: needsUpdate_def tcp_service_def web_service_def wantsLoadBalancer_def portsEqualForLB_def getPortsForLB_def
        portSlicesEqualForLB_def portEqualForLB_def Service.extend_def sample_service_def)
  moreover have "wantsLoadBalancer tcp_service" by code_simp
  ultimately show ?thesis using needsUpdate_sound by blast
qed

text \<open>
  C13. No failure is forgotten. In every state the controller can reach, whatever the order of
  events, workers and node updates, a cached service that wants a load balancer and whose last
  run failed is in the queue, and no delay is above 300 seconds.
\<close>

theorem failures_are_retried:
  assumes "(sc_step B K)\<^sup>*\<^sup>* (w, sc_start) (w', s)" and "map_of (sc_cache s) key = Some cs"
  shows "cs_lastRetryDelay cs \<le> 300 \<and>
    (cs_lastRetryDelay cs \<noteq> 0 \<and> (\<exists>service. cs_state cs = Some service \<and> wantsLoadBalancer service) \<longrightarrow>
      key \<in> fst ` set (sc_queue s))"
  using sc_inv_reachable [OF assms(1)] assms(2) by (auto simp: sc_inv_def cached_ok_def maxRetryDelay_def)

definition fixed_service :: KubeService where
  "fixed_service = web_service\<lparr>LoadBalancerIP := ''10.1.1.1''\<rparr>"

theorem failures_are_retried_witness:
  "\<exists>w' s. (sc_step (aliyun_balancer ref_env sample_provider) (ref_services (Inr fixed_service) web_nodes))\<^sup>*\<^sup>*
     (sample_cloud, sc_start) (w', s) \<and> ''default/web'' \<in> fst ` set (sc_queue s)"
proof -
  let ?B = "aliyun_balancer ref_env sample_provider" and ?K = "ref_services (Inr fixed_service) web_nodes"
  let ?q = "sc_start\<lparr>sc_queue := [(''default/web'', 0)]\<rparr>"
  let ?r = "syncService ?B ?K ''default/web'' (sample_cloud, ?q\<lparr>sc_queue := []\<rparr>)"
  have r: "fst ?r = Ret None" by code_simp
  have "map_option (\<lambda>cs. (cs_lastRetryDelay cs, map_option wantsLoadBalancer (cs_state cs)))
      (map_of (sc_cache (snd (snd ?r))) ''default/web'') = Some (5, Some True)" by code_simp
  then obtain cs service where c: "map_of (sc_cache (snd (snd ?r))) ''default/web'' = Some cs" "cs_lastRetryDelay cs = 5"
    "cs_state cs = Some service" "wantsLoadBalancer service" by auto
  have "sc_step ?B ?K (sample_cloud, sc_start) (sample_cloud, ?q)"
    by (rule sc_step.event [of "''default/web''"]) (simp add: enqueue_def sc_start_def)
  moreover have "sc_step ?B ?K (sample_cloud, ?q) (snd ?r)"
    by (rule sc_step.worker [of "(''default/web'', 0)" _ _ _ _ None]) (use run_result [OF r] in \<open>simp_all\<close>)
  ultimately have t: "(sc_step ?B ?K)\<^sup>*\<^sup>* (sample_cloud, sc_start) (fst (snd ?r), snd (snd ?r))" by simp
  from failures_are_retried [OF t c(1)] c(2-) have "''default/web'' \<in> fst ` set (sc_queue (snd (snd ?r)))" by simp
  with t show ?thesis by blast
qed




text \<open>
  C15. A load balancer that was created but does not show up takes the controller down: the
  provider returns neither a status nor an error, and the comparison of the statuses
  dereferences nil.
\<close>

theorem syncService_no_result:
  assumes "SplitMetaNamespaceKey key = Inr (ns, name)" and "sk_GetService K ns name w = (Inr service, w0)"
    and "wantsLoadBalancer service" and "sk_ListNodes K w0 = (Inr nodes, w1)"
    and "SessionAffinity service = ServiceAffinityNone" and "check_protocols (Ports service) = None" and "LoadBalancerIP service = ''''"
    and "\<And>w. \<exists>instances w'. getInstancesByNodes E p
      (map Node.truncate (filter (\<lambda>n. \<not> Node_Unschedulable n) nodes)) w = (Ret (Inr instances), w')"
    and "\<And>w. \<exists>w'. getLoadBalancer E p (GetLoadBalancerName (Service.truncate service)) w = (Ret (Inr None), w')"
    and "\<And>w. \<exists>w'. create_lb E p (GetLoadBalancerName (Service.truncate service)) (read_options (Annotations service)) w = (Ret None, w')"
  shows "\<exists>w' s'. syncService (aliyun_balancer E p) K key (w, s) =
    (Panic ''runtime error: invalid memory address or nil pointer dereference'', (w', s'))"
proof -
  from assms(5-7) have t: "SessionAffinity (Service.truncate service) = ServiceAffinityNone"
    "check_protocols (Ports (Service.truncate service)) = None" "LoadBalancerIP (Service.truncate service) = ''''"
    by (simp_all add: Service.truncate_def)
  have n: "Annotations (Service.truncate service) = Annotations service" by (simp add: Service.truncate_def)
  from EnsureLoadBalancer_invisible [OF t assms(8-10) [folded n includeNodeFromNodeList_def]] obtain w' where
    "EnsureLoadBalancer E p (Service.truncate service) (map Node.truncate (filter includeNodeFromNodeList nodes)) w1 = (Ret (None, None), w')"
    by blast
  then have "lm_EnsureLoadBalancer (aliyun_balancer E p) (Service.truncate service)
      (map Node.truncate (filter includeNodeFromNodeList nodes)) w1 = (Ret (None, None), w')" by (simp add: aliyun_balancer_def)
  from createLoadBalancerIfNeeded_nil [OF assms(3,4) this] have
    "createLoadBalancerIfNeeded (aliyun_balancer E p) K key service w0 =
      (Panic ''runtime error: invalid memory address or nil pointer dereference'', w')" .
  from syncService_panics [OF assms(1,2) this] show ?thesis by blast
qed

theorem syncService_no_result_witness:
  "\<exists>w' s'. syncService (aliyun_balancer blind_env sample_provider) (ref_services (Inr web_service) web_nodes) ''default/web''
     (sample_cloud, sc_start) = (Panic ''runtime error: invalid memory address or nil pointer dereference'', (w', s'))"
proof (rule syncService_no_result)
  let ?K = "ref_services (Inr web_service) web_nodes"
  have ns: "map Node.truncate (filter (\<lambda>n. \<not> Node_Unschedulable n) web_nodes) = [sample_node]"
    by (simp add: web_nodes_def sample_node_def Node.truncate_def)
  show "SplitMetaNamespaceKey ''default/web'' = Inr (''default'', ''web'')" by (rule web_key)
  show "sk_GetService ?K ''default'' ''web'' sample_cloud = (Inr web_service, sample_cloud)"
    and "sk_ListNodes ?K sample_cloud = (Inr web_nodes, sample_cloud)" by (simp_all add: ref_services_def)
  show "wantsLoadBalancer web_service" and "check_protocols (Ports web_service) = None" by code_simp+
  show "SessionAffinity web_service = ServiceAffinityNone" and "LoadBalancerIP web_service = ''''"
    by (simp_all add: web_service_def sample_service_def Service.extend_def ServiceAffinityNone_def)
  show "\<exists>instances w'. getInstancesByNodes blind_env sample_provider
      (map Node.truncate (filter (\<lambda>n. \<not> Node_Unschedulable n) web_nodes)) w = (Ret (Inr instances), w')" for w
    unfolding ns by (rule blind_instances)
  show "\<exists>w'. getLoadBalancer blind_env sample_provider (GetLoadBalancerName (Service.truncate web_service)) w = (Ret (Inr None), w')" for w
    by (rule blind_balancers)
  show "\<exists>w'. create_lb blind_env sample_provider (GetLoadBalancerName (Service.truncate web_service)) (read_options (Annotations web_service)) w =
      (Ret None, w')" for w by (rule blind_create)
qed

section \<open>Routes and node names\<close>



definition old_route :: Route where
  "old_route = \<lparr>TargetNode = ''10.0.0.1'', DestinationCIDR = ''172.16.1.0/24''\<rparr>"





text \<open>
  Listing routes refines the abstract set: with a well-formed inventory it never
  panics, it changes neither the routes nor the instances, and a list that it returns has
  exactly the routes of the table whose next hop is a known instance.
\<close>

lemma ListRoutes_refines:
  assumes "route_invar E p rts ins w" and "ListRoutes E p cluster w = (r, w')"
  shows "route_invar E p rts ins w' \<and> routes_at p rts ins w' = routes_at p rts ins w \<and>
    (\<exists>x. r = Ret x) \<and> (\<forall>rs. r = Ret (Inr rs) \<longrightarrow> set rs = routes_at p rts ins w)"
  by (rule ListRoutes_law [OF assms])

lemma ListRoutes_refines_witness:
  "\<exists>rs. fst (ListRoutes ref_env sample_provider ''c'' sample_cloud) = Ret (Inr rs) \<and>
     set rs = routes_at sample_provider cl_entries cl_instances sample_cloud"
proof -
  have l: "fst (ListRoutes ref_env sample_provider ''c'' sample_cloud) = Ret (Inr [old_route])" by code_simp
  from ListRoutes_refines [OF sample_route_invar run_result [OF l]] l show ?thesis by blast
qed

text \<open>
  C18. Names and instances match: the name the provider gives to an instance leads back to
  it, when the name is given to no other instance of the answer.
\<close>

theorem node_name_round_trip:
  assumes "wf_provider p" and "distinct all" and "i \<in> set all"
    and "mapInstanceToNodeName p i w = (Ret n, w)"
    and "\<forall>j \<in> set all. by_node_name p n j \<longrightarrow> j = i"
    and "getInstances E p w = (Ret (Inr all), w')"
  shows "getInstanceByNodeName E p n w = (Ret (Inr i), w')"
proof -
  from assms(4) have "node_name_of p i = Some n"
    by (auto simp: mapInstanceToNodeName_eq split: option.splits)
  with assms show ?thesis
    by (simp add: getInstanceByNodeName_eq tryE_def bnd_def ret_def node_name_found)
qed

theorem node_name_round_trip_witness:
  "getInstanceByNodeName ref_env sample_provider ''10.0.0.2'' sample_cloud = (Ret (Inr instance2), sample_cloud)"
proof (rule node_name_round_trip [OF sample_provider_wf, where all = "[instance1, instance2]"])
  show "mapInstanceToNodeName sample_provider instance2 sample_cloud = (Ret ''10.0.0.2'', sample_cloud)"
    by (simp add: mapInstanceToNodeName_def sample_provider_def instance2_def)
  show "getInstances ref_env sample_provider sample_cloud = (Ret (Inr [instance1, instance2]), sample_cloud)"
    by (simp add: getInstances_def client_defs ref_env_def one_page_def go_defs sample_cloud_def)
qed (simp_all add: instance1_def instance2_def by_node_name_def byPrivateIP_def sample_provider_def)

text \<open>
  C19. The lookup of several nodes searches, for every node after the first, only the
  instances that matched the nodes before. So when it succeeds, all its results are one and
  the same instance, which carries all the names.
\<close>

theorem getInstancesByNodeNames_one_instance:
  assumes "getInstancesByNodeNames E p (n # ns) w = (Ret (Inr rs), w')"
  shows "\<exists>i. rs = replicate (Suc (length ns)) i \<and> (\<forall>m \<in> set (n # ns). by_node_name p m i)"
proof -
  from assms obtain all where "pick_instances (by_node_name p) all (n # ns) [] = Inr rs"
    by (auto simp: getInstancesByNodeNames_def)
  from pick_instances_first [OF this] show ?thesis by blast
qed

theorem getInstancesByNodeNames_one_instance_witness:
  "\<exists>rs i. fst (getInstancesByNodeNames ref_env sample_provider [''10.0.0.1''] sample_cloud) = Ret (Inr rs) \<and>
     rs = [i] \<and> by_node_name sample_provider ''10.0.0.1'' i"
proof -
  have r: "fst (getInstancesByNodeNames ref_env sample_provider [''10.0.0.1''] sample_cloud) = Ret (Inr [instance1])"
    by code_simp
  from getInstancesByNodeNames_one_instance [OF run_result [OF r]] r show ?thesis by auto
qed

text \<open>Two nodes on two instances cannot be resolved together.\<close>

lemma two_nodes_fail:
  "fst (getInstancesByNodeNames ref_env sample_provider [''10.0.0.1'', ''10.0.0.2''] sample_cloud) =
     Ret (Inl ''Unable to get instance of node:10.0.0.2'')"
  by code_simp


section \<open>The route controller\<close>


definition new_node :: KubeNode where
  "new_node = \<lparr>Node_Name = ''10.0.0.2'', Node_Addresses = [], Node_UID = ''u-2'', Node_PodCIDR = ''172.16.2.0/24'',
     Node_Unschedulable = False, Node_Conditions = []\<rparr>"

definition cluster_net :: IPNet where
  "cluster_net = \<lparr>Net_IP = [172, 16, 0, 0], Net_Mask = [255, 255, 0, 0]\<rparr>"

definition sample_rc :: "cloud RouteController" where
  "sample_rc = route_New (aliyun_routes ref_env sample_provider) ''c'' cluster_net (\<lambda>w. (Inr [new_node], w)) (\<lambda>n c w. (None, w))"

definition sample_start :: "cloud rc_state" where
  "sample_start = reconcile_start [new_node] (snd (ListRoutes ref_env sample_provider ''c'' sample_cloud))"

definition sample_round :: "cloud rc_state option" where
  "sample_round = rc_moves sample_rc [old_route] [0, 0, 0, 0, 1, 2, 1, 1] sample_start"

lemma sample_round_ends: "\<exists>s. sample_round = Some s \<and> reconciled s \<and> filter failed (rc_go s) = []"
proof -
  have "map_option (\<lambda>s. (reconciled s, filter failed (rc_go s))) sample_round = Some (True, [])" by code_simp
  then show ?thesis by auto
qed



text \<open>
  C21. Every round comes to an end, whatever the schedule: it takes at most 16 steps per node
  and 2 per listed route (and 3 more), a round that has not ended can go on (so no goroutine
  waits forever for a slot of the rate limiter), and at most 200 creations are in flight.
\<close>

theorem reconcile_round_ends:
  assumes "(rc_step rc rs ^^ n) (reconcile_start nodes w) s"
  shows "n \<le> 16 * length nodes + 2 * length rs + 3 \<and>
    (rc_fault s \<or> reconciled s \<or> (\<exists>s'. rc_step rc rs s s')) \<and> in_flight (rc_go s) \<le> 200"
  using round_bounded [OF assms] round_progress [of s rc rs] round_flight [OF relpowp_imp_rtranclp [OF assms]]
  by (auto simp: maxConcurrentRouteCreations_def)

theorem reconcile_round_ends_witness:
  "\<exists>n s. (rc_step sample_rc [old_route] ^^ n) sample_start s \<and> reconciled s \<and> n \<le> 21"
proof -
  from sample_round_ends obtain s where s: "sample_round = Some s" "reconciled s" by blast
  from rtranclp_imp_relpowp [OF rc_moves_steps [OF s(1) [unfolded sample_round_def]]] obtain n where
    n: "(rc_step sample_rc [old_route] ^^ n) sample_start s" ..
  from reconcile_round_ends [OF n [unfolded sample_start_def]] have "n \<le> 21" by simp
  with n s(2) show ?thesis by blast
qed

text \<open>
  C22. The controller is responsible for a route exactly when all addresses of the route's
  network are addresses of the cluster's network (both IPv4): looking at the first and the last
  address, as the code does, is enough.
\<close>

theorem responsible_exact:
  assumes "ParseCIDR cidr = Inr (ip, rc_clusterCIDR rc)" and "length (Net_IP (rc_clusterCIDR rc)) = 4"
    and "ParseCIDR (DestinationCIDR route) = Inr (ip', net)" and "length (Net_IP net) = 4"
  shows "isResponsibleForRoute rc route \<longleftrightarrow> (\<forall>a. Contains net a \<longrightarrow> Contains (rc_clusterCIDR rc) a)"
  by (rule responsible_subnet [OF assms])

theorem responsible_exact_witness:
  "isResponsibleForRoute sample_rc old_route \<and> Contains cluster_net [172, 16, 1, 77]"
proof -
  let ?net = "\<lparr>Net_IP = [172, 16, 1, 0], Net_Mask = [255, 255, 255, 0]\<rparr>"
  have c: "ParseCIDR ''172.16.0.0/16'' = Inr (v4InV6Prefix @ [172, 16, 0, 0], rc_clusterCIDR sample_rc)" by code_simp
  have r: "ParseCIDR (DestinationCIDR old_route) = Inr (v4InV6Prefix @ [172, 16, 1, 0], ?net)" by code_simp
  have a: "isResponsibleForRoute sample_rc old_route" by code_simp
  have "Contains ?net [172, 16, 1, 77]" by code_simp
  with a responsible_exact [OF c _ r] show ?thesis by (simp add: sample_rc_def cluster_net_def)
qed

section \<open>Volumes\<close>

text \<open>
  C23. A success of \<^verbatim>\<open>Attach\<close> is true: the disk is with the instance of the node, attached or
  on the way, and the reported path is the local name of its device.
\<close>

theorem Attach_correct:
  assumes "disk_contract E dks"
    and "Attach E p options node w = (Ret v, w')" and "ve_Status v = StatusSuccess"
  shows "\<exists>iid st. instance_of_node E p node w = Some iid \<and> dks w' (opt_string options ''diskId'') = Some st \<and>
    attached_status (ds_status st) \<and> ds_instance st = iid \<and> ve_DevicePath v = deviceApi2Local (ds_device st)"
  by (rule Attach_success [OF assms])

definition disk_options :: "string \<Rightarrow> VolumeOptions" where
  "disk_options d = [(''diskId'', JString d)]"

theorem Attach_correct_witness:
  "\<exists>v st. fst (Attach ref_env sample_provider (disk_options ''d-2'') ''10.0.0.2'' sample_cloud) = Ret v \<and>
     view_disks (snd (Attach ref_env sample_provider (disk_options ''d-2'') ''10.0.0.2'' sample_cloud)) ''d-2'' = Some st \<and>
     ds_instance st = ''i-2'' \<and> ve_DevicePath v = deviceApi2Local (ds_device st)"
proof -
  let ?v = "(volume_status ''Success'' '''')\<lparr>ve_DevicePath := ''/dev/vdb''\<rparr>"
  have a: "fst (Attach ref_env sample_provider (disk_options ''d-2'') ''10.0.0.2'' sample_cloud) = Ret ?v" by code_simp
  have i: "instance_of_node ref_env sample_provider ''10.0.0.2'' sample_cloud = Some ''i-2''" by code_simp
  have "ve_Status ?v = StatusSuccess" by (simp add: volume_status_def StatusSuccess_def)
  from Attach_correct [OF ref_disk_contract run_result [OF a] this] a i show ?thesis
    by (auto simp: disk_options_def opt_string_def)
qed

text \<open>
  Attaching a disk to the instance that uses it already changes no disk, whatever the
  answer.
\<close>

lemma Attach_again:
  assumes "disk_contract E dks" and "instance_of_node E p node w = Some iid"
    and "dks w (opt_string options ''diskId'') = Some st"
    and "ds_status st = DiskStatusInUse" and "ds_instance st = iid"
    and "Attach E p options node w = (r, w')"
  shows "dks w' = dks w"
  by (rule Attach_idempotent [OF assms])

lemma Attach_again_witness:
  "view_disks (snd (Attach ref_env sample_provider (disk_options ''d-2'') ''10.0.0.1'' sample_cloud)) =
     view_disks sample_cloud"
proof (rule Attach_again [OF ref_disk_contract, OF _ _ _ _ surjective_pairing])
  show "instance_of_node ref_env sample_provider ''10.0.0.1'' sample_cloud = Some ''i-1''" by code_simp
  show "view_disks sample_cloud (opt_string (disk_options ''d-2'') ''diskId'') =
      Some \<lparr>ds_status = DiskStatusInUse, ds_instance = ''i-1'', ds_device = ''/dev/xvdc''\<rparr>"
    by (simp add: view_disks_def sample_cloud_def disk_options_def opt_string_def)
qed simp_all

text \<open>
  C24. A success of \<^verbatim>\<open>Detach\<close> means that the disk is not in use on the node: it is released
  (detaching or available), or it belongs to another instance.
\<close>

theorem Detach_correct:
  assumes "disk_contract E dks"
    and "Detach E p deviceName node w = (Ret v, w')" and "ve_Status v = StatusSuccess"
  shows "\<exists>iid st. instance_of_node E p node w = Some iid \<and> dks w' (path_Base deviceName) = Some st \<and>
    (released_status (ds_status st) \<or> ds_instance st \<noteq> iid)"
  by (rule Detach_success [OF assms])

theorem Detach_correct_witness:
  "\<exists>st. view_disks (snd (Detach ref_env sample_provider ''/mnt/d-2'' ''10.0.0.1'' sample_cloud)) ''d-2'' = Some st \<and>
     (released_status (ds_status st) \<or> ds_instance st \<noteq> ''i-1'')"
proof -
  have d: "fst (Detach ref_env sample_provider ''/mnt/d-2'' ''10.0.0.1'' sample_cloud) = Ret VolumeSuccess" by code_simp
  have i: "instance_of_node ref_env sample_provider ''10.0.0.1'' sample_cloud = Some ''i-1''" by code_simp
  have b: "path_Base ''/mnt/d-2'' = ''d-2''" by code_simp
  from Detach_correct [OF ref_disk_contract run_result [OF d]] show ?thesis by (simp add: i b)
qed

text \<open>
  C25. Detaching is safe: whatever its outcome, no disk changes but the named one, and that
  one only when it belongs to the instance of the node.
\<close>

theorem Detach_only_own:
  assumes "disk_contract E dks" and "Detach E p deviceName node w = (r, w')"
    and "dks w' diskId \<noteq> dks w diskId"
  shows "diskId = path_Base deviceName \<and>
    (\<exists>st iid. dks w diskId = Some st \<and> instance_of_node E p node w = Some iid \<and> ds_instance st = iid)"
  by (rule Detach_safe [OF assms])

theorem Detach_only_own_witness:
  "\<exists>st. view_disks sample_cloud ''d-2'' = Some st \<and>
     instance_of_node ref_env sample_provider ''10.0.0.1'' sample_cloud = Some (ds_instance st)"
proof -
  have "view_disks (snd (Detach ref_env sample_provider ''/mnt/d-2'' ''10.0.0.1'' sample_cloud)) ''d-2'' \<noteq>
      view_disks sample_cloud ''d-2''" by code_simp
  from Detach_only_own [OF ref_disk_contract surjective_pairing this] show ?thesis by auto
qed

text \<open>
  C26. The search for a device by its name ends and is exact: on a cloud that serves the
  instance's disks in pages, \<^verbatim>\<open>getDiskByDevice\<close> returns the first disk of the whole inventory
  with that device, and the error that names the device when there is none.
\<close>

theorem getDiskByDevice_total:
  assumes "serves_pages E (p_region p) iid D" and "length D < 2 ^ 62"
  shows "\<exists>w'. getDiskByDevice E p iid device w =
    Some (case find_device device D of
            Some disk \<Rightarrow> Inr disk
          | None \<Rightarrow> Inl (sprintf ''Device %s is not found in provider inventory'' [device]), w')"
  using getDiskByDevice_search [OF assms] by (simp add: search_result_def)

text \<open>A cloud with 60 disks on the instance, which makes two pages.\<close>

definition many_disks :: "DiskItemType list" where
  "many_disks = replicate 59 (disk_item ''d-0'' \<lparr>ds_status = DiskStatusInUse, ds_instance = ''i-1'', ds_device = ''/dev/xvdb''\<rparr>) @
     [disk_item ''d-9'' \<lparr>ds_status = DiskStatusInUse, ds_instance = ''i-1'', ds_device = ''/dev/xvdz''\<rparr>]"

definition paged_env :: "cloud env" where
  "paged_env = ref_env\<lparr>invoke_DescribeDisks :=
     (\<lambda>args c. (Inr (page_of (DescribeDisks_Pagination args) many_disks), c))\<rparr>"

theorem getDiskByDevice_total_witness:
  "\<exists>w' d. getDiskByDevice paged_env sample_provider ''i-1'' ''/dev/vdz'' sample_cloud = Some (Inr d, w') \<and> DiskId d = ''d-9''"
proof -
  have s: "serves_pages paged_env (p_region sample_provider) ''i-1'' many_disks"
    by (simp add: serves_pages_def paged_env_def page_of_def Let_def)
  have l: "length many_disks < 2 ^ 62" by (simp add: many_disks_def)
  have f: "map_option DiskId (find_device ''/dev/vdz'' many_disks) = Some ''d-9''" by code_simp
  from getDiskByDevice_total [OF s l, of "''/dev/vdz''" sample_cloud] f show ?thesis by auto
qed

text \<open>
  C27. Provisioning asks for enough: when \<^verbatim>\<open>Provision\<close> returns a volume for a claim whose
  request is a non-negative quantity in range, one disk was created, with the least number
  of gigabytes that is neither below the request nor below the minimum of the category;
  the volume refers to that disk, has that capacity and can be mounted by one node.
\<close>

theorem Provision_correct:
  assumes "Provision E p options w = (Ret (Inr pv), w')"
    and "0 \<le> q_num (requested options)" and "is_int64 (units (requested options) Giga)"
    and "q_exp (requested options) \<le> 27"
  shows "\<exists>diskId category size.
    category = Category (read_storage_options (po_Parameters options)) \<and>
    size = max (min_size category) (units (requested options) Giga) \<and>
    invoke_CreateDisk E
      \<lparr>CreateDisk_RegionId = p_region p, CreateDisk_ZoneId = p_zone p, CreateDisk_DiskCategory = category,
       CreateDisk_DiskName = po_PVName options, CreateDisk_Size = size\<rparr> w = (Inr diskId, w') \<and>
    map_option fv_Options (pv_FlexVolume pv) = Some [''diskId'' \<mapsto> diskId] \<and>
    map_option q_i (pv_Capacity pv ResourceStorage) = Some \<lparr>amount_value = size, amount_scale = Giga\<rparr> \<and>
    pv_Name pv = po_PVName options \<and> pv_AccessModes pv = [ReadWriteOnce]"
  by (rule Provision_success [OF assms(1)])
     (simp add: disk_size_eq [OF assms(2-4)] SetScaled_def)

definition sample_claim :: "int \<Rightarrow> ProvisionOptions" where
  "sample_claim n =
     \<lparr>po_ReclaimPolicy = ''Delete'', po_PVName = ''pv1'',
      po_PVC = \<lparr>pvc_Selector = None, pvc_AccessModes = [''ReadWriteOnce''],
        pvc_Requests = [''storage'' \<mapsto> \<lparr>q_i = \<lparr>amount_value = n, amount_scale = 0\<rparr>, q_d = None\<rparr>],
        pvc_StorageClassName = Some ''fast''\<rparr>,
      po_Parameters = Some [''diskCategory'' \<mapsto> ''cloud_ssd'']\<rparr>"

lemma sample_create: "\<exists>w'. CreateDisk_DiskName args = ''pv1'' \<longrightarrow> invoke_CreateDisk ref_env args sample_cloud = (Inr ''d-pv1'', w')"
  by (simp add: ref_env_def ref_create_disk_def Let_def sample_cloud_def)

lemma sample_provision:
  "\<exists>pv. fst (Provision ref_env sample_provider (sample_claim n) sample_cloud) = Ret (Inr pv)"
proof -
  have c: "Category (read_storage_options (po_Parameters (sample_claim n))) = ''cloud_ssd''" unfolding sample_claim_def by code_simp
  then show ?thesis
    by (auto simp: Provision_def Let_def sample_claim_def ReadWriteOnce_def client_defs ref_env_def ref_create_disk_def
        sample_cloud_def go_defs)
qed

theorem Provision_correct_witness:
  "\<exists>pv. fst (Provision ref_env sample_provider (sample_claim 21474836480) sample_cloud) = Ret (Inr pv) \<and>
     map_option q_i (pv_Capacity pv ResourceStorage) = Some \<lparr>amount_value = 22, amount_scale = Giga\<rparr>"
proof -
  let ?o = "sample_claim 21474836480"
  have c: "Category (read_storage_options (po_Parameters ?o)) = ''cloud_ssd''" by code_simp
  have q: "requested ?o = \<lparr>q_i = \<lparr>amount_value = 21474836480, amount_scale = 0\<rparr>, q_d = None\<rparr>"
    by (simp add: requested_def sample_claim_def ResourceStorage_def)
  then have u: "units (requested ?o) Giga = 22" by (simp add: units_def q_exp_def q_num_def Giga_def ceil_div_def)
  have m: "min_size ''cloud_ssd'' = 20" by code_simp
  from sample_provision obtain pv where p: "fst (Provision ref_env sample_provider ?o sample_cloud) = Ret (Inr pv)" by blast
  from Provision_correct [OF run_result [OF p]] show ?thesis
    using p c u m q by (auto simp: q_num_def q_exp_def is_int64_def)
qed

text \<open>
  Deleting a provisioned volume deletes its disk: for the volume that \<^verbatim>\<open>Provision\<close>
  returned, \<^verbatim>\<open>Delete\<close> makes the one request that deletes the disk that was created.
\<close>

lemma Provision_Delete:
  assumes "Provision E p options w = (Ret (Inr pv), wi)"
  shows "\<exists>args diskId. CreateDisk_DiskName args = po_PVName options \<and> invoke_CreateDisk E args w = (Inr diskId, wi) \<and>
    (diskId \<noteq> '''' \<longrightarrow> (\<forall>w' w''. invoke_DeleteDisk E diskId w' = (None, w'') \<longrightarrow>
       Delete E show_pv show_fv p pv w' = (Ret None, w'')))"
proof (rule Provision_success [OF assms])
  fix diskId
  assume "invoke_CreateDisk E
        \<lparr>CreateDisk_RegionId = p_region p, CreateDisk_ZoneId = p_zone p,
         CreateDisk_DiskCategory = Category (read_storage_options (po_Parameters options)),
         CreateDisk_DiskName = po_PVName options,
         CreateDisk_Size = disk_size (Category (read_storage_options (po_Parameters options))) (requested options)\<rparr> w =
        (Inr diskId, wi)"
    and "pv_FlexVolume pv = Some \<lparr>fv_Driver = DriverName, fv_Options = [''diskId'' \<mapsto> diskId]\<rparr>"
  then show ?thesis by (intro exI conjI) (auto intro: Delete_provisioned)
qed

lemma Provision_Delete_witness:
  "\<exists>pv w w'. Provision ref_env sample_provider (sample_claim 5) sample_cloud = (Ret (Inr pv), w) \<and>
     Delete ref_env (\<lambda>_. '''') (\<lambda>_. '''') sample_provider pv w = (Ret None, w') \<and>
     view_disks w' ''d-pv1'' = None"
proof -
  let ?p = "Provision ref_env sample_provider (sample_claim 5) sample_cloud"
  from sample_provision obtain pv where p: "fst ?p = Ret (Inr pv)" by blast
  from Provision_Delete [OF run_result [OF p], of "\<lambda>_. ''''" "\<lambda>_. ''''"] obtain args diskId where
    a: "CreateDisk_DiskName args = ''pv1''" "invoke_CreateDisk ref_env args sample_cloud = (Inr diskId, snd ?p)" and
    d: "diskId \<noteq> '''' \<longrightarrow> (\<forall>w' w''. invoke_DeleteDisk ref_env diskId w' = (None, w'') \<longrightarrow>
       Delete ref_env (\<lambda>_. '''') (\<lambda>_. '''') sample_provider pv w' = (Ret None, w''))"
    by (auto simp: sample_claim_def)
  from a sample_create [of args] have "diskId = ''d-pv1''" by auto
  with d have "Delete ref_env (\<lambda>_. '''') (\<lambda>_. '''') sample_provider pv (snd ?p) =
      (Ret None, (snd ?p)\<lparr>cl_disks := AList.delete ''d-pv1'' (cl_disks (snd ?p))\<rparr>)"
    by (simp add: ref_env_def)
  with run_result [OF p] show ?thesis by (fastforce simp: view_disks_def delete_conv')
qed

text \<open>
  A claim that cannot be served (a selector, no \<^verbatim>\<open>ReadWriteOnce\<close>, no disk category) is
  refused with an error before any request is made.
\<close>

lemma Provision_refuses:
  assumes "pvc_Selector (po_PVC options) \<noteq> None \<or> ReadWriteOnce \<notin> set (pvc_AccessModes (po_PVC options)) \<or>
    Category (read_storage_options (po_Parameters options)) = ''''"
  shows "\<exists>e. Provision E p options w = (Ret (Inl e), w)"
  using Provision_rejects [OF assms, of E p] by (auto simp: ret_def)

lemma Provision_refuses_witness:
  "\<exists>e. Provision ref_env sample_provider ((sample_claim 5)\<lparr>po_Parameters := None\<rparr>) sample_cloud = (Ret (Inl e), sample_cloud)"
proof (rule Provision_refuses)
  have "Category (read_storage_options None) = ''''" by code_simp
  then show "pvc_Selector (po_PVC ((sample_claim 5)\<lparr>po_Parameters := None\<rparr>)) \<noteq> None \<or>
      ReadWriteOnce \<notin> set (pvc_AccessModes (po_PVC ((sample_claim 5)\<lparr>po_Parameters := None\<rparr>))) \<or>
      Category (read_storage_options (po_Parameters ((sample_claim 5)\<lparr>po_Parameters := None\<rparr>))) = ''''" by simp
qed


text \<open>
  C28. Every operation of the volume driver returns, without a panic and without ending the
  process, and with one of the three statuses of the flexvolume protocol.
\<close>

theorem volume_operations_answer:
  "returns known_status (Init p) \<and> returns known_status (Attach E p options node) \<and>
   returns known_status (Detach E p device node) \<and> returns known_status (MountDevice E p dir device options) \<and>
   returns known_status (UnmountDevice E p dir) \<and> returns known_status (WaitForAttach E p device options) \<and>
   returns known_status (GetVolumeName E p options) \<and> returns known_status (IsAttached E p options node)"
  by (simp add: volume_statuses)

text \<open>
  The answer of \<^verbatim>\<open>IsAttached\<close> is exact: it changes no disk, and when it succeeds it says
  that the disk is attached exactly when the disk is in use on the instance of the node.
\<close>

lemma IsAttached_exact:
  assumes "disk_contract E dks"
    and "IsAttached E p options node w = (Ret v, w')" and "ve_Status v = StatusSuccess"
  shows "dks w' = dks w \<and> (\<exists>i st.
    fst (getInstanceByNodeName E p (if node = ''localhost'' then p_hostname p else node) w) = Ret (Inr i) \<and>
    dks w (opt_string options ''diskId'') = Some st \<and>
    (ve_Attached v \<longleftrightarrow> ds_instance st = InstanceId i \<and> ds_status st = DiskStatusInUse))"
  by (rule IsAttached_success [OF assms])

lemma IsAttached_exact_witness:
  "\<exists>v. fst (IsAttached ref_env sample_provider (disk_options ''d-2'') ''10.0.0.1'' sample_cloud) = Ret v \<and>
     ve_Attached v \<and> view_disks sample_cloud ''d-2'' \<noteq> None"
proof -
  let ?v = "(volume_status ''Success'' '''')\<lparr>ve_Attached := True\<rparr>"
  have a: "fst (IsAttached ref_env sample_provider (disk_options ''d-2'') ''10.0.0.1'' sample_cloud) = Ret ?v" by code_simp
  have "ve_Status ?v = StatusSuccess" by (simp add: volume_status_def StatusSuccess_def)
  from IsAttached_exact [OF ref_disk_contract run_result [OF a] this] a show ?thesis
    by (auto simp: disk_options_def opt_string_def)
qed

text \<open>
  Device names: translating a name of the API to the local one and back is the identity,
  and \<^verbatim>\<open>sameDevice\<close> identifies the two names of one device and no others.
\<close>

lemma device_names_agree:
  assumes "CHR ''/'' \<notin> set s" and "CHR ''/'' \<notin> set t"
  shows "deviceLocal2Api (deviceApi2Local (APIPrefix @ s)) = APIPrefix @ s \<and>
    deviceApi2Local (deviceLocal2Api (LocalPrefix @ s)) = LocalPrefix @ s \<and>
    (sameDevice (APIPrefix @ s) (LocalPrefix @ t) \<longleftrightarrow> s = t) \<and>
    (sameDevice (APIPrefix @ s) (APIPrefix @ t) \<longleftrightarrow> s = t) \<and>
    (sameDevice (LocalPrefix @ s) (LocalPrefix @ t) \<longleftrightarrow> s = t)"
  by (simp add: sameDevice_def deviceApi2Local_local assms)

lemma device_names_agree_witness:
  "sameDevice ''/dev/xvdb'' ''/dev/vdb'' \<and> \<not> sameDevice ''/dev/xvdb'' ''/dev/vdc''"
  using device_names_agree [of "''b''" "''b''"] device_names_agree [of "''b''" "''c''"]
  by (simp add: APIPrefix_def LocalPrefix_def)

text \<open>
  \<^verbatim>\<open>WaitForDisk\<close> ends, and it reports success only when the last answer of the cloud was
  a disk with the wanted status.
\<close>

lemma WaitForDisk_total:
  "\<exists>r w'. WaitForDisk E region diskId status timeout w = (Ret r, w') \<and>
     (r = None \<longrightarrow> (\<exists>args w1 d ds pg. DescribeDisks_DiskIds args = [diskId] \<and>
        invoke_DescribeDisks E args w1 = (Inr (d # ds, pg), w') \<and> Disk_Status d = status))"
proof -
  obtain r w' where r: "WaitForDisk E region diskId status timeout w = (Ret r, w')"
    using returnsD [OF WaitForDisk_returns [of E region diskId status timeout], of w] by blast
  moreover have "\<exists>args w1 d ds pg. DescribeDisks_DiskIds args = [diskId] \<and>
      invoke_DescribeDisks E args w1 = (Inr (d # ds, pg), w') \<and> Disk_Status d = status" if "r = None"
    using WaitForDisk_loop_status [OF r [unfolded that WaitForDisk_def]]
    by - (rule exI [of _ "\<lparr>DescribeDisks_RegionId = region, DescribeDisks_DiskIds = [diskId],
        DescribeDisks_InstanceId = '''', DescribeDisks_Pagination = no_pagination\<rparr>"], simp)
  ultimately show ?thesis by blast
qed

lemma WaitForDisk_total_witness:
  "\<exists>w'. WaitForDisk ref_env ''cn-beijing'' ''d-2'' DiskStatusInUse 0 sample_cloud = (Ret None, w') \<and>
     (\<exists>args w1 d ds pg. DescribeDisks_DiskIds args = [''d-2''] \<and>
        invoke_DescribeDisks ref_env args w1 = (Inr (d # ds, pg), w') \<and> Disk_Status d = DiskStatusInUse)"
proof -
  have a: "fst (WaitForDisk ref_env ''cn-beijing'' ''d-2'' DiskStatusInUse 0 sample_cloud) = Ret None" by code_simp
  from WaitForDisk_total [of ref_env "''cn-beijing''" "''d-2''" DiskStatusInUse 0 sample_cloud] obtain r w' where
    b: "WaitForDisk ref_env ''cn-beijing'' ''d-2'' DiskStatusInUse 0 sample_cloud = (Ret r, w')" and
    c: "r = None \<longrightarrow> (\<exists>args w1 d ds pg. DescribeDisks_DiskIds args = [''d-2''] \<and>
        invoke_DescribeDisks ref_env args w1 = (Inr (d # ds, pg), w') \<and> Disk_Status d = DiskStatusInUse)"
    by blast
  from a b have "r = None" by simp
  with b c show ?thesis by blast
qed


section \<open>The provision controller\<close>


definition data_claim :: PersistentVolumeClaim where
  "data_claim = \<lparr>claim_Namespace = ''default'', claim_Name = ''data'', claim_UID = ''u-7'', claim_ResourceVersion = ''1'',
     claim_Annotations = Map.empty, claim_VolumeName = '''',
     claim_Spec = \<lparr>pvc_Selector = None, pvc_AccessModes = [ReadWriteOnce], pvc_Requests = Map.empty,
       pvc_StorageClassName = Some ''ssd''\<rparr>\<rparr>"

definition sample_pc :: "cloud ProvisionController" where
  "sample_pc = NewProvisionController ref_server ProvisionerName_value
     (aliyun_provisioner ref_env (\<lambda>_. '''') (\<lambda>_. '''') sample_provider) False 3"






text \<open>
  C30. A volume object goes only with its disk. Whatever the outcome of \<^verbatim>\<open>deleteVolumeOperation\<close>,
  either nothing changes, or the stored volume was due for deletion and its disk is gone, and
  only then the object may be gone; no other disk and no other volume is touched.
\<close>

theorem volume_goes_with_disk:
  assumes "makes_disks E dsk pvs" and "keeps_volumes K dsk pvs"
    and "ctrl = NewProvisionController K n (aliyun_provisioner E sp sf p) old threshold"
    and "disk_of (PersistentVolume.truncate v) = Some d" and "deleteVolumeOperation ctrl v w = (Ret r, w')"
  shows "dsk w' = dsk w \<and> pvs w' = pvs w \<or>
    (\<exists>v'. pvs w (pv_Name v) = Some v' \<and> shouldDelete ctrl v') \<and> dsk w' = dsk w - {d} \<and>
      (pvs w' = (pvs w)(pv_Name v := None) \<or> pvs w' = pvs w)"
  using aliyun_pc.delete_volume_law [of E dsk pvs K n sp sf p old threshold v w r w' d] assms by simp

definition released_volume :: SavedVolume where
  "released_volume = \<lparr>pv_Name = ''pvc-u-1'', pv_ReclaimPolicy = ''Delete'', pv_AccessModes = [ReadWriteOnce],
     pv_Capacity = Map.empty, pv_StorageClassName = ''ssd'',
     pv_FlexVolume = Some \<lparr>fv_Driver = DriverName, fv_Options = [''diskId'' \<mapsto> ''d-1'']\<rparr>, vol_UID = ''v-1'',
     vol_Annotations = [annDynamicallyProvisioned \<mapsto> ProvisionerName_value], vol_ClaimRef = None, vol_Phase = VolumeReleased\<rparr>"

definition released_cloud :: cloud where
  "released_cloud = sample_cloud\<lparr>cl_volumes := [(''pvc-u-1'', released_volume)]\<rparr>"

theorem volume_goes_with_disk_witness:
  "view_disk_set (snd (deleteVolumeOperation sample_pc released_volume released_cloud)) = view_disk_set released_cloud - {''d-1''}"
proof -
  let ?w = "snd (deleteVolumeOperation sample_pc released_volume released_cloud)"
  have r: "fst (deleteVolumeOperation sample_pc released_volume released_cloud) = Ret None" by code_simp
  have n: "map fst (cl_volumes ?w) = []" by code_simp
  have d: "disk_of (PersistentVolume.truncate released_volume) = Some ''d-1''"
    by (simp add: disk_of_def released_volume_def PersistentVolume.truncate_def)
  have "view_volumes ?w ''pvc-u-1'' = None" using n by (simp add: view_volumes_def)
  moreover have "view_volumes released_cloud ''pvc-u-1'' = Some released_volume" by (simp add: view_volumes_def released_cloud_def)
  ultimately have "view_volumes ?w \<noteq> view_volumes released_cloud" by (metis option.distinct(1))
  with volume_goes_with_disk [OF ref_makes_disks ref_keeps_volumes sample_pc_def d run_result [OF r]] show ?thesis by blast
qed

text \<open>
  The limit on failures is exact: after some failures in a row a claim is passed over,
  without any request, if and only if their number has reached the threshold; below it the
  failures make no difference.
\<close>

lemma failure_threshold:
  assumes "stats (claim_UID claim) = None" and "es \<noteq> []"
  shows "shouldProvision ctrl (fold (\<lambda>e. updateStats claim (Some e)) es stats) claim =
    (if pc_failedRetryThreshold ctrl \<le> int (length es) then ret False else shouldProvision ctrl stats claim)"
  using assms by (rule shouldProvision_failures)

lemma failure_threshold_witness:
  "shouldProvision sample_pc (fold (\<lambda>e. updateStats data_claim (Some e)) [''a'', ''b'', ''c''] Map.empty) data_claim = ret False \<and>
   shouldProvision sample_pc (fold (\<lambda>e. updateStats data_claim (Some e)) [''a'', ''b''] Map.empty) data_claim =
     shouldProvision sample_pc Map.empty data_claim"
proof -
  have "pc_failedRetryThreshold sample_pc = 3" by (simp add: sample_pc_def NewProvisionController_def)
  then show ?thesis
    using failure_threshold [where stats = Map.empty and claim = data_claim and ctrl = sample_pc and es = "[''a'', ''b'', ''c'']"]
      failure_threshold [where stats = Map.empty and claim = data_claim and ctrl = sample_pc and es = "[''a'', ''b'']"]
    by (simp del: fold_simps)
qed

text \<open>
  In every state the controller can reach, no two goroutines work on the same claim or on the
  same volume.
\<close>

lemma one_goroutine_per_claim:
  assumes "(pc_step ctrl)\<^sup>*\<^sup>* (w, pc_start) (w', s)"
    and "(x, ProvisionOp c) \<in> set (pc_runningOperations s)" and "(y, ProvisionOp c') \<in> set (pc_runningOperations s)"
    and "claimToClaimKey c = claimToClaimKey c'" and "claim_UID c = claim_UID c'"
  shows "c = c'"
  using one_goroutine [of s, OF _ assms(2,3)] pc_inv_reachable [OF assms(1)] assms(4,5) by simp



section \<open>The flexvolume command\<close>



definition sample_env :: "string \<Rightarrow> string" where
  "sample_env x =
     (if x = ''ALIYUN_REGION'' then ''cn-beijing'' else if x = ''ALIYUN_INSTANCE'' then ''i-1''
      else if x = ''ALIYUN_ACCESS_KEY'' then ''key'' else if x = ''ALIYUN_ACCESS_KEY_SECRET'' then ''secret''
      else '''')"


text \<open>
  C34. The command \<^verbatim>\<open>isattached\<close> of the plugin is \<^verbatim>\<open>attach\<close>: with the same arguments the two run
  in the same way, so the query attaches the disk it asks about.
\<close>

theorem isattached_attaches:
  assumes "2 \<le> length args"
  shows "flexv_main E Unmarshal getenv hostname test arg0 (''isattached'' # args) =
    flexv_main E Unmarshal getenv hostname test arg0 (''attach'' # args)"
proof -
  have "dispatch Unmarshal m arg0 (''isattached'' # args) = dispatch Unmarshal m arg0 (''attach'' # args)" for m :: "'a Volume_methods"
    using assms by (simp add: dispatch_def run_op_def)
  then show ?thesis by (simp only: flexv_main_def)
qed

theorem isattached_attaches_witness:
  "\<not> attached_status (ds_status (the (view_disks sample_cloud ''d-1''))) \<and>
   attached_status (ds_status (the (view_disks (fst (snd (flexv_main ref_env (\<lambda>_. Some (disk_options ''d-1'')) sample_env
     ''host1'' False ''flexv'' [''isattached'', ''{}'', ''10.0.0.2''] (sample_cloud, '''')))) ''d-1'')))"
  unfolding isattached_attaches [of "[''{}'', ''10.0.0.2'']", simplified] by code_simp

text \<open>
  The JSON that the plugin writes for a result can be read back: decoding the printed
  object gives the same status, message, device, volume name and attachment, whatever
  characters they contain.
\<close>

lemma ToJson_round_trip: "Unmarshal_status (ToJson v) = Some v"
  by (rule Unmarshal_ToJson)


section \<open>Configuration, options and quantities\<close>



text \<open>
  C36. Writing the tagged fields of a struct into a map of strings and reading them back
  into any value of the type gives the struct again, for fields that are exported and are
  integers, booleans or strings; the other keys of the map are untouched.
\<close>

theorem struct_round_trip:
  assumes "wf_struct fs" and "same_shape fs gs"
  shows "\<exists>m'. StructToMap ff (IStruct fs) (Some m) prefix = (Some m', None) \<and>
    MapToStruct pf (Some m') (IPtr gs) prefix = (IPtr fs, None) \<and>
    (\<forall>k. (\<forall>f \<in> set fs. F_Tag f \<noteq> '''' \<longrightarrow> k \<noteq> prefix @ F_Tag f) \<longrightarrow> m' k = m k)"
proof (rule StructToMap_wf [OF assms(1), of ff m prefix])
  fix m'
  assume "StructToMap ff (IStruct fs) (Some m) prefix = (Some m', None)"
    and r: "\<And>f. f \<in> set fs \<Longrightarrow> F_Tag f \<noteq> '''' \<Longrightarrow> m' (prefix @ F_Tag f) = Some (render_value ff (F_Value f))"
    and "\<And>k. \<forall>f \<in> set fs. F_Tag f \<noteq> '''' \<longrightarrow> k \<noteq> prefix @ F_Tag f \<Longrightarrow> m' k = m k"
  moreover have "MapToStruct pf (Some m') (IPtr gs) prefix = (IPtr fs, None)"
    by (rule MapToStruct_reads [OF assms r])
  ultimately show ?thesis by blast
qed

text \<open>The options of a load balancer as annotations of a service.\<close>

definition sample_options :: AliyunLoadBalancerOptions where
  "sample_options = \<lparr>InternetChargeType = ''paybytraffic'', Bandwidth = 7, HealthyThreshold = 3,
     UnhealthyThreshold = 2, HealthCheckConnectTimeout = 5, HealthCheckInterval = -1\<rparr>"

theorem struct_round_trip_witness:
  "\<exists>m. StructToMap (\<lambda>_. '''') (IStruct (options_fields sample_options)) (Some Map.empty) AliyunAnnotationPrefix = (Some m, None) \<and>
     read_options (Some m) = sample_options"
proof -
  have "wf_struct (options_fields sample_options)"
    by (simp add: wf_struct_def options_fields_def plain_field_def sample_options_def is_int64_def)
  moreover have "same_shape (options_fields sample_options) (options_fields zero_options)"
    by (simp add: same_shape_def options_fields_def plain_field_def)
  moreover have "options_of_fields (options_fields sample_options) = sample_options"
    by (simp add: options_fields_def plain_field_def)
  ultimately show ?thesis
    using struct_round_trip [where m = Map.empty and ff = "\<lambda>_. ''''" and pf = no_floats and prefix = AliyunAnnotationPrefix
        and fs = "options_fields sample_options" and gs = "options_fields zero_options"]
    unfolding read_options_def by fastforce
qed

text \<open>
  \<^verbatim>\<open>MapCopy\<close> into a map of the same type adds the source's entries over the present ones,
  and \<^verbatim>\<open>MapEqual\<close> decides whether two such maps have the same entries; so the copy is equal
  to the source exactly when the destination had no key of its own.
\<close>

lemma MapCopy_MapEqual:
  assumes "same_kinds s d" and "M_Type s = M_Type d" and "M_Entries d = Some es" and "M_Entries s \<noteq> None"
    and "distinct (map fst es)" and "distinct (map fst (entries_of s))"
  shows "\<exists>d'. MapCopy (MMap d) (MMap s) = (MMap d', None) \<and>
    map_of (entries_of d') = map_of es ++ map_of (entries_of s) \<and>
    (MapEqual (MMap d') (MMap s) \<longleftrightarrow> fst ` set es \<subseteq> fst ` set (entries_of s))"
proof (rule MapCopy_entries [OF assms(1-3,5,6)])
  fix d'
  assume c: "MapCopy (MMap d) (MMap s) = (MMap d', None)" and t: "M_Type d' = M_Type d" "same_kinds d' d"
    "distinct (map fst (entries_of d'))" "M_Entries d' \<noteq> None"
    and m: "map_of (entries_of d') = map_of es ++ map_of (entries_of s)"
  have "MapEqual (MMap d') (MMap s) \<longleftrightarrow> map_of (entries_of d') = map_of (entries_of s)"
    using assms t by (intro MapEqual_iff) (auto simp: same_kinds_def)
  also have "\<dots> \<longleftrightarrow> dom (map_of es) \<subseteq> dom (map_of (entries_of s))"
  proof
    assume "map_of (entries_of d') = map_of (entries_of s)"
    then have "dom (map_of es ++ map_of (entries_of s)) = dom (map_of (entries_of s))" using m by simp
    then show "dom (map_of es) \<subseteq> dom (map_of (entries_of s))" by (simp only: dom_map_add) blast
  next
    assume "dom (map_of es) \<subseteq> dom (map_of (entries_of s))"
    then show "map_of (entries_of d') = map_of (entries_of s)"
      unfolding m by (auto simp: fun_eq_iff map_add_def dom_def split: option.split)
  qed
  finally show ?thesis using c m by (auto simp: dom_map_of_conv_image_fst)
qed

lemma MapCopy_MapEqual_witness:
  "\<exists>d'. MapCopy (MMap \<lparr>M_KeyKind = KString, M_ElemKind = KInt, M_Type = ''map[string]int'', M_Entries = Some []\<rparr>)
     (MMap \<lparr>M_KeyKind = KString, M_ElemKind = KInt, M_Type = ''map[string]int'', M_Entries = Some [(''a'', 1 :: int)]\<rparr>) =
       (MMap d', None) \<and>
     MapEqual (MMap d') (MMap \<lparr>M_KeyKind = KString, M_ElemKind = KInt, M_Type = ''map[string]int'', M_Entries = Some [(''a'', 1)]\<rparr>)"
  using MapCopy_MapEqual [of "\<lparr>M_KeyKind = KString, M_ElemKind = KInt, M_Type = ''map[string]int'', M_Entries = Some [(''a'', 1)]\<rparr>"
      "\<lparr>M_KeyKind = KString, M_ElemKind = KInt, M_Type = ''map[string]int'', M_Entries = Some []\<rparr>" "[]"]
  by (auto simp: same_kinds_def entries_of_def)

text \<open>
  \<^verbatim>\<open>ScaledValue\<close> rounds up and never more than needed: for a non-negative quantity finer
  than the scale, in either representation, the result is the least number of units of
  that scale that is not below the quantity.
\<close>

lemma ScaledValue_least:
  assumes "0 \<le> q_num q" and "q_exp q < scale" and "is_int64 (units q scale)"
  shows "q_num q \<le> ScaledValue q scale * 10 ^ nat (scale - q_exp q) \<and>
    (\<forall>n. q_num q \<le> n * 10 ^ nat (scale - q_exp q) \<longrightarrow> ScaledValue q scale \<le> n)"
proof -
  have "ScaledValue q scale = units q scale" using assms by (intro ScaledValue_units) auto
  also have "\<dots> = ceil_div (q_num q) (10 ^ nat (scale - q_exp q))" using assms(2) by (simp add: units_def)
  finally show ?thesis using ceil_div_upper [of "10 ^ nat (scale - q_exp q)" "q_num q"] by (auto intro: ceil_div_least)
qed

lemma ScaledValue_least_witness:
  "5368709120 \<le> ScaledValue \<lparr>q_i = \<lparr>amount_value = 5368709120, amount_scale = 0\<rparr>, q_d = None\<rparr> Giga * 10 ^ 9 \<and>
   ScaledValue \<lparr>q_i = \<lparr>amount_value = 5368709120, amount_scale = 0\<rparr>, q_d = None\<rparr> Giga \<le> 6"
  using ScaledValue_least [of "\<lparr>q_i = \<lparr>amount_value = 5368709120, amount_scale = 0\<rparr>, q_d = None\<rparr>" Giga]
  by (simp add: q_num_def q_exp_def Giga_def units_def ceil_div_def is_int64_def)


section \<open>The controller and its replicas\<close>

text \<open>
  C37. At most one leader. If the lease outlasts the renewal deadline by three attempts and a
  second, then in every reachable state of any number of replicas, with API calls that
  interleave, fail, or fail after they took effect, a replica that leads is the holder in
  the lock, no other replica leads, and its last renewal is not older than the deadline and
  two attempts.
\<close>

theorem at_most_one_leader:
  assumes "0 \<le> D" and "0 \<le> RenewDeadline cfg" and "RenewDeadline cfg + 3 * D + Second < LeaseDuration cfg"
    and "reachable cfg D s" and "le_phase (s_replica s c) = Leading"
  shows "map_option (HolderIdentity \<circ> fst) (s_lock s) = Some c \<and>
    (\<forall>d. le_phase (s_replica s d) = Leading \<longrightarrow> d = c) \<and>
    s_time s \<le> le_poll (s_replica s c) + RenewDeadline cfg + 2 * D"
proof -
  have e: "election cfg D" using assms(1-3) by unfold_locales
  show ?thesis
    using election.leader_holds [OF e assms(4,5)] election.single_leader [OF e assms(4) _ assms(5)] by blast
qed

text \<open>Two replicas with the default durations; the first one takes the lease.\<close>

definition first_system :: system where
  "first_system = \<lparr>s_time = 0, s_lock = None, s_replica = (\<lambda>_. new_replica), s_since = 0\<rparr>"

abbreviation default_cfg :: LeaderElectionConfig where
  "default_cfg \<equiv> DefaultLeaderElectionConfiguration"

definition led_system :: system where
  "led_system = set_replica (write_lock first_system (free_record default_cfg first_system ''a'')) ''a''
     (succeed (free_record default_cfg first_system ''a'') 0 new_replica)"

lemma first_system_simps:
  "s_time first_system = 0" "s_replica first_system c = new_replica" "le_attempt new_replica = Idle"
  "le_phase new_replica = Acquiring" "lease_free default_cfg first_system ''a''" "initial first_system"
  by (simp_all add: first_system_def new_replica_def lease_free_def initial_def fun_eq_iff)

lemma led_system_reachable: "reachable default_cfg Second led_system"
proof -
  have "(step default_cfg Second)\<^sup>*\<^sup>* first_system led_system"
    using attempt_free [of "''a''" first_system default_cfg Second]
    by (simp add: led_system_def first_system_simps)
  then show ?thesis by (rule reachable_steps) (rule reachable.init [OF first_system_simps(6)])
qed

lemma led_system_leads: "le_phase (s_replica led_system ''a'') = Leading"
  by (simp add: led_system_def succeed_def)

theorem at_most_one_leader_witness:
  "map_option (HolderIdentity \<circ> fst) (s_lock led_system) = Some ''a'' \<and>
   le_phase (s_replica led_system ''b'') \<noteq> Leading"
proof -
  have "RenewDeadline default_cfg + 3 * Second + Second < LeaseDuration default_cfg" "0 \<le> RenewDeadline default_cfg" "0 \<le> Second"
    by (simp_all add: DefaultLeaderElectionConfiguration_def Second_def)
  from at_most_one_leader [OF this(3,2,1) led_system_reachable led_system_leads]
  have "map_option (HolderIdentity \<circ> fst) (s_lock led_system) = Some ''a''"
    "\<forall>d. le_phase (s_replica led_system d) = Leading \<longrightarrow> d = ''a''" by blast+
  moreover have "''b'' \<noteq> ''a''" by simp
  ultimately show ?thesis by blast
qed












end
